(* ===== verification/Prelude.thy ===== *)
theory Prelude
  imports Main
begin

text \<open>
  Shared material of the development: byte strings as the Go code handles them, result types,
  database tables as lists of rows with the SQL statements the store issues, and the generic
  facts about them that carry the component proofs.

  Strings are byte strings (\<open>string = char list\<close>); the case and space tables of Go's
  \<open>strings\<close> package are modelled on their ASCII part. Instants and durations are integers
  counting nanoseconds.
\<close>

named_theorems table_simps \<open>rewrite rules of the table statements\<close>
named_theorems op_defs \<open>unfolding of the store's operations\<close>

type_synonym time = int
type_synonym duration = int

abbreviation second :: duration where "second \<equiv> 1000000000"
abbreviation minute :: duration where "minute \<equiv> 60 * second"
abbreviation hour :: duration where "hour \<equiv> 60 * minute"
abbreviation day :: duration where "day \<equiv> 24 * hour"

section \<open>Strings\<close>

definition is_upper :: "char \<Rightarrow> bool" where
  "is_upper c = (65 \<le> (of_char c :: nat) \<and> (of_char c :: nat) \<le> 90)"

definition is_lower :: "char \<Rightarrow> bool" where
  "is_lower c = (97 \<le> (of_char c :: nat) \<and> (of_char c :: nat) \<le> 122)"

definition is_digit :: "char \<Rightarrow> bool" where
  "is_digit c = (48 \<le> (of_char c :: nat) \<and> (of_char c :: nat) \<le> 57)"

definition lower_char :: "char \<Rightarrow> char" where
  "lower_char c = (if is_upper c then char_of ((of_char c :: nat) + 32) else c)"

text \<open>\<open>strings.ToLower\<close>, \<open>strings.TrimSpace\<close>, \<open>strings.HasPrefix\<close> and their kin.\<close>

definition ToLower :: "string \<Rightarrow> string" where
  "ToLower s = map lower_char s"

definition HasPrefix :: "string \<Rightarrow> string \<Rightarrow> bool" where
  "HasPrefix s p = (take (length p) s = p)"

definition HasSuffix :: "string \<Rightarrow> string \<Rightarrow> bool" where
  "HasSuffix s p = HasPrefix (rev s) (rev p)"

definition TrimPrefix :: "string \<Rightarrow> string \<Rightarrow> string" where
  "TrimPrefix s p = (if HasPrefix s p then drop (length p) s else s)"

definition TrimSuffix :: "string \<Rightarrow> string \<Rightarrow> string" where
  "TrimSuffix s p = (if HasSuffix s p then take (length s - length p) s else s)"

text \<open>\<open>strings.TrimSpace\<close>: the runes \<open>unicode.IsSpace\<close> accepts, by their UTF-8 bytes. None of the encodings is a
  proper prefix or suffix of another, and each starts with a lead byte, so trimming by bytes is trimming by runes.\<close>

definition space_encodings :: "string list" where
  "space_encodings = map (map char_of) ([[9], [10], [11], [12], [13], [32], [0xC2, 0x85], [0xC2, 0xA0], [0xE1, 0x9A, 0x80]]
     @ map (\<lambda>b. [0xE2, 0x80, b]) ([0x80..<0x8B] @ [0xA8, 0xA9, 0xAF]) @ [[0xE2, 0x81, 0x9F], [0xE3, 0x80, 0x80 :: nat]])"

fun trim_front :: "string list \<Rightarrow> string \<Rightarrow> string" where
  "trim_front es [] = []"
| "trim_front es (c # s) =
     (case List.find (HasPrefix (c # s)) es of None \<Rightarrow> c # s | Some e \<Rightarrow> trim_front es (drop (length e - 1) s))"

definition TrimSpace :: "string \<Rightarrow> string" where
  "TrimSpace s = rev (trim_front (map rev space_encodings) (rev (trim_front space_encodings s)))"

definition graphic :: "char \<Rightarrow> bool" where
  "graphic c = (33 \<le> (of_char c :: nat) \<and> (of_char c :: nat) < 127)"

lemma space_ends: "list_all (\<lambda>e. e \<noteq> [] \<and> \<not> graphic (hd e) \<and> \<not> graphic (last e)) space_encodings"
  by code_simp

lemma trim_front_graphic: "list_all (\<lambda>e. e \<noteq> [] \<and> \<not> graphic (hd e)) es \<Longrightarrow> graphic (hd s) \<Longrightarrow> trim_front es s = s"
proof (cases s)
  case (Cons c t)
  assume es: "list_all (\<lambda>e. e \<noteq> [] \<and> \<not> graphic (hd e)) es" and "graphic (hd s)"
  then have "List.find (HasPrefix (c # t)) es = None"
    using Cons by (force simp: find_None_iff list_all_iff HasPrefix_def neq_Nil_conv)
  then show ?thesis using Cons by simp
qed simp

text \<open>Text that starts and ends with a printable ASCII byte is left as it is.\<close>

lemma TrimSpace_graphic: "graphic (hd s) \<Longrightarrow> graphic (last s) \<Longrightarrow> TrimSpace s = s"
  using space_ends
  by (cases "s = []") (simp_all add: TrimSpace_def trim_front_graphic list_all_iff hd_rev)

lemma TrimSpace_Nil [simp]: "TrimSpace [] = []"
  by (simp add: TrimSpace_def)

text \<open>Evaluation takes the short way where it can.\<close>

lemma TrimSpace_code [code]:
  "TrimSpace s = (if s = [] \<or> graphic (hd s) \<and> graphic (last s) then s
     else rev (trim_front (map rev space_encodings) (rev (trim_front space_encodings s))))"
  using TrimSpace_graphic [of s] by (auto simp: TrimSpace_def)

text \<open>\<open>strings.Split\<close> and \<open>strings.Join\<close> at a one-byte separator.\<close>

fun split_on :: "char \<Rightarrow> string \<Rightarrow> string list" where
  "split_on c [] = [[]]"
| "split_on c (x # xs) =
     (if x = c then [] # split_on c xs
      else (case split_on c xs of [] \<Rightarrow> [[x]] | y # ys \<Rightarrow> (x # y) # ys))"

fun join_with :: "char \<Rightarrow> string list \<Rightarrow> string" where
  "join_with c [] = []"
| "join_with c [x] = x"
| "join_with c (x # y # ys) = x @ c # join_with c (y # ys)"

section \<open>Tables\<close>

text \<open>
  A table is the list of its rows, oldest first. \<open>UPDATE \<dots> WHERE\<close>, \<open>DELETE \<dots> WHERE\<close> and
  \<open>SELECT count(*) \<dots> WHERE\<close> are the following functions; \<open>INSERT\<close> appends a row.
\<close>

definition update_where :: "('r \<Rightarrow> bool) \<Rightarrow> ('r \<Rightarrow> 'r) \<Rightarrow> 'r list \<Rightarrow> 'r list" where
  "update_where P f t = map (\<lambda>r. if P r then f r else r) t"

definition delete_where :: "('r \<Rightarrow> bool) \<Rightarrow> 'r list \<Rightarrow> 'r list" where
  "delete_where P t = filter (\<lambda>r. \<not> P r) t"

definition count_where :: "('r \<Rightarrow> bool) \<Rightarrow> 'r list \<Rightarrow> int" where
  "count_where P t = int (length (filter P t))"

definition exists_where :: "('r \<Rightarrow> bool) \<Rightarrow> 'r list \<Rightarrow> bool" where
  "exists_where P t = list_ex P t"

text \<open>A \<open>UNIQUE\<close> constraint; on a nullable column only the non-null values count.\<close>

definition unique_on :: "('r \<Rightarrow> 'k) \<Rightarrow> 'r list \<Rightarrow> bool" where
  "unique_on k t = distinct (map k t)"

definition unique_some :: "('r \<Rightarrow> 'k option) \<Rightarrow> 'r list \<Rightarrow> bool" where
  "unique_some k t = distinct (List.map_filter k t)"

text \<open>A foreign key: every value a row refers to is a key of the parent table.\<close>

definition refers :: "('r \<Rightarrow> 'k option) \<Rightarrow> 'k list \<Rightarrow> 'r list \<Rightarrow> bool" where
  "refers k parents t = list_all (\<lambda>r. case k r of None \<Rightarrow> True | Some i \<Rightarrow> i \<in> set parents) t"

section \<open>Serving a sequence of requests\<close>

text \<open>
  Runs requests one after another against a state, collecting the answers: the sequential
  schedule in which the database serialises the requests it is sent.
\<close>

fun serve :: "('q \<Rightarrow> 's \<Rightarrow> 'a \<times> 's) \<Rightarrow> 'q list \<Rightarrow> 's \<Rightarrow> 'a list \<times> 's" where
  "serve op [] s = ([], s)"
| "serve op (q # qs) s =
     (let (a, s') = op q s; (as, s'') = serve op qs s' in (a # as, s''))"

section \<open>Facts about strings\<close>

lemma length_ToLower [simp]: "length (ToLower s) = length s"
  by (simp add: ToLower_def)

lemma lower_char_not_upper: "\<not> is_upper (lower_char c)"
  by (auto simp: lower_char_def is_upper_def)

lemma lower_char_idem [simp]: "lower_char (lower_char c) = lower_char c"
  using lower_char_not_upper [of c] by (simp add: lower_char_def [of "lower_char c"])

lemma ToLower_idem [simp]: "ToLower (ToLower s) = ToLower s"
  by (simp add: ToLower_def)

lemma HasPrefix_append [simp]: "HasPrefix (p @ s) p"
  by (simp add: HasPrefix_def)

lemma TrimPrefix_append [simp]: "TrimPrefix (p @ s) p = s"
  by (simp add: TrimPrefix_def)

lemma HasPrefix_iff: "HasPrefix s p \<longleftrightarrow> (\<exists>t. s = p @ t)"
  by (metis HasPrefix_append HasPrefix_def append_take_drop_id)

lemma split_on_not_Nil [simp]: "split_on c s \<noteq> []"
  by (induction c s rule: split_on.induct) (auto split: list.splits)

lemma join_split: "join_with c (split_on c s) = s"
proof (induction c s rule: split_on.induct)
  case (2 c x xs)
  obtain y ys where "split_on c xs = y # ys"
    by (cases "split_on c xs") auto
  with 2 show ?case by (cases ys) auto
qed simp

lemma split_on_no_sep: "c \<notin> set s \<Longrightarrow> split_on c s = [s]"
  by (induction s) auto

lemma split_on_append:
  "c \<notin> set x \<Longrightarrow> split_on c (x @ c # s) = x # split_on c s"
  by (induction x) auto

lemma split_join:
  assumes "xs \<noteq> []" and "\<forall>x \<in> set xs. c \<notin> set x"
  shows "split_on c (join_with c xs) = xs"
  using assms
  by (induction c xs rule: join_with.induct) (auto simp: split_on_no_sep split_on_append)

section \<open>Facts about tables\<close>

lemma update_where_Nil [simp]: "update_where P f [] = []"
  by (simp add: update_where_def)

lemma length_update_where [simp]: "length (update_where P f t) = length t"
  by (simp add: update_where_def)

lemma set_update_where: "set (update_where P f t) = (\<lambda>r. if P r then f r else r) ` set t"
  by (simp add: update_where_def)

lemma ball_update_where:
  "(\<forall>r \<in> set (update_where P f t). Q r) \<longleftrightarrow> (\<forall>r \<in> set t. Q (if P r then f r else r))"
  by (induction t) (auto simp: update_where_def)

lemma set_delete_where [simp]: "set (delete_where P t) = {r \<in> set t. \<not> P r}"
  by (auto simp: delete_where_def)

lemma delete_where_append [simp]:
  "delete_where P (t @ t') = delete_where P t @ delete_where P t'"
  by (simp add: delete_where_def)

lemma update_where_append [simp]:
  "update_where P f (t @ t') = update_where P f t @ update_where P f t'"
  by (simp add: update_where_def)

lemma exists_where_iff: "exists_where P t \<longleftrightarrow> (\<exists>r \<in> set t. P r)"
  by (simp add: exists_where_def list_ex_iff)

lemma exists_where_key: "exists_where (\<lambda>r. k r = v) t \<longleftrightarrow> v \<in> k ` set t"
  by (auto simp: exists_where_iff)

lemma map_update_where [table_simps]:
  "(\<And>r. P r \<Longrightarrow> k (f r) = k r) \<Longrightarrow> map k (update_where P f t) = map k t"
  by (simp add: update_where_def)

lemma image_update_where:
  "(\<And>r. P r \<Longrightarrow> k (f r) = k r) \<Longrightarrow> k ` set (update_where P f t) = k ` set t"
  unfolding list.set_map [symmetric] by (subst map_update_where) simp_all

lemma map_filter_update_where [table_simps]:
  "(\<And>r. P r \<Longrightarrow> k (f r) = k r) \<Longrightarrow> List.map_filter k (update_where P f t) = List.map_filter k t"
  by (induction t) (auto simp: update_where_def split: option.splits)

lemma unique_on_update [table_simps]:
  "(\<And>r. P r \<Longrightarrow> k (f r) = k r) \<Longrightarrow> unique_on k (update_where P f t) = unique_on k t"
  by (simp add: unique_on_def map_update_where)

lemma unique_some_update [table_simps]:
  "(\<And>r. P r \<Longrightarrow> k (f r) = k r) \<Longrightarrow> unique_some k (update_where P f t) = unique_some k t"
  by (simp add: unique_some_def map_filter_update_where)

lemma unique_on_delete [intro]: "unique_on k t \<Longrightarrow> unique_on k (delete_where P t)"
  by (simp add: unique_on_def delete_where_def distinct_map_filter)

lemma set_map_filter: "set (List.map_filter k t) = {v. \<exists>r \<in> set t. k r = Some v}"
  by (force simp: List.map_filter_def)

lemma unique_some_delete [intro]: "unique_some k t \<Longrightarrow> unique_some k (delete_where P t)"
  by (induction t)
    (auto simp: unique_some_def delete_where_def set_map_filter split: option.splits)

lemma unique_on_append:
  "unique_on k (t @ [r]) \<longleftrightarrow> unique_on k t \<and> k r \<notin> k ` set t"
  by (auto simp: unique_on_def)

lemma map_filter_append [simp]:
  "List.map_filter k (t @ t') = List.map_filter k t @ List.map_filter k t'"
  by (simp add: List.map_filter_def)

lemma unique_some_append:
  "unique_some k (t @ [r]) \<longleftrightarrow>
     unique_some k t \<and> (\<forall>v. k r = Some v \<longrightarrow> (\<forall>r' \<in> set t. k r' \<noteq> Some v))"
  by (auto simp: unique_some_def set_map_filter split: option.splits)

lemma unique_on_eq:
  "unique_on k t \<Longrightarrow> r \<in> set t \<Longrightarrow> r' \<in> set t \<Longrightarrow> k r = k r' \<Longrightarrow> r = r'"
  by (auto simp: unique_on_def distinct_map inj_on_def)

lemma length_filter_strict:
  assumes "r \<in> set t" "\<not> P r" "Q r" "\<And>x. P x \<Longrightarrow> Q x"
  shows "length (filter P t) < length (filter Q t)"
proof -
  have "length (filter P t) \<le> length (filter Q t)" for t using assms(4) by (induction t) auto
  with assms(1-3) show ?thesis by (induction t) (auto simp: less_Suc_eq_le assms(4))
qed

lemma unique_on_count_one:
  "unique_on k t \<Longrightarrow> r \<in> set t \<Longrightarrow> k r = i \<Longrightarrow> length (filter (\<lambda>x. k x = i) t) = 1"
  by (induction t) (auto simp: unique_on_def filter_empty_conv image_iff)

lemma refers_iff: "refers k parents t \<longleftrightarrow> (\<forall>r \<in> set t. \<forall>i. k r = Some i \<longrightarrow> i \<in> set parents)"
  by (auto simp: refers_def list_all_iff split: option.splits)

lemma refers_update [table_simps]:
  "(\<And>r. P r \<Longrightarrow> k (f r) = k r) \<Longrightarrow> refers k ps (update_where P f t) = refers k ps t"
  by (induction t) (auto simp: refers_def update_where_def)

lemma refers_delete [intro]: "refers k ps t \<Longrightarrow> refers k ps (delete_where P t)"
  by (auto simp: refers_iff)

lemma refers_Nil [simp]: "refers k ps []"
  by (simp add: refers_def)

lemma refers_Cons [simp]:
  "refers k ps (r # t) \<longleftrightarrow> (\<forall>i. k r = Some i \<longrightarrow> i \<in> set ps) \<and> refers k ps t"
  by (auto simp: refers_iff)

lemma refers_append [simp]:
  "refers k ps (t @ t') \<longleftrightarrow> refers k ps t \<and> refers k ps t'"
  by (auto simp: refers_iff)

lemma count_where_append [simp]: "count_where P (t @ t') = count_where P t + count_where P t'"
  by (simp add: count_where_def)

lemma count_where_nonneg [simp]: "0 \<le> count_where P t"
  by (simp add: count_where_def)

lemma count_where_filter: "count_where P (filter Q t) = count_where (\<lambda>x. Q x \<and> P x) t"
  by (simp add: count_where_def conj_commute)

lemma count_where_delete_le: "count_where P (delete_where Q t) \<le> count_where P t"
  by (induction t) (auto simp: count_where_def delete_where_def)

lemma count_where_zero_iff: "count_where P t = 0 \<longleftrightarrow> (\<forall>r \<in> set t. \<not> P r)"
  by (auto simp: count_where_def filter_empty_conv)

lemma find_Some_mem: "List.find P t = Some r \<Longrightarrow> r \<in> set t \<and> P r"
  by (auto simp: find_Some_iff)

lemma find_append:
  "List.find P (t @ t') = (case List.find P t of None \<Rightarrow> List.find P t' | Some r \<Rightarrow> Some r)"
  by (induction t) auto

lemma find_delete_where:
  "(\<And>r. P r \<Longrightarrow> \<not> Q r) \<Longrightarrow> List.find P (delete_where Q t) = List.find P t"
  by (induction t) (auto simp: delete_where_def)

lemma find_update_same:
  "(\<And>r. P (f r) = P r) \<Longrightarrow> List.find P (update_where P f t) = map_option f (List.find P t)"
  by (induction t) (auto simp: update_where_def)

lemma filter_update_where:
  "(\<And>r. P r \<Longrightarrow> \<not> Q r \<and> \<not> Q (f r)) \<Longrightarrow> filter Q (update_where P f t) = filter Q t"
  by (induction t) (auto simp: update_where_def)

lemma unique_some_eq:
  "unique_some k t \<Longrightarrow> r \<in> set t \<Longrightarrow> r' \<in> set t \<Longrightarrow> k r = Some v \<Longrightarrow> k r' = Some v \<Longrightarrow> r = r'"
  by (induction t) (auto simp: unique_some_def set_map_filter split: option.splits)

lemma find_Some_unique:
  assumes "unique_on k t" and "r \<in> set t"
  shows "List.find (\<lambda>x. k x = k r) t = Some r"
proof -
  from assms(2) have "List.find (\<lambda>x. k x = k r) t \<noteq> None"
    by (auto simp: find_None_iff)
  then obtain r' where r': "List.find (\<lambda>x. k x = k r) t = Some r'" by auto
  then have "r' = r"
    using find_Some_mem [OF r'] assms by (auto intro: unique_on_eq)
  with r' show ?thesis by simp
qed

section \<open>Facts about served sequences\<close>

declare serve.simps(2) [simp del]

lemma serve_Cons [simp]:
  "serve op (q # qs) s =
     (fst (op q s) # fst (serve op qs (snd (op q s))), snd (serve op qs (snd (op q s))))"
  by (simp add: serve.simps(2) case_prod_beta Let_def)

lemma length_serve [simp]: "length (fst (serve op qs s)) = length qs"
  by (induction qs arbitrary: s) auto

lemma serve_append:
  "serve op (qs @ qs') s =
     (fst (serve op qs s) @ fst (serve op qs' (snd (serve op qs s))),
      snd (serve op qs' (snd (serve op qs s))))"
  by (induction qs arbitrary: s) auto

lemma serve_invariant:
  assumes "\<And>q s. I s \<Longrightarrow> I (snd (op q s))" and "I s"
  shows "I (snd (serve op qs s))"
  using assms(2) by (induction qs arbitrary: s) (auto intro: assms(1))

end
