(* ===== verification/Interfaces.thy ===== *)
theory Interfaces
  imports Prelude Complex_Main
begin

text \<open>
  The contracts several components share, each stated once with the facts its clients need:
  a gate that spends credit for every admitted request (the rate limiters), a store of
  single-use secrets (refresh tokens, authorization codes, flow states, links, recovery codes),
  and an operation that keeps an invariant.
\<close>

section \<open>Counting what was let through\<close>

definition admitted :: "(time \<times> 'k) list \<Rightarrow> bool list \<Rightarrow> 'k \<Rightarrow> nat" where
  "admitted qs as k = length (filter (\<lambda>(q, a). snd q = k \<and> a) (zip qs as))"

definition granted :: "('e \<times> 'k) list \<Rightarrow> 'r option list \<Rightarrow> 'k \<Rightarrow> nat" where
  "granted qs as k = length (filter (\<lambda>(q, a). snd q = k \<and> a \<noteq> None) (zip qs as))"

text \<open>Requests in the order of their clock.\<close>

fun in_order :: "time \<Rightarrow> (time \<times> 'k) list \<Rightarrow> bool" where
  "in_order t [] = True"
| "in_order t ((t', k) # qs) = (t \<le> t' \<and> in_order t' qs)"

fun last_time :: "time \<Rightarrow> (time \<times> 'k) list \<Rightarrow> time" where
  "last_time t [] = t"
| "last_time t ((t', k) # qs) = last_time t' qs"

lemma last_time_ge: "in_order t qs \<Longrightarrow> t \<le> last_time t qs"
  by (induction t qs rule: in_order.induct) auto

section \<open>A gate with credit\<close>

text \<open>
  \<open>level now k s\<close> is the credit key \<open>k\<close> has in state \<open>s\<close> at \<open>now\<close>, which grows by at most
  \<open>rate s\<close> per unit of time; letting a request through spends one unit.
\<close>

locale credit_gate =
  fixes attempt :: "time \<Rightarrow> 'k \<Rightarrow> 's \<Rightarrow> bool \<times> 's"
    and level :: "time \<Rightarrow> 'k \<Rightarrow> 's \<Rightarrow> rat"
    and rate :: "'s \<Rightarrow> rat"
    and invar :: "time \<Rightarrow> 's \<Rightarrow> bool"
  assumes level_nonneg: "invar t s \<Longrightarrow> t \<le> now \<Longrightarrow> 0 \<le> level now k s"
    and invar_attempt: "invar t s \<Longrightarrow> t \<le> now \<Longrightarrow> invar now (snd (attempt now k s))"
    and rate_attempt: "rate (snd (attempt now k s)) = rate s"
    and admit_spends: "invar t s \<Longrightarrow> t \<le> now \<Longrightarrow> fst (attempt now k s) \<Longrightarrow>
      level now k (snd (attempt now k s)) \<le> level now k s - 1"
    and refuse_keeps: "invar t s \<Longrightarrow> t \<le> now \<Longrightarrow> \<not> fst (attempt now k s) \<Longrightarrow>
      level now k (snd (attempt now k s)) \<le> level now k s"
    and other_keys: "invar t s \<Longrightarrow> t \<le> now \<Longrightarrow> k' \<noteq> k \<Longrightarrow>
      level now k (snd (attempt now k' s)) \<le> level now k s"
    and level_grows: "invar t s \<Longrightarrow> t \<le> now \<Longrightarrow>
      level now k s \<le> level t k s + of_int (now - t) * rate s"
begin

lemma admitted_le:
  assumes "invar t s" and "in_order t qs"
  shows "of_nat (admitted qs (fst (serve (\<lambda>(now, k). attempt now k) qs s)) k)
    \<le> level t k s + of_int (last_time t qs - t) * rate s"
  using assms
proof (induction qs arbitrary: t s)
  case Nil
  then show ?case by (simp add: admitted_def level_nonneg)
next
  case (Cons q qs)
  obtain now k' where q: "q = (now, k')" by (cases q)
  from Cons.prems q have le: "t \<le> now" and rest: "in_order now qs" by simp_all
  let ?s' = "snd (attempt now k' s)"
  let ?as = "fst (serve (\<lambda>(now, k). attempt now k) qs ?s')"
  let ?hit = "if k' = k \<and> fst (attempt now k' s) then 1 else 0 :: rat"
  have inv': "invar now ?s'" using Cons.prems(1) le by (rule invar_attempt)
  have IH: "of_nat (admitted qs ?as k) \<le> level now k ?s' + of_int (last_time now qs - now) * rate s"
    using Cons.IH [OF inv' rest] by (simp add: rate_attempt)
  have step: "level now k ?s' + ?hit \<le> level now k s"
    using admit_spends [OF Cons.prems(1) le, of k] refuse_keeps [OF Cons.prems(1) le, of k]
      other_keys [OF Cons.prems(1) le, of k' k]
    by (cases "k' = k") auto
  have "of_nat (admitted (q # qs) (fst (serve (\<lambda>(now, k). attempt now k) (q # qs) s)) k) =
      ?hit + of_nat (admitted qs ?as k)"
    by (auto simp: admitted_def q)
  also have "\<dots> \<le> level now k s + of_int (last_time now qs - now) * rate s"
    using IH step by linarith
  also have "\<dots> \<le> level t k s + of_int (now - t) * rate s + of_int (last_time now qs - now) * rate s"
    using level_grows [OF Cons.prems(1) le, of k] by linarith
  also have "\<dots> = level t k s + of_int (last_time t (q # qs) - t) * rate s"
    by (simp add: q algebra_simps)
  finally show ?case .
qed

end

section \<open>Single-use secrets\<close>

text \<open>
  \<open>redeem e k s\<close> presents the secret \<open>k\<close> in circumstances \<open>e\<close> (the clock and whatever else
  the caller brings). \<open>spent k s\<close> says that no later presentation of \<open>k\<close> can succeed.
\<close>

locale single_use =
  fixes redeem :: "'e \<Rightarrow> 'k \<Rightarrow> 's \<Rightarrow> 'r option \<times> 's"
    and spent :: "'k \<Rightarrow> 's \<Rightarrow> bool"
    and invar :: "'s \<Rightarrow> bool"
  assumes invar_redeem: "invar s \<Longrightarrow> invar (snd (redeem e k s))"
    and redeem_spends: "invar s \<Longrightarrow> fst (redeem e k s) \<noteq> None \<Longrightarrow> spent k (snd (redeem e k s))"
    and spent_refused: "spent k s \<Longrightarrow> fst (redeem e k s) = None"
    and spent_stays: "spent k s \<Longrightarrow> spent k (snd (redeem e k' s))"
begin

lemma spent_never_granted:
  "spent k s \<Longrightarrow> granted qs (fst (serve (\<lambda>(e, k). redeem e k) qs s)) k = 0"
proof (induction qs arbitrary: s)
  case (Cons q qs)
  obtain e k' where q: "q = (e, k')" by (cases q)
  have "spent k (snd (redeem e k' s))" using Cons.prems by (rule spent_stays)
  from Cons.IH [OF this] show ?case
    using spent_refused [OF Cons.prems, of e] by (auto simp: granted_def q)
qed (simp add: granted_def)

lemma granted_at_most_once:
  "invar s \<Longrightarrow> granted qs (fst (serve (\<lambda>(e, k). redeem e k) qs s)) k \<le> 1"
proof (induction qs arbitrary: s)
  case (Cons q qs)
  obtain e k' where q: "q = (e, k')" by (cases q)
  let ?s' = "snd (redeem e k' s)"
  show ?case
  proof (cases "k' = k \<and> fst (redeem e k' s) \<noteq> None")
    case True
    then have "spent k ?s'" using redeem_spends [OF Cons.prems, of e k] by auto
    from spent_never_granted [OF this, of qs] show ?thesis
      using True by (auto simp: granted_def q)
  next
    case False
    have "invar ?s'" using Cons.prems by (rule invar_redeem)
    from Cons.IH [OF this] show ?thesis
      using False by (auto simp: granted_def q)
  qed
qed (simp add: granted_def)

end

end
