(* ===== verification/RateLimit.thy ===== *)
theory RateLimit
  imports Interfaces
begin

text \<open>
  The keyed token bucket of \<open>internal/ratelimit/limiter.go\<close>, the keys of
  \<open>internal/ratelimit/key.go\<close> and the fixed-window counter of \<open>internal/throttle/throttle.go\<close>.
  The clock the code reads is an argument. Token counts are rationals where the code has
  \<open>float64\<close>: rounding of the floating point operations is not modelled. Both types are guarded
  by a mutex in the code, so each operation is one atomic step.
\<close>

section \<open>The keyed token bucket\<close>

record bucket =
  tokens :: rat
  updated :: time

record limiter =
  limit :: rat
  window :: duration
  buckets :: "string \<rightharpoonup> bucket"
  lastSweep :: time

record decision =
  Allowed :: bool
  RetryAfter :: duration

definition Blocked :: "decision \<Rightarrow> bool" where
  "Blocked d = (\<not> Allowed d)"

definition New :: "int \<Rightarrow> duration \<Rightarrow> time \<Rightarrow> limiter" where
  "New n win now = \<lparr>limit = of_int n, window = win, buckets = Map.empty, lastSweep = now\<rparr>"

definition sweep :: "time \<Rightarrow> limiter \<Rightarrow> limiter" where
  "sweep now l =
     (if now - lastSweep l < window l then l
      else l\<lparr>lastSweep := now,
             buckets := (\<lambda>key. case buckets l key of
               None \<Rightarrow> None
             | Some b \<Rightarrow> if now - updated b \<ge> window l then None else Some b)\<rparr>)"

definition refill :: "time \<Rightarrow> string \<Rightarrow> limiter \<Rightarrow> bucket \<times> limiter" where
  "refill now key l0 =
     (let l = sweep now l0 in
      case buckets l key of
        None \<Rightarrow>
          (let b = \<lparr>tokens = limit l, updated = now\<rparr>
           in (b, l\<lparr>buckets := (buckets l)(key \<mapsto> b)\<rparr>))
      | Some b \<Rightarrow>
          (let elapsed = now - updated b;
               t = (if elapsed > 0 \<and> window l > 0
                    then let t' = tokens b + of_int elapsed / of_int (window l) * limit l
                         in if t' > limit l then limit l else t'
                    else tokens b);
               b' = \<lparr>tokens = t, updated = now\<rparr>
           in (b', l\<lparr>buckets := (buckets l)(key \<mapsto> b')\<rparr>)))"

text \<open>Converting a \<open>float64\<close> to \<open>time.Duration\<close> truncates towards zero.\<close>

definition to_duration :: "rat \<Rightarrow> duration" where
  "to_duration x = (if 0 \<le> x then \<lfloor>x\<rfloor> else \<lceil>x\<rceil>)"

definition timeToNextToken :: "limiter \<Rightarrow> bucket \<Rightarrow> duration" where
  "timeToNextToken l b =
     (if limit l \<le> 0 then window l
      else to_duration ((1 - tokens b) * of_int (window l) / limit l))"

definition Allow :: "time \<Rightarrow> string \<Rightarrow> limiter \<Rightarrow> decision \<times> limiter" where
  "Allow now key l0 =
     (let (b, l) = refill now key l0 in
      if tokens b < 1 then (\<lparr>Allowed = False, RetryAfter = timeToNextToken l b\<rparr>, l)
      else (\<lparr>Allowed = True, RetryAfter = 0\<rparr>,
            l\<lparr>buckets := (buckets l)(key \<mapsto> b\<lparr>tokens := tokens b - 1\<rparr>)\<rparr>))"

definition Exhausted :: "time \<Rightarrow> string \<Rightarrow> limiter \<Rightarrow> decision \<times> limiter" where
  "Exhausted now key l0 =
     (let (b, l) = refill now key l0 in
      if tokens b < 1 then (\<lparr>Allowed = False, RetryAfter = timeToNextToken l b\<rparr>, l)
      else (\<lparr>Allowed = True, RetryAfter = 0\<rparr>, l))"

definition Reset :: "string \<Rightarrow> limiter \<Rightarrow> limiter" where
  "Reset key l = l\<lparr>buckets := (buckets l)(key := None)\<rparr>"

text \<open>
  What a key's budget is at an instant, whatever the limiter has stored or swept: the abstract
  reading the stored buckets implement.
\<close>

definition level :: "time \<Rightarrow> string \<Rightarrow> limiter \<Rightarrow> rat" where
  "level now key l =
     (case buckets l key of
        None \<Rightarrow> limit l
      | Some b \<Rightarrow> min (limit l) (tokens b + of_int (now - updated b) / of_int (window l) * limit l))"

text \<open>The state in which \<open>key\<close> holds \<open>v\<close> tokens at \<open>now\<close>, which every operation writes.\<close>

definition put_tokens :: "time \<Rightarrow> string \<Rightarrow> rat \<Rightarrow> limiter \<Rightarrow> limiter" where
  "put_tokens now key v l =
     (sweep now l)\<lparr>buckets := (buckets (sweep now l))(key \<mapsto> \<lparr>tokens = v, updated = now\<rparr>)\<rparr>"

text \<open>The states a limiter is in at clock \<open>t\<close>: token counts within bounds, no bucket from the future.\<close>

definition limiter_ok :: "time \<Rightarrow> limiter \<Rightarrow> bool" where
  "limiter_ok t l \<longleftrightarrow> 0 \<le> limit l \<and> 0 < window l \<and> lastSweep l \<le> t \<and>
     (\<forall>key b. buckets l key = Some b \<longrightarrow> 0 \<le> tokens b \<and> tokens b \<le> limit l \<and> updated b \<le> t)"

text \<open>
  The reference limiter: every key has a bucket from the start and nothing is ever evicted.
\<close>

record ref_limiter =
  ref_limit :: rat
  ref_window :: duration
  ref_buckets :: "string \<Rightarrow> bucket"

definition ref_New :: "int \<Rightarrow> duration \<Rightarrow> time \<Rightarrow> ref_limiter" where
  "ref_New n win now =
     \<lparr>ref_limit = of_int n, ref_window = win, ref_buckets = (\<lambda>_. \<lparr>tokens = of_int n, updated = now\<rparr>)\<rparr>"

definition ref_level :: "time \<Rightarrow> string \<Rightarrow> ref_limiter \<Rightarrow> rat" where
  "ref_level now key r =
     (let b = ref_buckets r key
      in min (ref_limit r) (tokens b + of_int (now - updated b) / of_int (ref_window r) * ref_limit r))"

definition ref_Allow :: "time \<Rightarrow> string \<Rightarrow> ref_limiter \<Rightarrow> decision \<times> ref_limiter" where
  "ref_Allow now key r =
     (let v = ref_level now key r;
          put = (\<lambda>v'. r\<lparr>ref_buckets := (ref_buckets r)(key := \<lparr>tokens = v', updated = now\<rparr>)\<rparr>)
      in if v < 1
         then (\<lparr>Allowed = False,
                 RetryAfter = (if ref_limit r \<le> 0 then ref_window r
                               else to_duration ((1 - v) * of_int (ref_window r) / ref_limit r))\<rparr>, put v)
         else (\<lparr>Allowed = True, RetryAfter = 0\<rparr>, put (v - 1)))"

text \<open>A request as the gate contract sees it: let through or not.\<close>

definition limiter_attempt :: "time \<Rightarrow> string \<Rightarrow> limiter \<Rightarrow> bool \<times> limiter" where
  "limiter_attempt now key l = (let (d, l') = Allow now key l in (Allowed d, l'))"

section \<open>Keys\<close>

text \<open>
  \<open>net.ParseIP\<close>, an address's text and membership in the trusted networks are arguments;
  \<open>r.RemoteAddr\<close> is given after \<open>net.SplitHostPort\<close> (\<open>None\<close> where that fails).
\<close>

definition remoteIP :: "(string \<Rightarrow> string option) \<Rightarrow> string \<Rightarrow> string" where
  "remoteIP split_host_port remoteAddr =
     (case split_host_port remoteAddr of None \<Rightarrow> remoteAddr | Some host \<Rightarrow> host)"

definition forwardedHops :: "string list \<Rightarrow> string list" where
  "forwardedHops lines =
     filter (\<lambda>part. part \<noteq> []) (map TrimSpace (concat (map (split_on (CHR '','')) lines)))"

definition contains :: "('ip \<Rightarrow> bool) list \<Rightarrow> 'ip option \<Rightarrow> bool" where
  "contains nets ip = (case ip of None \<Rightarrow> False | Some a \<Rightarrow> list_ex (\<lambda>network. network a) nets)"

fun walkHops :: "(string \<Rightarrow> 'ip option) \<Rightarrow> ('ip \<Rightarrow> string) \<Rightarrow> ('ip \<Rightarrow> bool) list \<Rightarrow> string
    \<Rightarrow> 'ip option \<Rightarrow> string list \<Rightarrow> string" where
  "walkHops parse show_ip nets remote leftmost [] =
     (case leftmost of None \<Rightarrow> remote | Some ip \<Rightarrow> show_ip ip)"
| "walkHops parse show_ip nets remote leftmost (hop # hops) =
     (case parse hop of
        None \<Rightarrow> remote
      | Some ip \<Rightarrow>
          if \<not> contains nets (Some ip) then show_ip ip
          else walkHops parse show_ip nets remote (Some ip) hops)"

definition ClientIP :: "(string \<Rightarrow> string option) \<Rightarrow> (string \<Rightarrow> 'ip option) \<Rightarrow> ('ip \<Rightarrow> string)
    \<Rightarrow> ('ip \<Rightarrow> bool) list \<Rightarrow> string \<Rightarrow> string list \<Rightarrow> string" where
  "ClientIP split_host_port parse show_ip trusted remoteAddr forwarded =
     (let remote = remoteIP split_host_port remoteAddr in
      if trusted = [] \<or> \<not> contains trusted (parse remote) then remote
      else walkHops parse show_ip trusted remote None (rev (forwardedHops forwarded)))"

definition IdentityKey :: "(string \<Rightarrow> string) \<Rightarrow> string \<Rightarrow> string" where
  "IdentityKey sha256_hex identity =
     (let normalized = ToLower (TrimSpace identity)
      in if normalized = [] then [] else sha256_hex normalized)"

section \<open>The fixed-window counter\<close>

record throttle_window =
  w_count :: int
  expiresAt :: time

record throttle =
  t_limit :: int
  t_duration :: duration
  windows :: "string \<rightharpoonup> throttle_window"

definition throttle_New :: "int \<Rightarrow> duration \<Rightarrow> throttle" where
  "throttle_New n dur = \<lparr>t_limit = n, t_duration = dur, windows = Map.empty\<rparr>"

definition evictExpired :: "time \<Rightarrow> throttle \<Rightarrow> throttle" where
  "evictExpired now t =
     t\<lparr>windows := (\<lambda>key. case windows t key of
         None \<Rightarrow> None | Some w \<Rightarrow> if now > expiresAt w then None else Some w)\<rparr>"

definition throttle_Allow :: "time \<Rightarrow> string \<Rightarrow> throttle \<Rightarrow> bool \<times> throttle" where
  "throttle_Allow now key t0 =
     (if t_limit t0 \<le> 0 \<or> key = [] then (True, t0)
      else
        let t = evictExpired now t0 in
        case windows t key of
          None \<Rightarrow> (True, t\<lparr>windows := (windows t)(key \<mapsto> \<lparr>w_count = 1, expiresAt = now + t_duration t\<rparr>)\<rparr>)
        | Some w \<Rightarrow>
            if now > expiresAt w
            then (True, t\<lparr>windows := (windows t)(key \<mapsto> \<lparr>w_count = 1, expiresAt = now + t_duration t\<rparr>)\<rparr>)
            else if w_count w \<ge> t_limit t then (False, t)
            else (True, t\<lparr>windows := (windows t)(key \<mapsto> w\<lparr>w_count := w_count w + 1\<rparr>)\<rparr>))"

section \<open>The token bucket implements its budget\<close>

lemma limiter_okD:
  assumes "limiter_ok t l"
  shows "0 \<le> limit l" "0 < window l" "lastSweep l \<le> t"
    "\<And>key b. buckets l key = Some b \<Longrightarrow> 0 \<le> tokens b \<and> tokens b \<le> limit l \<and> updated b \<le> t"
  using assms by (auto simp: limiter_ok_def)

lemma limiter_ok_New: "0 \<le> n \<Longrightarrow> 0 < win \<Longrightarrow> limiter_ok now (New n win now)"
  by (simp add: limiter_ok_def New_def)

lemma level_New: "level t k (New n win now) = of_int n"
  by (simp add: level_def New_def)

lemma full_after_window:
  assumes "0 \<le> (L::rat)" "0 < W" "0 \<le> x" "of_int W \<le> e"
  shows "L \<le> x + e / of_int W * L"
proof -
  have "(1::rat) \<le> e / of_int W" using assms by simp
  then have "L \<le> e / of_int W * L" using assms(1) mult_right_mono [of 1 "e / of_int W" L] by simp
  with assms(3) show ?thesis by linarith
qed

lemma min_add_min: "0 \<le> (y::rat) \<Longrightarrow> min L (min L x + y) = min L (x + y)"
  by (auto simp: min_def)

lemma level_split:
  assumes "0 < (W::int)"
  shows "x + of_int (c - a) / of_int W * L = (x + of_int (b - a) / of_int W * L) + of_int (c - b) / of_int W * (L::rat)"
  by (simp add: algebra_simps add_divide_distrib diff_divide_distrib)

lemma level_sweep:
  assumes ok: "limiter_ok t l" and "t \<le> now" "now \<le> now'"
  shows "level now' key (sweep now l) = level now' key l"
proof (cases "buckets l key")
  case None
  then show ?thesis by (simp add: level_def sweep_def)
next
  case (Some b)
  note b = limiter_okD [OF ok] limiter_okD(4) [OF ok Some]
  have "limit l \<le> tokens b + of_int (now' - updated b) / of_int (window l) * limit l"
    if "window l \<le> now - updated b"
  proof (rule full_after_window)
    have "window l \<le> now' - updated b" using that assms(3) by linarith
    then show "of_int (window l) \<le> (of_int (now' - updated b) :: rat)"
      by (simp only: of_int_le_iff)
  qed (use b in auto)
  then show ?thesis using Some by (simp add: level_def sweep_def min_def)
qed

lemma sweep_ok:
  assumes "limiter_ok t l" "t \<le> now"
  shows "limiter_ok now (sweep now l)"
  using assms by (fastforce simp: limiter_ok_def sweep_def split: option.splits if_splits)

lemma sweep_same [simp]: "limit (sweep now l) = limit l" "window (sweep now l) = window l"
  by (simp_all add: sweep_def)

lemma level_bounds:
  assumes ok: "limiter_ok t l" and "t \<le> now"
  shows "0 \<le> level now key l" "level now key l \<le> limit l"
proof -
  show "0 \<le> level now key l"
  proof (cases "buckets l key")
    case (Some b)
    note b = limiter_okD [OF ok] limiter_okD(4) [OF ok Some]
    have "0 \<le> (of_int (now - updated b) :: rat)" using b assms(2) by simp
    then have "0 \<le> of_int (now - updated b) / of_int (window l) * limit l"
      using b by simp
    with b(1,5) Some show ?thesis by (simp add: level_def del: times_divide_eq_left of_int_diff)
  qed (use limiter_okD [OF ok] in \<open>simp add: level_def\<close>)
  show "level now key l \<le> limit l"
    by (auto simp: level_def split: option.splits)
qed

lemma refill_tokens:
  assumes ok: "limiter_ok t l" and "t \<le> now"
  shows "tokens (fst (refill now key l)) = level now key l"
proof -
  let ?l = "sweep now l"
  have ok': "limiter_ok now ?l" using assms by (rule sweep_ok)
  have "tokens (fst (refill now key l)) = level now key ?l"
  proof (cases "buckets ?l key")
    case None
    then show ?thesis by (simp add: refill_def level_def Let_def)
  next
    case (Some b)
    note b = limiter_okD [OF ok'] limiter_okD(4) [OF ok' Some]
    consider "updated b < now" | "updated b = now" using b(5) by linarith
    then show ?thesis
    proof cases
      case 1
      then show ?thesis using Some b(2)
        by (simp add: refill_def level_def Let_def min_def not_less)
    next
      case 2
      then show ?thesis using Some b(5) by (simp add: refill_def level_def Let_def)
    qed
  qed
  also have "\<dots> = level now key l" using assms by (rule level_sweep) simp
  finally show ?thesis .
qed

lemma refill_state:
  "snd (refill now key l) = (sweep now l)\<lparr>buckets := (buckets (sweep now l))(key \<mapsto> fst (refill now key l))\<rparr>"
  "updated (fst (refill now key l)) = now"
  by (auto simp: refill_def Let_def split: option.splits)

lemma level_cong:
  "buckets l k = buckets l' k \<Longrightarrow> limit l = limit l' \<Longrightarrow> window l = window l' \<Longrightarrow> level t k l = level t k l'"
  by (simp add: level_def split: option.splits)

lemma level_put_tokens:
  assumes ok: "limiter_ok t l" and "t \<le> now" "now \<le> now'"
  shows "level now' k (put_tokens now key v l) =
    (if k = key then min (limit l) (v + of_int (now' - now) / of_int (window l) * limit l)
     else level now' k l)"
proof -
  have "level now' k (sweep now l) = level now' k l"
    by (rule level_sweep [OF ok]) (use assms in auto)
  moreover have "level now' k (put_tokens now key v l) = level now' k (sweep now l)" if "k \<noteq> key"
    using that by (intro level_cong) (simp_all add: put_tokens_def)
  ultimately show ?thesis by (simp add: put_tokens_def level_def)
qed

lemma put_tokens_ok:
  assumes "limiter_ok t l" "t \<le> now" "0 \<le> v" "v \<le> limit l"
  shows "limiter_ok now (put_tokens now key v l)"
  using sweep_ok [OF assms(1,2)] assms(3,4) by (auto simp: limiter_ok_def put_tokens_def)

lemma put_tokens_same [simp]:
  "limit (put_tokens now key v l) = limit l" "window (put_tokens now key v l) = window l"
  by (simp_all add: put_tokens_def)

text \<open>\<open>Allow\<close> and \<open>Exhausted\<close> in terms of the budget.\<close>

lemma refill_bucket:
  assumes "limiter_ok t l" "t \<le> now"
  shows "fst (refill now key l) = \<lparr>tokens = level now key l, updated = now\<rparr>"
  using refill_tokens [OF assms, of key] refill_state(2) [of now key l]
  by (cases "fst (refill now key l)") simp

lemma Allow_eq:
  assumes "limiter_ok t l" "t \<le> now"
  shows "Allow now key l =
    (let v = level now key l in
     if v < 1 then (\<lparr>Allowed = False, RetryAfter = timeToNextToken l \<lparr>tokens = v, updated = now\<rparr>\<rparr>,
                    put_tokens now key v l)
     else (\<lparr>Allowed = True, RetryAfter = 0\<rparr>, put_tokens now key (v - 1) l))"
  using refill_bucket [OF assms, of key] refill_state(1) [of now key l]
  by (simp add: Allow_def Let_def case_prod_beta timeToNextToken_def put_tokens_def)

lemma Exhausted_eq:
  assumes "limiter_ok t l" "t \<le> now"
  shows "Exhausted now key l =
    (let v = level now key l in
     (if v < 1 then \<lparr>Allowed = False, RetryAfter = timeToNextToken l \<lparr>tokens = v, updated = now\<rparr>\<rparr>
      else \<lparr>Allowed = True, RetryAfter = 0\<rparr>, put_tokens now key v l))"
  using refill_bucket [OF assms, of key] refill_state(1) [of now key l]
  by (simp add: Exhausted_def Let_def case_prod_beta timeToNextToken_def put_tokens_def)

lemma level_later:
  assumes ok: "limiter_ok t l" and "t \<le> now" "now \<le> now'"
  shows "level now' k l = min (limit l) (level now k l + of_int (now' - now) / of_int (window l) * limit l)"
proof -
  note w = limiter_okD [OF ok]
  have pos: "0 \<le> of_int (now' - now) / of_int (window l) * limit l"
    using assms w by simp
  show ?thesis
  proof (cases "buckets l k")
    case None
    with pos show ?thesis by (simp add: level_def)
  next
    case (Some b)
    with pos show ?thesis
      by (simp only: level_def option.case min_add_min
          level_split [OF w(2), where a = "updated b" and b = now and c = now'])
  qed
qed

lemma Allow_ok:
  assumes "limiter_ok t l" "t \<le> now"
  shows "limiter_ok now (snd (Allow now key l))"
  using level_bounds [OF assms, of key] put_tokens_ok [OF assms]
  by (simp add: Allow_eq [OF assms] Let_def)

lemma Exhausted_ok:
  assumes "limiter_ok t l" "t \<le> now"
  shows "limiter_ok now (snd (Exhausted now key l))"
  using level_bounds [OF assms, of key] put_tokens_ok [OF assms]
  by (simp add: Exhausted_eq [OF assms] Let_def)

lemma Reset_ok: "limiter_ok t l \<Longrightarrow> limiter_ok t (Reset key l)"
  by (auto simp: limiter_ok_def Reset_def)

lemma Allow_same [simp]:
  "limit (snd (Allow now key l)) = limit l" "window (snd (Allow now key l)) = window l"
  by (simp_all add: Allow_def case_prod_beta Let_def refill_state(1))

lemma Exhausted_same [simp]:
  "limit (snd (Exhausted now key l)) = limit l" "window (snd (Exhausted now key l)) = window l"
  by (simp_all add: Exhausted_def case_prod_beta Let_def refill_state(1))

section \<open>The limiter as a gate\<close>

lemma fst_limiter_attempt: "fst (limiter_attempt now key l) = Allowed (fst (Allow now key l))"
  and snd_limiter_attempt: "snd (limiter_attempt now key l) = snd (Allow now key l)"
  by (simp_all add: limiter_attempt_def case_prod_beta)

lemma Allowed_iff:
  assumes "limiter_ok t l" "t \<le> now"
  shows "Allowed (fst (Allow now key l)) \<longleftrightarrow> 1 \<le> level now key l"
  by (auto simp: Allow_eq [OF assms] Let_def)

lemma level_Allow:
  assumes ok: "limiter_ok t l" and le: "t \<le> now"
  shows "level now k (snd (Allow now key l)) =
    (if k = key \<and> Allowed (fst (Allow now key l)) then level now k l - 1 else level now k l)"
proof -
  note b = level_bounds [OF assms, of key]
  show ?thesis
    using b level_put_tokens [OF ok le, of now k key]
    by (auto simp: Allow_eq [OF assms] Let_def min_def)
qed

interpretation bucket_gate: credit_gate limiter_attempt level
  "\<lambda>l. limit l / of_int (window l)" limiter_ok
proof unfold_locales
  fix t now :: time and l :: limiter and k :: string
  assume ok: "limiter_ok t l" and le: "t \<le> now"
  show "level now k l \<le> level t k l + of_int (now - t) * (limit l / of_int (window l))"
    using level_later [OF ok order_refl le, of k] by (simp add: min_def)
  show "0 \<le> level now k l" using ok le by (rule level_bounds)
  show "limiter_ok now (snd (limiter_attempt now k l))"
    unfolding snd_limiter_attempt using ok le by (rule Allow_ok)
qed (simp_all add: fst_limiter_attempt snd_limiter_attempt level_Allow)

section \<open>The limiter against the reference\<close>

definition ref_rel :: "time \<Rightarrow> limiter \<Rightarrow> ref_limiter \<Rightarrow> bool" where
  "ref_rel t l r \<longleftrightarrow> limiter_ok t l \<and> ref_limit r = limit l \<and> ref_window r = window l \<and>
     (\<forall>now key. t \<le> now \<longrightarrow> ref_level now key r = level now key l)"

lemma ref_rel_step:
  assumes rel: "ref_rel t l r" and le: "t \<le> now"
  shows "fst (Allow now key l) = fst (ref_Allow now key r) \<and>
    ref_rel now (snd (Allow now key l)) (snd (ref_Allow now key r))"
proof -
  from rel have ok: "limiter_ok t l" and same: "ref_limit r = limit l" "ref_window r = window l"
    and lev: "\<And>now key. t \<le> now \<Longrightarrow> ref_level now key r = level now key l"
    by (auto simp: ref_rel_def)
  have "ref_level now' k (r\<lparr>ref_buckets := (ref_buckets r)(key := \<lparr>tokens = v, updated = now\<rparr>)\<rparr>) =
      level now' k (put_tokens now key v l)" if "now \<le> now'" for now' k v
    using that le lev [of now' k] same level_put_tokens [OF ok le that, of k key v]
    by (simp add: ref_level_def Let_def)
  then have "ref_rel now (snd (Allow now key l)) (snd (ref_Allow now key r))"
    using Allow_ok [OF ok le, of key] same lev [OF le, of key]
    by (simp add: ref_rel_def Allow_eq [OF ok le] ref_Allow_def Let_def)
  moreover have "fst (Allow now key l) = fst (ref_Allow now key r)"
    using same lev [OF le, of key]
    by (simp add: Allow_eq [OF ok le] ref_Allow_def Let_def timeToNextToken_def)
  ultimately show ?thesis by simp
qed

lemma ref_rel_serve:
  assumes "ref_rel t l r" and "in_order t qs"
  shows "fst (serve (\<lambda>(now, key). Allow now key) qs l) = fst (serve (\<lambda>(now, key). ref_Allow now key) qs r)"
  using assms
proof (induction qs arbitrary: t l r)
  case (Cons q qs)
  obtain now key where q: "q = (now, key)" by (cases q)
  from ref_rel_step [OF Cons.prems(1), of now key] Cons.prems(2) q Cons.IH
  show ?case by auto
qed simp

lemma ref_rel_New:
  assumes "0 \<le> n" "0 < win"
  shows "ref_rel now (New n win now) (ref_New n win now)"
proof -
  have "0 \<le> (of_int (t - now) :: rat) / of_int win * of_int n" if "now \<le> t" for t
    using that assms by simp
  then show ?thesis
    using assms
    by (auto simp: ref_rel_def limiter_ok_New level_New ref_level_def ref_New_def Let_def min_def)
      (auto simp: New_def)
qed

section \<open>Waiting as told\<close>

lemma floor_wait:
  fixes v L :: rat
  assumes "0 < L" "0 < W" "v < 1"
  shows "e < \<lfloor>(1 - v) * of_int W / L\<rfloor> \<Longrightarrow> v + of_int e / of_int W * L < 1"
    and "\<lfloor>(1 - v) * of_int W / L\<rfloor> < e \<Longrightarrow> 1 \<le> v + of_int e / of_int W * L"
proof -
  let ?x = "(1 - v) * of_int W / L"
  have x: "(v + of_int e / of_int W * L < 1) = (of_int e < ?x)"
    using assms by (simp add: field_simps)
  show "v + of_int e / of_int W * L < 1" if "e < \<lfloor>?x\<rfloor>"
  proof -
    have "(of_int e :: rat) < of_int \<lfloor>?x\<rfloor>" using that by simp
    also have "\<dots> \<le> ?x" by (rule of_int_floor_le)
    finally show ?thesis using x by simp
  qed
  show "1 \<le> v + of_int e / of_int W * L" if "\<lfloor>?x\<rfloor> < e"
  proof -
    have "?x < of_int e" using that by (simp add: floor_less_iff)
    then show ?thesis using x by simp
  qed
qed

section \<open>The fixed window\<close>

lemma throttle_live_window:
  assumes "0 < t_limit t" "key \<noteq> []" "windows t key = Some w" "now \<le> expiresAt w"
  shows "fst (throttle_Allow now key t) \<longleftrightarrow> w_count w < t_limit t"
    and "windows (snd (throttle_Allow now key t)) key =
      Some (if w_count w < t_limit t then w\<lparr>w_count := w_count w + 1\<rparr> else w)"
  using assms by (auto simp: throttle_Allow_def evictExpired_def Let_def)

lemma throttle_other_key:
  assumes "windows t key = Some w" "now \<le> expiresAt w" "k \<noteq> key"
  shows "windows (snd (throttle_Allow now k t)) key = Some w"
  using assms by (auto simp: throttle_Allow_def evictExpired_def Let_def split: option.splits)

lemma throttle_limit_same [simp]: "t_limit (snd (throttle_Allow now k t)) = t_limit t"
  by (auto simp: throttle_Allow_def evictExpired_def Let_def split: option.splits)

lemma throttle_window_budget:
  assumes "0 < t_limit t" "key \<noteq> []" "windows t key = Some w" "w_count w \<le> t_limit t"
    "in_order t0 qs" "last_time t0 qs \<le> expiresAt w"
  shows "int (admitted qs (fst (serve (\<lambda>(now, k). throttle_Allow now k) qs t)) key)
    \<le> t_limit t - w_count w"
  using assms
proof (induction qs arbitrary: t w t0)
  case (Cons q qs)
  obtain now k where q: "q = (now, k)" by (cases q)
  from Cons.prems q have rest: "in_order now qs" "last_time now qs \<le> expiresAt w" by simp_all
  with last_time_ge [OF rest(1)] have live: "now \<le> expiresAt w" by linarith
  let ?t = "snd (throttle_Allow now k t)"
  show ?case
  proof (cases "k = key")
    case False
    have "windows ?t key = Some w" using Cons.prems(3) live False by (rule throttle_other_key)
    from Cons.IH [OF _ Cons.prems(2) this _ rest] Cons.prems(1,4) False show ?thesis
      by (simp add: q admitted_def)
  next
    case True
    note step = throttle_live_window [OF Cons.prems(1,2,3) live]
    show ?thesis
    proof (cases "w_count w < t_limit t")
      case less: True
      from Cons.IH [OF _ Cons.prems(2), of ?t "w\<lparr>w_count := w_count w + 1\<rparr>" now] step rest less True Cons.prems(1)
      show ?thesis by (simp add: q admitted_def)
    next
      case False
      from Cons.IH [OF _ Cons.prems(2), of ?t w now] step rest False True Cons.prems(1,4)
      show ?thesis by (simp add: q admitted_def)
    qed
  qed
qed (simp add: admitted_def)

section \<open>Properties\<close>

text \<open>C31: However requests for a key are spread over time and interleaved with other keys, a
  limiter of \<open>n\<close> per window lets through at most \<open>n\<close> plus what the elapsed time refilled.\<close>
theorem limiter_budget:
  assumes "0 \<le> n" and "0 < win" and "in_order now qs"
  shows "of_nat (admitted qs (fst (serve (\<lambda>(t, k). limiter_attempt t k) qs (New n win now))) key)
    \<le> (of_int n :: rat) + of_int (last_time now qs - now) * (of_int n / of_int win)"
  using bucket_gate.admitted_le [OF limiter_ok_New [OF assms(1,2)] assms(3), of key]
  unfolding level_New by (simp add: New_def)

theorem limiter_budget_witness:
  "in_order 0 [(0, ''a''), (0, ''a''), (0, ''a''), (60, ''a'')] \<and>
   (of_nat (admitted [(0, ''a''), (0, ''a''), (0, ''a''), (60, ''a'')]
     (fst (serve (\<lambda>(t, k). limiter_attempt t k) [(0, ''a''), (0, ''a''), (0, ''a''), (60, ''a'')]
       (New 2 60 0))) ''a'') :: rat) \<le> 4"
  using limiter_budget [of 2 60 0 "[(0, ''a''), (0, ''a''), (0, ''a''), (60, ''a'')]" "''a''"]
  by simp

text \<open>C39: Creating buckets on first sight and evicting idle ones is invisible: on every sequence
  of requests the limiter answers, decision and retry time alike, as the reference limiter that
  keeps a bucket for every key for ever.\<close>
theorem limiter_eviction_invisible:
  assumes "0 \<le> n" and "0 < win" and "in_order now qs"
  shows "fst (serve (\<lambda>(t, k). Allow t k) qs (New n win now)) =
    fst (serve (\<lambda>(t, k). ref_Allow t k) qs (ref_New n win now))"
  using ref_rel_serve [OF ref_rel_New [OF assms(1,2)] assms(3)] .

theorem limiter_eviction_invisible_witness:
  "fst (serve (\<lambda>(t, k). Allow t k) [(0, ''a''), (1, ''b''), (90, ''a'')] (New 1 60 0)) =
   fst (serve (\<lambda>(t, k). ref_Allow t k) [(0, ''a''), (1, ''b''), (90, ''a'')] (ref_New 1 60 0))"
  using limiter_eviction_invisible [of 1 60 0 "[(0, ''a''), (1, ''b''), (90, ''a'')]"] by simp



text \<open>Once a request opens a window for a key, at most the limit's number of requests for the
  key, that one included, are let through until the window expires.\<close>
theorem throttle_budget:
  assumes "0 < t_limit t" and "key \<noteq> []"
    and "windows (evictExpired now t) key = None"
    and "in_order now qs" and "last_time now qs \<le> now + t_duration t"
  shows "int (admitted ((now, key) # qs)
      (fst (serve (\<lambda>(t', k). throttle_Allow t' k) ((now, key) # qs) t)) key) \<le> t_limit t"
proof -
  let ?w = "\<lparr>w_count = 1, expiresAt = now + t_duration t\<rparr>" and ?t = "snd (throttle_Allow now key t)"
  have open_w: "fst (throttle_Allow now key t)" "windows ?t key = Some ?w"
    using assms(1-3) by (auto simp: throttle_Allow_def Let_def evictExpired_def)
  have "int (admitted qs (fst (serve (\<lambda>(t', k). throttle_Allow t' k) qs ?t)) key) \<le> t_limit t - 1"
    using throttle_window_budget [OF _ assms(2) open_w(2) _ assms(4)] assms(1,5) by simp
  then show ?thesis using open_w(1) by (simp add: admitted_def)
qed

theorem throttle_budget_witness:
  "int (admitted [(0, ''a''), (1, ''a''), (2, ''a'')]
     (fst (serve (\<lambda>(t', k). throttle_Allow t' k) [(0, ''a''), (1, ''a''), (2, ''a'')]
       (throttle_New 2 10))) ''a'') \<le> 2"
  using throttle_budget [of "throttle_New 2 10" "''a''" 0 "[(1, ''a''), (2, ''a'')]"]
  by (simp add: throttle_New_def evictExpired_def)



end
