(* ===== verification/Store.thy ===== *)
theory Store
  imports Prelude
begin

text \<open>
  The per-project end-user database of \<open>internal/store\<close>: the types of \<open>store.go\<close>,
  \<open>account.go\<close> and \<open>mfa.go\<close>, the tables of the Postgres migrations as lists of rows, and the
  integrity the schema declares (primary keys, unique columns, foreign keys with their cascades).

  A statement sees the instant \<open>NOW()\<close> of its transaction, the database's \<open>lower\<close> function
  and, when it deletes accounts, the foreign keys app tables hold on \<open>auth.users\<close>; these come
  from outside the repository and are the fields of an environment record. Every transaction is
  one step: it commits as a whole or leaves the database as it was. Failures of the connection
  and column widths are not modelled, and neither are columns no statement reads
  (\<open>users.updated_at\<close>, the serial ids of log tables, the creation times of links) and the gaps
  a rolled-back transaction leaves in a sequence.
\<close>

section \<open>Errors and environment\<close>

datatype store_error =
    ErrNotFound | ErrNoRows | ErrUnavailable | ErrNoAccount | ErrSignupsDisabled | ErrAmbiguousEmail
  | ErrAccountDisabled | ErrRateLimited | ErrIdentityExists | ErrAddressUnproven
  | ErrLastSignInMethod | ErrUserReferenced | ErrTooManyFactors | ErrFactorNameTaken
  | ErrInvalidChallenge | ErrInvalidCode | ErrTooManyAttempts | ErrInsufficientAAL
  | ErrInvalidMetadata | ErrMetadataTooLarge | ErrJSON | ErrUnknownTokenKind
  | ErrConstraint | ErrMissingLock | ErrRefused nat string

record sql_env =
  sql_now :: time
  sql_lower :: "string \<Rightarrow> string"
  app_referenced :: "int \<Rightarrow> bool"

datatype TokenKind = EmailVerification | PasswordReset

section \<open>Rows\<close>

record user_row =
  u_id :: int
  u_email :: "string option"
  u_password :: "string option"
  u_full_name :: string
  u_role :: string
  u_allowed_roles :: "string list option"
  u_enabled :: bool
  u_email_verified :: bool
  u_email_verified_at :: "time option"
  u_is_guest :: bool
  u_user_metadata :: "string option"
  u_app_metadata :: "string option"
  u_created_at :: time
  u_last_login_at :: "time option"

record refresh_row =
  r_token_hash :: string
  r_family_id :: string
  r_user_id :: int
  r_expiry_date :: time
  r_last_auth_at :: "time option"
  r_aal :: int
  r_amr :: string
  r_created_at :: time
  r_revoked :: bool

record token_row =
  t_id :: int
  t_token_hash :: string
  t_user_id :: int
  t_expires_at :: time
  t_consumed_at :: "time option"
  t_confirms_password :: bool

record identity_row =
  i_id :: int
  i_user_id :: int
  i_provider :: string
  i_subject :: string
  i_email :: "string option"
  i_email_verified :: bool
  i_created_at :: time
  i_last_sign_in_at :: "time option"

record flow_row =
  f_state_hash :: string
  f_provider :: string
  f_idp_code_verifier :: string
  f_nonce :: string
  f_client_code_challenge :: string
  f_redirect_to :: string
  f_link_user_id :: "int option"
  f_expires_at :: time

record code_row =
  c_code_hash :: string
  c_user_id :: int
  c_code_challenge :: string
  c_link_provider :: "string option"
  c_link_subject :: "string option"
  c_link_email :: "string option"
  c_expires_at :: time
  c_consumed_at :: "time option"

record otp_row =
  o_id :: int
  o_email :: string
  o_kind :: string
  o_link_hash :: "string option"
  o_code_hmac :: "string option"
  o_code_challenge :: string
  o_create_user :: bool
  o_mailed :: bool
  o_ip :: "string option"
  o_attempts :: int
  o_expires_at :: time
  o_consumed_at :: "time option"
  o_created_at :: time
  o_link_user_id :: "int option"

record change_row =
  g_user_id :: int
  g_new_email :: string
  g_token_hash :: string
  g_mailed :: bool
  g_expires_at :: time
  g_consumed_at :: "time option"
  g_created_at :: time
  g_guest_client :: "string option"

record factor_row =
  m_id :: string
  m_user_id :: int
  m_friendly_name :: string
  m_secret_enc :: string
  m_status :: string
  m_last_used_step :: "int option"
  m_created_at :: time
  m_updated_at :: time

record challenge_row =
  h_id :: string
  h_factor_id :: string
  h_ip :: string
  h_expires_at :: time

record recovery_row =
  v_user_id :: int
  v_code_hash :: string
  v_used_at :: "time option"

record failure_row =
  x_user_id :: int
  x_factor_id :: "string option"
  x_family_id :: "string option"
  x_failed_at :: time

record key_row =
  k_id :: int
  k_key_hash :: string
  k_key_prefix :: string
  k_key_type :: string
  k_name :: string
  k_created_by :: "int option"
  k_created_at :: time
  k_last_used_at :: "time option"
  k_revoked_at :: "time option"

record role_change_row =
  e_user_id :: int
  e_old_role :: string
  e_new_role :: string
  e_old_allowed_roles :: "string list"
  e_new_allowed_roles :: "string list"
  e_actor :: string
  e_changed_at :: time

record audit_row =
  l_user_id :: "int option"
  l_event :: string
  l_method :: "string option"
  l_ip :: "string option"
  l_created_at :: time

record sign_up_row =
  s_ip :: string
  s_created_at :: time

section \<open>The database\<close>

record db =
  users :: "user_row list"
  refresh_tokens :: "refresh_row list"
  email_verification_tokens :: "token_row list"
  password_reset_tokens :: "token_row list"
  identities :: "identity_row list"
  flow_states :: "flow_row list"
  auth_codes :: "code_row list"
  email_otps :: "otp_row list"
  email_change_tokens :: "change_row list"
  mfa_factors :: "factor_row list"
  mfa_challenges :: "challenge_row list"
  mfa_recovery_codes :: "recovery_row list"
  mfa_failures :: "failure_row list"
  api_keys :: "key_row list"
  role_changes :: "role_change_row list"
  audit_log :: "audit_row list"
  guest_sign_ups :: "sign_up_row list"
  guest_lock :: "time option option"
  next_user :: int
  next_verification :: int
  next_reset :: int
  next_identity :: int
  next_otp :: int
  next_key :: int

type_synonym 'a outcome = "(store_error + 'a) \<times> db"

text \<open>An outcome as the single-use contract reads it: what was handed over, if anything.\<close>

definition handed :: "'a outcome \<Rightarrow> 'a option \<times> db" where
  "handed x = (case fst x of Inl _ \<Rightarrow> None | Inr a \<Rightarrow> Some a, snd x)"

text \<open>The database the migrations leave behind: empty tables and the guest lock row.\<close>

definition empty_db :: db where
  "empty_db = \<lparr>users = [], refresh_tokens = [], email_verification_tokens = [],
     password_reset_tokens = [], identities = [], flow_states = [], auth_codes = [],
     email_otps = [], email_change_tokens = [], mfa_factors = [], mfa_challenges = [],
     mfa_recovery_codes = [], mfa_failures = [], api_keys = [], role_changes = [],
     audit_log = [], guest_sign_ups = [], guest_lock = Some None, next_user = 1,
     next_verification = 1, next_reset = 1, next_identity = 1, next_otp = 1, next_key = 1\<rparr>"

section \<open>The store's own types and helpers\<close>

record account =
  a_ID :: int
  a_Email :: string
  a_PasswordHash :: string
  a_FullName :: string
  a_Role :: string
  a_AllowedRoles :: "string list option"
  a_Enabled :: bool
  a_EmailVerified :: bool
  a_IsGuest :: bool

record RefreshSession =
  FamilyID :: string
  Expiry :: time
  AuthTime :: "time option"
  AAL :: int
  AMR :: "string list"

record RefreshState =
  st_Revoked :: bool
  st_FamilyID :: string
  st_UserID :: int

record IdentityClaim =
  Provider :: string
  Subject :: string
  ClaimEmail :: string
  ClaimFullName :: string

record AddressMatch =
  am_ID :: int
  am_Exact :: bool
  am_Verified :: bool
  am_Enabled :: bool

datatype IdentityOutcome = IdentityKnown | IdentityLinked | IdentityTookOver | IdentityCreated

definition coalesce :: "'a option \<Rightarrow> 'a \<Rightarrow> 'a" where
  "coalesce x d = (case x of None \<Rightarrow> d | Some v \<Rightarrow> v)"

definition nullif :: "'a \<Rightarrow> 'a \<Rightarrow> 'a option" where
  "nullif x z = (if x = z then None else Some x)"

definition EmailProvider :: string where "EmailProvider = ''email''"
definition GuestRole :: string where "GuestRole = ''guest''"
definition OTPMagicLink :: string where "OTPMagicLink = ''magiclink''"
definition OTPEmailCode :: string where "OTPEmailCode = ''email''"
definition FactorUnverified :: string where "FactorUnverified = ''unverified''"
definition FactorVerified :: string where "FactorVerified = ''verified''"

abbreviation (input) AAL1 :: int where "AAL1 \<equiv> 1"
abbreviation (input) AAL2 :: int where "AAL2 \<equiv> 2"

definition HasUsablePassword :: "string \<Rightarrow> bool" where
  "HasUsablePassword hash = (hash \<noteq> [] \<and> \<not> HasPrefix hash ''!'')"

definition AddressKey :: "string \<Rightarrow> string" where
  "AddressKey address = map (\<lambda>r. if is_upper r then char_of ((of_char r :: nat) + 32) else r) address"

definition PickAddressMatch :: "AddressMatch list \<Rightarrow> store_error \<Rightarrow> store_error + AddressMatch" where
  "PickAddressMatch matches none =
     (case matches of
        [] \<Rightarrow> Inl none
      | m # rest \<Rightarrow> if am_Exact m \<or> rest = [] then Inr m else Inl ErrAmbiguousEmail)"

definition JoinAMR :: "string list \<Rightarrow> string" where
  "JoinAMR methods = join_with (CHR '','') methods"

definition SplitAMR :: "string \<Rightarrow> string list" where
  "SplitAMR column = (if column = [] then [] else split_on (CHR '','') column)"

definition LevelOf :: "int \<Rightarrow> int" where
  "LevelOf aal = (if aal = AAL2 then AAL2 else AAL1)"

definition WithMethod :: "string list \<Rightarrow> string \<Rightarrow> string list" where
  "WithMethod methods m = (if m \<in> set methods then methods else methods @ [m])"

text \<open>\<open>email_verified AND email_verified_at IS NOT NULL\<close>: the address was proven.\<close>

definition proven :: "user_row \<Rightarrow> bool" where
  "proven u = (u_email_verified u \<and> u_email_verified_at u \<noteq> None)"

text \<open>\<open>lower(email) = lower($1)\<close>; \<open>NULL\<close> equals nothing.\<close>

definition answers_to :: "sql_env \<Rightarrow> user_row \<Rightarrow> string \<Rightarrow> bool" where
  "answers_to env u address =
     (case u_email u of None \<Rightarrow> False | Some e \<Rightarrow> sql_lower env e = sql_lower env address)"

definition account_of :: "user_row \<Rightarrow> account" where
  "account_of u = \<lparr>a_ID = u_id u, a_Email = coalesce (u_email u) [],
     a_PasswordHash = coalesce (u_password u) [], a_FullName = u_full_name u, a_Role = u_role u,
     a_AllowedRoles = u_allowed_roles u, a_Enabled = u_enabled u,
     a_EmailVerified = u_email_verified u, a_IsGuest = u_is_guest u\<rparr>"

definition user_by_id :: "db \<Rightarrow> int \<Rightarrow> user_row option" where
  "user_by_id d i = List.find (\<lambda>u. u_id u = i) (users d)"

definition user_ids :: "db \<Rightarrow> int list" where
  "user_ids d = map u_id (users d)"

definition update_user :: "int \<Rightarrow> (user_row \<Rightarrow> user_row) \<Rightarrow> db \<Rightarrow> db" where
  "update_user i f d = d\<lparr>users := update_where (\<lambda>u. u_id u = i) f (users d)\<rparr>"

section \<open>Deleting rows other tables refer to\<close>

text \<open>\<open>DELETE FROM auth.mfa_factors\<close> takes the factor's challenges and failures with it.\<close>

definition delete_factors :: "(factor_row \<Rightarrow> bool) \<Rightarrow> db \<Rightarrow> db" where
  "delete_factors P d =
     (let gone = map m_id (filter P (mfa_factors d)) in
      d\<lparr>mfa_factors := delete_where P (mfa_factors d),
        mfa_challenges := delete_where (\<lambda>c. h_factor_id c \<in> set gone) (mfa_challenges d),
        mfa_failures := delete_where (\<lambda>x. \<exists>i \<in> set gone. x_factor_id x = Some i) (mfa_failures d)\<rparr>)"

text \<open>\<open>DELETE FROM auth.users\<close>: every foreign key on \<open>users.id\<close> is declared
  \<open>ON DELETE CASCADE\<close>, but for \<open>api_keys.revoked_by\<close>, a column nothing writes.\<close>

definition cascade_users :: "(int \<Rightarrow> bool) \<Rightarrow> db \<Rightarrow> db" where
  "cascade_users P d0 =
     (let d = delete_factors (\<lambda>f. P (m_user_id f)) d0;
          linked = (\<lambda>i. case i of None \<Rightarrow> False | Some j \<Rightarrow> P j) in
      d\<lparr>users := delete_where (\<lambda>u. P (u_id u)) (users d),
        refresh_tokens := delete_where (\<lambda>r. P (r_user_id r)) (refresh_tokens d),
        email_verification_tokens := delete_where (\<lambda>t. P (t_user_id t)) (email_verification_tokens d),
        password_reset_tokens := delete_where (\<lambda>t. P (t_user_id t)) (password_reset_tokens d),
        identities := delete_where (\<lambda>i. P (i_user_id i)) (identities d),
        flow_states := delete_where (\<lambda>f. linked (f_link_user_id f)) (flow_states d),
        auth_codes := delete_where (\<lambda>c. P (c_user_id c)) (auth_codes d),
        email_otps := delete_where (\<lambda>e. linked (o_link_user_id e)) (email_otps d),
        email_change_tokens := delete_where (\<lambda>g. P (g_user_id g)) (email_change_tokens d),
        mfa_recovery_codes := delete_where (\<lambda>v. P (v_user_id v)) (mfa_recovery_codes d),
        mfa_failures := delete_where (\<lambda>x. P (x_user_id x)) (mfa_failures d),
        api_keys := delete_where (\<lambda>k. linked (k_created_by k)) (api_keys d),
        role_changes := delete_where (\<lambda>e. P (e_user_id e)) (role_changes d)\<rparr>)"

text \<open>The statement itself: refused as a whole when an app table references an account it names.\<close>

definition delete_users :: "sql_env \<Rightarrow> int list \<Rightarrow> db \<Rightarrow> (store_error + nat) \<times> db" where
  "delete_users env ids d =
     (let hit = filter (\<lambda>u. u_id u \<in> set ids) (users d) in
      if list_ex (\<lambda>u. app_referenced env (u_id u)) hit then (Inl ErrUserReferenced, d)
      else (Inr (length hit), cascade_users (\<lambda>i. i \<in> set ids) d))"

section \<open>Integrity\<close>

definition wf_users :: "db \<Rightarrow> bool" where
  "wf_users d \<longleftrightarrow> 0 < next_user d \<and> unique_on u_id (users d) \<and> unique_some u_email (users d) \<and>
     (\<forall>u \<in> set (users d). 0 < u_id u \<and> u_id u < next_user d)"

definition wf_sessions :: "db \<Rightarrow> bool" where
  "wf_sessions d \<longleftrightarrow> unique_on r_token_hash (refresh_tokens d) \<and>
     refers (\<lambda>r. Some (r_user_id r)) (user_ids d) (refresh_tokens d)"

definition wf_links :: "db \<Rightarrow> bool" where
  "wf_links d \<longleftrightarrow>
     unique_on t_id (email_verification_tokens d) \<and> unique_on t_token_hash (email_verification_tokens d) \<and>
     (\<forall>t \<in> set (email_verification_tokens d). t_id t < next_verification d) \<and>
     refers (\<lambda>t. Some (t_user_id t)) (user_ids d) (email_verification_tokens d) \<and>
     unique_on t_id (password_reset_tokens d) \<and> unique_on t_token_hash (password_reset_tokens d) \<and>
     (\<forall>t \<in> set (password_reset_tokens d). t_id t < next_reset d) \<and>
     refers (\<lambda>t. Some (t_user_id t)) (user_ids d) (password_reset_tokens d)"

definition wf_identities :: "db \<Rightarrow> bool" where
  "wf_identities d \<longleftrightarrow> unique_on i_id (identities d) \<and>
     unique_on (\<lambda>i. (i_provider i, i_subject i)) (identities d) \<and>
     (\<forall>i \<in> set (identities d). i_id i < next_identity d) \<and>
     refers (\<lambda>i. Some (i_user_id i)) (user_ids d) (identities d)"

definition wf_flows :: "db \<Rightarrow> bool" where
  "wf_flows d \<longleftrightarrow> unique_on f_state_hash (flow_states d) \<and>
     refers f_link_user_id (user_ids d) (flow_states d) \<and>
     unique_on c_code_hash (auth_codes d) \<and>
     refers (\<lambda>c. Some (c_user_id c)) (user_ids d) (auth_codes d)"

definition wf_otps :: "db \<Rightarrow> bool" where
  "wf_otps d \<longleftrightarrow> unique_on o_id (email_otps d) \<and> unique_some o_link_hash (email_otps d) \<and>
     (\<forall>e \<in> set (email_otps d). o_id e < next_otp d) \<and>
     refers o_link_user_id (user_ids d) (email_otps d) \<and>
     unique_on g_token_hash (email_change_tokens d) \<and>
     refers (\<lambda>g. Some (g_user_id g)) (user_ids d) (email_change_tokens d)"

definition wf_mfa :: "db \<Rightarrow> bool" where
  "wf_mfa d \<longleftrightarrow> unique_on m_id (mfa_factors d) \<and>
     unique_on (\<lambda>f. (m_user_id f, m_friendly_name f)) (mfa_factors d) \<and>
     refers (\<lambda>f. Some (m_user_id f)) (user_ids d) (mfa_factors d) \<and>
     (\<forall>f \<in> set (mfa_factors d). m_status f \<in> {FactorUnverified, FactorVerified}) \<and>
     unique_on h_id (mfa_challenges d) \<and>
     refers (\<lambda>c. Some (h_factor_id c)) (map m_id (mfa_factors d)) (mfa_challenges d) \<and>
     unique_on (\<lambda>v. (v_user_id v, v_code_hash v)) (mfa_recovery_codes d) \<and>
     refers (\<lambda>v. Some (v_user_id v)) (user_ids d) (mfa_recovery_codes d) \<and>
     refers (\<lambda>x. Some (x_user_id x)) (user_ids d) (mfa_failures d) \<and>
     refers x_factor_id (map m_id (mfa_factors d)) (mfa_failures d)"

definition wf_keys :: "db \<Rightarrow> bool" where
  "wf_keys d \<longleftrightarrow> unique_on k_id (api_keys d) \<and> unique_on k_key_hash (api_keys d) \<and>
     (\<forall>k \<in> set (api_keys d). k_id k < next_key d) \<and>
     refers k_created_by (user_ids d) (api_keys d) \<and>
     refers (\<lambda>e. Some (e_user_id e)) (user_ids d) (role_changes d)"

definition wf_db :: "db \<Rightarrow> bool" where
  "wf_db d \<longleftrightarrow> wf_users d \<and> wf_sessions d \<and> wf_links d \<and> wf_identities d \<and> wf_flows d \<and>
     wf_otps d \<and> wf_mfa d \<and> wf_keys d"

lemmas wf_defs = wf_users_def wf_sessions_def wf_links_def wf_identities_def wf_flows_def
  wf_otps_def wf_mfa_def wf_keys_def user_ids_def

lemma wf_empty_db: "wf_db empty_db"
  by (simp add: wf_db_def wf_defs empty_db_def unique_on_def unique_some_def refers_def
      List.map_filter_def)

lemma handed_simps [simp]:
  "snd (handed x) = snd x" "fst (handed x) = None \<longleftrightarrow> (\<exists>e. fst x = Inl e)"
  "fst (handed x) = Some a \<longleftrightarrow> fst x = Inr a"
  by (auto simp: handed_def split: sum.splits)

section \<open>Accounts\<close>

lemma user_by_id_Some:
  "user_by_id d i = Some u \<Longrightarrow> u \<in> set (users d) \<and> u_id u = i"
  by (auto simp: user_by_id_def dest: find_Some_mem)

lemma user_by_id_None: "user_by_id d i = None \<longleftrightarrow> i \<notin> set (user_ids d)"
  by (auto simp: user_by_id_def user_ids_def find_None_iff)

lemma user_by_id_eq:
  "wf_users d \<Longrightarrow> u \<in> set (users d) \<Longrightarrow> user_by_id d (u_id u) = Some u"
  by (auto simp: user_by_id_def wf_users_def dest: find_Some_unique)

lemma update_user_simps [simp]:
  "refresh_tokens (update_user i f d) = refresh_tokens d"
  "email_verification_tokens (update_user i f d) = email_verification_tokens d"
  "password_reset_tokens (update_user i f d) = password_reset_tokens d"
  "identities (update_user i f d) = identities d"
  "flow_states (update_user i f d) = flow_states d"
  "auth_codes (update_user i f d) = auth_codes d"
  "email_otps (update_user i f d) = email_otps d"
  "email_change_tokens (update_user i f d) = email_change_tokens d"
  "mfa_factors (update_user i f d) = mfa_factors d"
  "mfa_challenges (update_user i f d) = mfa_challenges d"
  "mfa_recovery_codes (update_user i f d) = mfa_recovery_codes d"
  "mfa_failures (update_user i f d) = mfa_failures d"
  "api_keys (update_user i f d) = api_keys d"
  "role_changes (update_user i f d) = role_changes d"
  "audit_log (update_user i f d) = audit_log d"
  "guest_sign_ups (update_user i f d) = guest_sign_ups d"
  "guest_lock (update_user i f d) = guest_lock d"
  "next_user (update_user i f d) = next_user d"
  "next_verification (update_user i f d) = next_verification d"
  "next_reset (update_user i f d) = next_reset d"
  "next_identity (update_user i f d) = next_identity d"
  "next_otp (update_user i f d) = next_otp d"
  "next_key (update_user i f d) = next_key d"
  by (simp_all add: update_user_def)

lemma user_ids_update:
  "(\<And>u. u_id (f u) = u_id u) \<Longrightarrow> user_ids (update_user i f d) = user_ids d"
  by (simp add: user_ids_def update_user_def map_update_where)

lemma user_by_id_update:
  assumes "\<And>u. u_id (f u) = u_id u"
  shows "user_by_id (update_user i f d) j =
    (if j = i then map_option f (user_by_id d j) else user_by_id d j)"
proof -
  have "List.find (\<lambda>u. u_id u = j) (update_where (\<lambda>u. u_id u = i) f us) =
      (if j = i then map_option f (List.find (\<lambda>u. u_id u = j) us) else List.find (\<lambda>u. u_id u = j) us)"
    for us using assms by (induction us) (auto simp: update_where_def)
  then show ?thesis by (simp add: user_by_id_def update_user_def)
qed

text \<open>An update that leaves ids and addresses alone keeps the integrity of every table.\<close>

lemma wf_user_ids_cong:
  assumes "user_ids d' = user_ids d"
    and "refresh_tokens d' = refresh_tokens d" "email_verification_tokens d' = email_verification_tokens d"
    "password_reset_tokens d' = password_reset_tokens d" "identities d' = identities d"
    "flow_states d' = flow_states d" "auth_codes d' = auth_codes d" "email_otps d' = email_otps d"
    "email_change_tokens d' = email_change_tokens d" "mfa_factors d' = mfa_factors d"
    "mfa_challenges d' = mfa_challenges d" "mfa_recovery_codes d' = mfa_recovery_codes d"
    "mfa_failures d' = mfa_failures d" "api_keys d' = api_keys d" "role_changes d' = role_changes d"
    "next_verification d' = next_verification d" "next_reset d' = next_reset d"
    "next_identity d' = next_identity d" "next_otp d' = next_otp d" "next_key d' = next_key d"
    and "wf_users d' = wf_users d"
  shows "wf_db d' = wf_db d"
  using assms
  by (simp add: wf_db_def wf_sessions_def wf_links_def wf_identities_def wf_flows_def wf_otps_def
      wf_mfa_def wf_keys_def)

lemma wf_users_update:
  assumes "\<And>u. u_id (f u) = u_id u" "\<And>u. u_email (f u) = u_email u"
  shows "wf_users (update_user i f d) = wf_users d"
  using assms
  by (auto simp: wf_users_def update_user_def unique_on_update unique_some_update ball_update_where)

lemma wf_update_user [simp]:
  assumes "\<And>u. u_id (f u) = u_id u" "\<And>u. u_email (f u) = u_email u"
  shows "wf_db (update_user i f d) = wf_db d"
  by (rule wf_user_ids_cong) (simp_all add: assms user_ids_update wf_users_update)

text \<open>Giving one account an address no account holds keeps the integrity as well.\<close>

lemma unique_some_readdress:
  assumes "unique_on u_id us" "unique_some u_email us"
    and "\<And>u. u_id (f u) = u_id u" "\<And>u. u_email (f u) = Some address"
    and "\<And>u. u \<in> set us \<Longrightarrow> u_id u \<noteq> i \<Longrightarrow> u_email u \<noteq> Some address"
  shows "unique_some u_email (update_where (\<lambda>u. u_id u = i) f us)"
  using assms(1,2,5)
proof (induction us)
  case (Cons u us)
  have IH: "unique_some u_email (update_where (\<lambda>u. u_id u = i) f us)"
    using Cons by (auto simp: unique_on_def unique_some_def split: option.splits)
  show ?case
  proof (cases "u_id u = i")
    case True
    then have "\<forall>r \<in> set us. u_id r \<noteq> i" using Cons.prems(1) by (auto simp: unique_on_def image_iff)
    then have "update_where (\<lambda>u. u_id u = i) f us = us"
      by (induction us) (auto simp: update_where_def)
    moreover have "\<forall>r \<in> set us. u_email r \<noteq> Some address"
      using Cons.prems(1,3) True by (auto simp: unique_on_def image_iff)
    ultimately show ?thesis using IH True assms(4)
      by (auto simp: unique_some_def update_where_def set_map_filter)
  next
    case False
    then have "u_email u \<noteq> Some address" using Cons.prems(3) by simp
    then show ?thesis using IH False Cons.prems(2) assms(4)
      by (auto simp: unique_some_def update_where_def set_map_filter split: option.splits if_splits)
  qed
qed simp

lemma wf_readdress_user:
  assumes "wf_db d"
    and "\<And>u. u_id (f u) = u_id u" "\<And>u. u_email (f u) = Some address"
    and "\<And>u. u \<in> set (users d) \<Longrightarrow> u_id u \<noteq> i \<Longrightarrow> u_email u \<noteq> Some address"
  shows "wf_db (update_user i f d)"
proof -
  have "wf_users (update_user i f d)"
    using assms unique_some_readdress [of "users d" f address i]
    by (auto simp: wf_db_def wf_users_def update_user_def unique_on_update ball_update_where)
  moreover have "wf_users d" using assms(1) by (simp add: wf_db_def)
  ultimately have "wf_db (update_user i f d) = wf_db d"
    by (intro wf_user_ids_cong) (simp_all add: user_ids_update assms(2))
  then show ?thesis using assms(1) by simp
qed

section \<open>New accounts\<close>

definition insert_user :: "user_row \<Rightarrow> db \<Rightarrow> db" where
  "insert_user u d = d\<lparr>users := users d @ [u], next_user := next_user d + 1\<rparr>"

lemma refers_more: "refers k ps t \<Longrightarrow> set ps \<subseteq> set qs \<Longrightarrow> refers k qs t"
  by (fastforce simp: refers_iff)

lemma wf_insert_user:
  assumes "wf_db d" "u_id u = next_user d"
    and "\<And>r e. r \<in> set (users d) \<Longrightarrow> u_email u = Some e \<Longrightarrow> u_email r \<noteq> Some e"
  shows "wf_db (insert_user u d)"
proof -
  have ids: "set (user_ids d) \<subseteq> set (user_ids (insert_user u d))"
    by (auto simp: user_ids_def insert_user_def)
  have "wf_users (insert_user u d)"
    using assms
    by (auto simp: wf_db_def wf_users_def insert_user_def unique_on_append unique_some_append)
  moreover have "wf_sessions (insert_user u d)" "wf_links (insert_user u d)"
    "wf_identities (insert_user u d)" "wf_flows (insert_user u d)" "wf_otps (insert_user u d)"
    "wf_mfa (insert_user u d)" "wf_keys (insert_user u d)"
    using assms(1) ids
    by (auto simp: wf_db_def wf_sessions_def wf_links_def wf_identities_def wf_flows_def
        wf_otps_def wf_mfa_def wf_keys_def insert_user_def user_ids_def elim: refers_more)
  ultimately show ?thesis by (simp add: wf_db_def)
qed

section \<open>Cascades\<close>

lemma refers_cascade:
  assumes "refers k (map key parents) t"
    and "\<And>r i. r \<in> set t \<Longrightarrow> \<not> Q r \<Longrightarrow> k r = Some i \<Longrightarrow> \<not> P i"
  shows "refers k (map key (delete_where (\<lambda>p. P (key p)) parents)) (delete_where Q t)"
  using assms by (fastforce simp: refers_iff)

lemma refers_gone:
  assumes "refers k (map key parents) t"
    and "\<And>r i. r \<in> set t \<Longrightarrow> \<not> Q r \<Longrightarrow> k r = Some i \<Longrightarrow> i \<notin> key ` {p \<in> set parents. P p}"
  shows "refers k (map key (delete_where P parents)) (delete_where Q t)"
  using assms by (fastforce simp: refers_iff)

lemma delete_factors_fields [simp]:
  "mfa_factors (delete_factors P d) = delete_where P (mfa_factors d)"
  "users (delete_factors P d) = users d" "refresh_tokens (delete_factors P d) = refresh_tokens d"
  "mfa_recovery_codes (delete_factors P d) = mfa_recovery_codes d"
  by (simp_all add: delete_factors_def Let_def)

lemma wf_delete_factors: "wf_db d \<Longrightarrow> wf_db (delete_factors P d)"
proof -
  assume wf: "wf_db d"
  then have "wf_mfa (delete_factors P d)"
    by (auto simp: wf_db_def wf_mfa_def user_ids_def delete_factors_def Let_def intro!: refers_gone)
  with wf show ?thesis
    by (auto simp: wf_db_def wf_defs delete_factors_def Let_def)
qed

lemma cascade_users_fields:
  "users (cascade_users P d) = delete_where (\<lambda>u. P (u_id u)) (users d)"
  "refresh_tokens (cascade_users P d) = delete_where (\<lambda>r. P (r_user_id r)) (refresh_tokens d)"
  "identities (cascade_users P d) = delete_where (\<lambda>i. P (i_user_id i)) (identities d)"
  "auth_codes (cascade_users P d) = delete_where (\<lambda>c. P (c_user_id c)) (auth_codes d)"
  "next_user (cascade_users P d) = next_user d" "next_identity (cascade_users P d) = next_identity d"
  "audit_log (cascade_users P d) = audit_log d"
  by (simp_all add: cascade_users_def delete_factors_def Let_def)

lemma user_ids_cascade:
  "user_ids (cascade_users P d) = map u_id (delete_where (\<lambda>u. P (u_id u)) (users d))"
  by (simp add: user_ids_def cascade_users_fields)

lemma wf_cascade_users:
  assumes "wf_db d"
  shows "wf_db (cascade_users P d)"
proof -
  let ?d = "delete_factors (\<lambda>f. P (m_user_id f)) d" and ?c = "cascade_users P d"
  have wf: "wf_db ?d" using assms by (rule wf_delete_factors)
  have "wf_users ?c" "wf_sessions ?c" "wf_links ?c" "wf_identities ?c"
    using assms
    by (auto simp: wf_db_def wf_users_def wf_sessions_def wf_links_def wf_identities_def
        user_ids_def cascade_users_def delete_factors_def Let_def intro!: refers_cascade)
  moreover have "wf_flows ?c" "wf_otps ?c" "wf_keys ?c"
    using assms
    by (auto simp: wf_db_def wf_flows_def wf_otps_def wf_keys_def
        user_ids_def cascade_users_def delete_factors_def Let_def intro!: refers_cascade)
  moreover have "wf_mfa ?c"
    using wf assms
    by (auto simp: wf_db_def wf_mfa_def user_ids_def cascade_users_def Let_def
        intro: refers_delete intro!: refers_cascade [where P = P])
  ultimately show ?thesis by (simp add: wf_db_def)
qed

lemma delete_users_wf: "wf_db d \<Longrightarrow> wf_db (snd (delete_users env ids d))"
  by (simp add: delete_users_def Let_def wf_cascade_users)

end
