(* ===== verification/PgSessions.thy ===== *)
theory PgSessions
  imports Store Interfaces
begin

text \<open>
  Refresh tokens of \<open>internal/store/pgstore/pgstore.go\<close>: storing, rotating, elevating and
  revoking them. A token row is live while it is neither revoked nor expired.
\<close>

section \<open>Operations\<close>

text \<open>\<open>UPDATE auth.refresh_tokens SET revoked = true WHERE \<dots> AND revoked = false\<close>.\<close>

definition revoke_where :: "(refresh_row \<Rightarrow> bool) \<Rightarrow> db \<Rightarrow> db" where
  "revoke_where P d =
     d\<lparr>refresh_tokens := update_where (\<lambda>r. P r \<and> \<not> r_revoked r) (\<lambda>r. r\<lparr>r_revoked := True\<rparr>) (refresh_tokens d)\<rparr>"

definition endChangesQuery :: "sql_env \<Rightarrow> int \<Rightarrow> db \<Rightarrow> db" where
  "endChangesQuery env uid d =
     d\<lparr>email_change_tokens := update_where (\<lambda>g. g_user_id g = uid \<and> g_consumed_at g = None)
        (\<lambda>g. g\<lparr>g_consumed_at := Some (sql_now env)\<rparr>) (email_change_tokens d)\<rparr>"

definition endSessionsAndLinks :: "sql_env \<Rightarrow> int \<Rightarrow> db \<Rightarrow> db" where
  "endSessionsAndLinks env uid d =
     (let d1 = revoke_where (\<lambda>r. r_user_id r = uid) d;
          d2 = d1\<lparr>flow_states := delete_where (\<lambda>f. f_link_user_id f = Some uid) (flow_states d1)\<rparr>;
          d3 = d2\<lparr>auth_codes := delete_where (\<lambda>c. c_user_id c = uid \<and> c_link_provider c \<noteq> None) (auth_codes d2)\<rparr>;
          d4 = d3\<lparr>email_otps := update_where (\<lambda>e. o_link_user_id e = Some uid \<and> o_consumed_at e = None)
                 (\<lambda>e. e\<lparr>o_consumed_at := Some (sql_now env)\<rparr>) (email_otps d3)\<rparr>
      in endChangesQuery env uid d4)"

text \<open>The \<open>INSERT\<close>, refused by the unique hash and by the foreign key on the account.\<close>

definition insertRefreshToken :: "sql_env \<Rightarrow> string \<Rightarrow> int \<Rightarrow> RefreshSession \<Rightarrow> time option \<Rightarrow> db \<Rightarrow> unit outcome" where
  "insertRefreshToken env hash uid session signedIn d =
     (if exists_where (\<lambda>r. r_token_hash r = hash) (refresh_tokens d) \<or> uid \<notin> set (user_ids d)
      then (Inl ErrConstraint, d)
      else (Inr (), d\<lparr>refresh_tokens := refresh_tokens d @
        [\<lparr>r_token_hash = hash, r_family_id = FamilyID session, r_user_id = uid,
          r_expiry_date = Expiry session, r_last_auth_at = signedIn, r_aal = LevelOf (AAL session),
          r_amr = JoinAMR (AMR session), r_created_at = sql_now env, r_revoked = False\<rparr>]\<rparr>))"

definition InsertRefreshToken :: "sql_env \<Rightarrow> string \<Rightarrow> int \<Rightarrow> RefreshSession \<Rightarrow> db \<Rightarrow> unit outcome" where
  "InsertRefreshToken env hash uid session d =
     insertRefreshToken env hash uid session (AuthTime session) d"

definition live_token :: "sql_env \<Rightarrow> string \<Rightarrow> refresh_row \<Rightarrow> bool" where
  "live_token env hash r = (r_token_hash r = hash \<and> \<not> r_revoked r \<and> r_expiry_date r > sql_now env)"

definition session_of :: "refresh_row \<Rightarrow> RefreshSession" where
  "session_of r = \<lparr>FamilyID = r_family_id r, Expiry = r_expiry_date r, AuthTime = r_last_auth_at r,
     AAL = r_aal r, AMR = SplitAMR (r_amr r)\<rparr>"

definition rotate :: "sql_env \<Rightarrow> string \<Rightarrow> string \<Rightarrow>
    (account \<Rightarrow> RefreshSession \<Rightarrow> store_error + RefreshSession) \<Rightarrow> db \<Rightarrow> (account \<times> RefreshSession) outcome" where
  "rotate env presented successor shape d =
     (case List.find (live_token env presented) (refresh_tokens d) of
        None \<Rightarrow> (Inl ErrNotFound, d)
      | Some r \<Rightarrow>
          let d1 = d\<lparr>refresh_tokens := update_where (live_token env presented) (\<lambda>r. r\<lparr>r_revoked := True\<rparr>) (refresh_tokens d)\<rparr>
          in case user_by_id d1 (r_user_id r) of
               None \<Rightarrow> (Inl ErrNoAccount, d)
             | Some u \<Rightarrow>
                 let account = (account_of u)\<lparr>a_PasswordHash := []\<rparr>
                 in case shape account (session_of r) of
                      Inl e \<Rightarrow> (Inl e, d)
                    | Inr session \<Rightarrow>
                        (case insertRefreshToken env successor (r_user_id r) session (r_last_auth_at r) d1 of
                           (Inl e, _) \<Rightarrow> (Inl e, d)
                         | (Inr _, d2) \<Rightarrow> (Inr (account, session), d2)))"

definition RotateRefreshToken :: "sql_env \<Rightarrow> string \<Rightarrow> string \<Rightarrow> (account \<Rightarrow> store_error option) \<Rightarrow> db
    \<Rightarrow> (account \<times> RefreshSession) outcome" where
  "RotateRefreshToken env presented successor accept d =
     rotate env presented successor
       (\<lambda>account session. case accept account of Some e \<Rightarrow> Inl e | None \<Rightarrow> Inr session) d"

definition ElevateRefreshToken :: "sql_env \<Rightarrow> int \<Rightarrow> string \<Rightarrow> string \<Rightarrow> string \<Rightarrow> db
    \<Rightarrow> (account \<times> RefreshSession) outcome" where
  "ElevateRefreshToken env uid presented successor m d =
     rotate env presented successor
       (\<lambda>account session.
          if a_ID account \<noteq> uid then Inl ErrNotFound
          else Inr (session\<lparr>AAL := AAL2, AMR := WithMethod (AMR session) m\<rparr>)) d"

definition RefreshTokenState :: "string \<Rightarrow> db \<Rightarrow> store_error + RefreshState" where
  "RefreshTokenState hash d =
     (case List.find (\<lambda>r. r_token_hash r = hash) (refresh_tokens d) of
        None \<Rightarrow> Inl ErrNotFound
      | Some r \<Rightarrow> Inr \<lparr>st_Revoked = r_revoked r, st_FamilyID = r_family_id r, st_UserID = r_user_id r\<rparr>)"

definition RevokeRefreshFamily :: "string \<Rightarrow> db \<Rightarrow> db" where
  "RevokeRefreshFamily familyID d = revoke_where (\<lambda>r. r_family_id r = familyID) d"

definition RevokeRefreshToken :: "string \<Rightarrow> db \<Rightarrow> db" where
  "RevokeRefreshToken hash d =
     d\<lparr>refresh_tokens := update_where (\<lambda>r. r_token_hash r = hash) (\<lambda>r. r\<lparr>r_revoked := True\<rparr>) (refresh_tokens d)\<rparr>"

definition RevokeUserRefreshTokens :: "sql_env \<Rightarrow> int \<Rightarrow> db \<Rightarrow> db" where
  "RevokeUserRefreshTokens env uid d = endSessionsAndLinks env uid d"

definition RevokeOtherSessions :: "int \<Rightarrow> string \<Rightarrow> db \<Rightarrow> db" where
  "RevokeOtherSessions uid keep d = revoke_where (\<lambda>r. r_user_id r = uid \<and> r_family_id r \<noteq> keep) d"

text \<open>
  A presented token as the single-use contract reads it; \<open>shape\<close> is the caller's check, that of
  a refresh or of a step-up.
\<close>

definition present :: "sql_env \<times> string \<times> (account \<Rightarrow> RefreshSession \<Rightarrow> store_error + RefreshSession)
    \<Rightarrow> string \<Rightarrow> db \<Rightarrow> (account \<times> RefreshSession) option \<times> db" where
  "present e presented d = (case e of (env, successor, shape) \<Rightarrow> handed (rotate env presented successor shape d))"

definition token_spent :: "string \<Rightarrow> db \<Rightarrow> bool" where
  "token_spent hash d \<longleftrightarrow> unique_on r_token_hash (refresh_tokens d) \<and>
     (\<exists>r \<in> set (refresh_tokens d). r_token_hash r = hash \<and> r_revoked r)"

text \<open>
  Every way the token table changes. A sign-in draws a new family; deleting accounts drops rows;
  every other operation of the store leaves the table alone.
\<close>

inductive session_step :: "db \<Rightarrow> db \<Rightarrow> bool" where
  sign_in: "InsertRefreshToken env hash uid session d = (res, d') \<Longrightarrow>
     FamilyID session \<notin> r_family_id ` set (refresh_tokens d) \<Longrightarrow> session_step d d'"
| refresh: "RotateRefreshToken env presented successor accept d = (res, d') \<Longrightarrow> session_step d d'"
| step_up: "ElevateRefreshToken env uid presented successor m d = (res, d') \<Longrightarrow> session_step d d'"
| revoke_family: "session_step d (RevokeRefreshFamily familyID d)"
| revoke_token: "session_step d (RevokeRefreshToken hash d)"
| revoke_user: "session_step d (RevokeUserRefreshTokens env uid d)"
| revoke_others: "session_step d (RevokeOtherSessions uid keep d)"
| delete_accounts: "session_step d (cascade_users P d)"
| elsewhere: "refresh_tokens d' = refresh_tokens d \<Longrightarrow> session_step d d'"

inductive session_reachable :: "db \<Rightarrow> bool" where
  start: "session_reachable empty_db"
| step: "session_reachable d \<Longrightarrow> session_step d d' \<Longrightarrow> session_reachable d'"

text \<open>One login is one family: one owner, one expiry, one sign-in time, at most one unspent token.\<close>

definition kin :: "refresh_row \<Rightarrow> refresh_row \<Rightarrow> bool" where
  "kin r r' \<longleftrightarrow> (r_family_id r = r_family_id r' \<longrightarrow>
     r_user_id r = r_user_id r' \<and> r_expiry_date r = r_expiry_date r' \<and>
     r_last_auth_at r = r_last_auth_at r' \<and>
     (\<not> r_revoked r \<and> \<not> r_revoked r' \<longrightarrow> r_token_hash r = r_token_hash r'))"

definition families_ok :: "refresh_row list \<Rightarrow> bool" where
  "families_ok t \<longleftrightarrow> unique_on r_token_hash t \<and> (\<forall>r \<in> set t. \<forall>r' \<in> set t. kin r r')"

section \<open>Integrity is kept\<close>

lemma wf_sessions_cong:
  assumes "wf_sessions d'" "users d' = users d"
    "email_verification_tokens d' = email_verification_tokens d"
    "password_reset_tokens d' = password_reset_tokens d" "identities d' = identities d"
    "flow_states d' = flow_states d" "auth_codes d' = auth_codes d" "email_otps d' = email_otps d"
    "email_change_tokens d' = email_change_tokens d" "mfa_factors d' = mfa_factors d"
    "mfa_challenges d' = mfa_challenges d" "mfa_recovery_codes d' = mfa_recovery_codes d"
    "mfa_failures d' = mfa_failures d" "api_keys d' = api_keys d" "role_changes d' = role_changes d"
    "next_user d' = next_user d" "next_verification d' = next_verification d"
    "next_reset d' = next_reset d" "next_identity d' = next_identity d"
    "next_otp d' = next_otp d" "next_key d' = next_key d" "wf_db d"
  shows "wf_db d'"
  using assms by (simp add: wf_db_def wf_users_def wf_links_def wf_identities_def wf_flows_def
      wf_otps_def wf_mfa_def wf_keys_def user_ids_def)

lemma wf_set_revoked [simp]:
  "wf_db (d\<lparr>refresh_tokens := update_where P (\<lambda>r. r\<lparr>r_revoked := b\<rparr>) (refresh_tokens d)\<rparr>) = wf_db d"
  by (simp add: wf_db_def wf_defs unique_on_update refers_update)

lemma wf_revoke_where [simp]: "wf_db (revoke_where P d) = wf_db d"
  by (simp add: revoke_where_def)

lemma wf_endChangesQuery [simp]: "wf_db (endChangesQuery env uid d) = wf_db d"
  by (simp add: endChangesQuery_def wf_db_def wf_defs unique_on_update refers_update)

lemma wf_endSessionsAndLinks: "wf_db d \<Longrightarrow> wf_db (endSessionsAndLinks env uid d)"
  unfolding endSessionsAndLinks_def Let_def wf_endChangesQuery
  by (auto simp: wf_db_def wf_defs revoke_where_def unique_on_update unique_some_update refers_update ball_update_where)

lemma insertRefreshToken_ok:
  "fst (insertRefreshToken env hash uid session signedIn d) = Inr () \<longleftrightarrow>
     hash \<notin> r_token_hash ` set (refresh_tokens d) \<and> uid \<in> set (user_ids d)"
  by (auto simp: insertRefreshToken_def exists_where_iff)

lemma wf_insertRefreshToken:
  assumes "wf_db d"
  shows "wf_db (snd (insertRefreshToken env hash uid session signedIn d))"
proof -
  have "wf_sessions (snd (insertRefreshToken env hash uid session signedIn d))"
    using assms
    by (auto simp: insertRefreshToken_def wf_db_def wf_sessions_def user_ids_def unique_on_append
        exists_where_iff)
  then show ?thesis
    by (rule wf_sessions_cong [where d = d]) (simp_all add: insertRefreshToken_def assms)
qed

section \<open>What a rotation does\<close>

text \<open>Every successful rotation revokes one live row and appends its successor.\<close>

lemma rotate_Inr:
  assumes "rotate env presented successor shape d = (Inr (account, session), d')"
  obtains r u where
    "List.find (live_token env presented) (refresh_tokens d) = Some r"
    "user_by_id d (r_user_id r) = Some u" "account = (account_of u)\<lparr>a_PasswordHash := []\<rparr>"
    "shape account (session_of r) = Inr session"
    "successor \<notin> r_token_hash ` set (refresh_tokens d)" "r_user_id r \<in> set (user_ids d)"
    "d' = d\<lparr>refresh_tokens :=
        update_where (live_token env presented) (\<lambda>r. r\<lparr>r_revoked := True\<rparr>) (refresh_tokens d) @
        [\<lparr>r_token_hash = successor, r_family_id = FamilyID session, r_user_id = r_user_id r,
          r_expiry_date = Expiry session, r_last_auth_at = r_last_auth_at r,
          r_aal = LevelOf (AAL session), r_amr = JoinAMR (AMR session),
          r_created_at = sql_now env, r_revoked = False\<rparr>]\<rparr>"
proof -
  from assms obtain r where r: "List.find (live_token env presented) (refresh_tokens d) = Some r"
    by (auto simp: rotate_def split: option.splits)
  from assms r obtain u where u: "user_by_id d (r_user_id r) = Some u"
    by (auto simp: rotate_def Let_def user_by_id_def split: option.splits)
  have hashes: "r_token_hash ` set (update_where (live_token env presented) (\<lambda>r. r\<lparr>r_revoked := True\<rparr>) t) =
      r_token_hash ` set t" for t
    by (rule image_update_where) simp
  show thesis
    by (rule that [OF r u])
      (use assms r u hashes in \<open>auto simp: rotate_def Let_def user_by_id_def user_ids_def
        insertRefreshToken_def exists_where_key [where k = r_token_hash] split: option.splits sum.splits if_splits prod.splits\<close>)
qed

lemma rotate_Inl: "fst (rotate env presented successor shape d) = Inl e \<Longrightarrow>
    snd (rotate env presented successor shape d) = d"
  by (auto simp: rotate_def Let_def split: option.splits sum.splits prod.splits)

lemma rotate_cases:
  obtains e where "rotate env presented successor shape d = (Inl e, d)"
  | account session d' where "rotate env presented successor shape d = (Inr (account, session), d')"
  by (cases "rotate env presented successor shape d"; cases "fst (rotate env presented successor shape d)")
    (use rotate_Inl [of env presented successor shape d] in auto)

lemma wf_rotate:
  assumes "wf_db d"
  shows "wf_db (snd (rotate env presented successor shape d))"
proof (cases rule: rotate_cases [of env presented successor shape d])
  case (2 account session d')
  from 2 show ?thesis
  proof (rule rotate_Inr)
    fix r u
    let ?t = "update_where (live_token env presented) (\<lambda>r. r\<lparr>r_revoked := True\<rparr>) (refresh_tokens d)"
    let ?n = "\<lparr>r_token_hash = successor, r_family_id = FamilyID session, r_user_id = r_user_id r,
          r_expiry_date = Expiry session, r_last_auth_at = r_last_auth_at r,
          r_aal = LevelOf (AAL session), r_amr = JoinAMR (AMR session),
          r_created_at = sql_now env, r_revoked = False\<rparr>"
    assume new: "successor \<notin> r_token_hash ` set (refresh_tokens d)" "r_user_id r \<in> set (user_ids d)"
      and d': "d' = d\<lparr>refresh_tokens := ?t @ [?n]\<rparr>"
    have "wf_sessions (d\<lparr>refresh_tokens := ?t @ [?n]\<rparr>)"
      using assms new
      by (auto simp: wf_db_def wf_sessions_def user_ids_def unique_on_append unique_on_update
          refers_update image_update_where)
    then have "wf_db d'" unfolding d' by (rule wf_sessions_cong [where d = d]) (simp_all add: assms)
    then show ?thesis by (simp add: 2)
  qed
qed (use assms in simp)

lemma JoinAMR_SplitAMR: "JoinAMR (SplitAMR column) = column"
  by (simp add: JoinAMR_def SplitAMR_def join_split)

section \<open>A token is accepted once\<close>

lemma live_token_key: "live_token env presented r \<Longrightarrow> r_token_hash r = presented \<and> \<not> r_revoked r"
  by (simp add: live_token_def)

lemma rotate_spends:
  assumes "unique_on r_token_hash (refresh_tokens d)"
    and "rotate env presented successor shape d = (Inr (account, session), d')"
  shows "token_spent presented d'"
  using assms(2)
proof (rule rotate_Inr)
  fix r
  assume r: "List.find (live_token env presented) (refresh_tokens d) = Some r"
    and new: "successor \<notin> r_token_hash ` set (refresh_tokens d)"
    and d': "d' = d\<lparr>refresh_tokens :=
        update_where (live_token env presented) (\<lambda>r. r\<lparr>r_revoked := True\<rparr>) (refresh_tokens d) @
        [\<lparr>r_token_hash = successor, r_family_id = FamilyID session, r_user_id = r_user_id r,
          r_expiry_date = Expiry session, r_last_auth_at = r_last_auth_at r,
          r_aal = LevelOf (AAL session), r_amr = JoinAMR (AMR session),
          r_created_at = sql_now env, r_revoked = False\<rparr>]\<rparr>"
  from r have mem: "r \<in> set (refresh_tokens d)" "live_token env presented r"
    by (auto dest: find_Some_mem)
  then have "r\<lparr>r_revoked := True\<rparr> \<in> set (refresh_tokens d')"
    by (auto simp: d' set_update_where image_iff intro!: bexI [of _ r])
  moreover have "unique_on r_token_hash (refresh_tokens d')"
    using assms(1) new by (simp add: d' unique_on_append unique_on_update image_update_where)
  ultimately show ?thesis
    using mem(2) by (auto simp: token_spent_def live_token_def intro!: bexI [of _ "r\<lparr>r_revoked := True\<rparr>"])
qed

lemma spent_not_live:
  assumes "token_spent hash d"
  shows "List.find (live_token env hash) (refresh_tokens d) = None"
proof -
  from assms obtain r where "r \<in> set (refresh_tokens d)" "r_token_hash r = hash" "r_revoked r"
    and uniq: "unique_on r_token_hash (refresh_tokens d)"
    by (auto simp: token_spent_def)
  then show ?thesis
    by (auto simp: find_None_iff live_token_def dest: unique_on_eq)
qed

lemma spent_rotate:
  assumes "token_spent hash d"
  shows "token_spent hash (snd (rotate env presented successor shape d))"
proof (cases rule: rotate_cases [of env presented successor shape d])
  case (2 account session d')
  have uniq: "unique_on r_token_hash (refresh_tokens d)" using assms by (simp add: token_spent_def)
  have "token_spent presented d'" using uniq 2 by (rule rotate_spends)
  moreover have "\<exists>r \<in> set (refresh_tokens d'). r_token_hash r = hash \<and> r_revoked r"
    by (rule rotate_Inr [OF 2]) (use assms in
        \<open>auto simp: token_spent_def set_update_where image_iff Bex_def live_token_def\<close>)
  ultimately show ?thesis by (simp add: 2 token_spent_def)
qed (use assms in simp)

interpretation refresh_once: single_use present token_spent wf_db
proof
  fix d :: db and e :: "sql_env \<times> string \<times> (account \<Rightarrow> RefreshSession \<Rightarrow> store_error + RefreshSession)"
    and h h' :: string
  obtain env successor shape where e: "e = (env, successor, shape)" by (cases e)
  show "wf_db (snd (present e h d))" if "wf_db d"
    using wf_rotate [OF that] by (simp add: present_def e)
  show "token_spent h (snd (present e h d))" if "wf_db d" "fst (present e h d) \<noteq> None"
  proof -
    have "unique_on r_token_hash (refresh_tokens d)" using that(1) by (simp add: wf_db_def wf_sessions_def)
    then show ?thesis
      using that(2) by (cases rule: rotate_cases [of env h successor shape d])
        (auto simp: present_def e dest: rotate_spends)
  qed
  show "fst (present e h d) = None" if "token_spent h d"
    using spent_not_live [OF that] by (simp add: present_def e rotate_def)
  show "token_spent h (snd (present e h' d))" if "token_spent h d"
    using spent_rotate [OF that] by (simp add: present_def e)
qed

section \<open>Families\<close>

lemma kin_refl [simp]: "kin r r"
  by (simp add: kin_def)

lemma kin_sym: "kin r r' \<Longrightarrow> kin r' r"
  by (simp add: kin_def)

lemma kin_revoke_one: "kin r r' \<Longrightarrow> kin (if b then r\<lparr>r_revoked := True\<rparr> else r) r'"
  by (simp add: kin_def)

lemma kin_revoke:
  "kin r r' \<Longrightarrow> kin (if b then r\<lparr>r_revoked := True\<rparr> else r) (if b' then r'\<lparr>r_revoked := True\<rparr> else r')"
  by (intro kin_revoke_one kin_sym [OF kin_revoke_one [OF kin_sym]])

lemma families_ok_revoke: "families_ok t \<Longrightarrow> families_ok (update_where P (\<lambda>r. r\<lparr>r_revoked := True\<rparr>) t)"
  unfolding families_ok_def ball_update_where by (simp add: unique_on_update kin_revoke del: if_split)

lemma families_ok_delete: "families_ok t \<Longrightarrow> families_ok (delete_where P t)"
  unfolding families_ok_def by (simp add: unique_on_delete)

lemma families_ok_append:
  assumes "families_ok t" "r_token_hash n \<notin> r_token_hash ` set t" "\<And>r. r \<in> set t \<Longrightarrow> kin n r"
  shows "families_ok (t @ [n])"
  unfolding families_ok_def
proof (intro conjI ballI)
  show "unique_on r_token_hash (t @ [n])"
    using assms by (simp add: unique_on_append families_ok_def)
  show "kin r r'" if "r \<in> set (t @ [n])" "r' \<in> set (t @ [n])" for r r'
  proof (cases "r = n")
    case True
    then show ?thesis using that(2) assms(3) [of r'] by (cases "r' = n") simp_all
  next
    case False
    then have "r \<in> set t" using that(1) by simp
    then show ?thesis
      using that(2) assms(1,3) by (cases "r' = n") (simp_all add: families_ok_def kin_sym)
  qed
qed

lemma families_ok_successor:
  assumes "families_ok t" "r \<in> set t" "\<not> r_revoked r" "r_token_hash n \<notin> r_token_hash ` set t"
    and "r_family_id n = r_family_id r" "r_user_id n = r_user_id r"
      "r_expiry_date n = r_expiry_date r" "r_last_auth_at n = r_last_auth_at r"
    and P: "P r"
  shows "families_ok (update_where P (\<lambda>r. r\<lparr>r_revoked := True\<rparr>) t @ [n])"
proof (rule families_ok_append)
  show "families_ok (update_where P (\<lambda>r. r\<lparr>r_revoked := True\<rparr>) t)"
    using assms(1) by (rule families_ok_revoke)
  show "r_token_hash n \<notin> r_token_hash ` set (update_where P (\<lambda>r. r\<lparr>r_revoked := True\<rparr>) t)"
    using assms(4) by (simp add: image_update_where)
  fix x
  assume "x \<in> set (update_where P (\<lambda>r. r\<lparr>r_revoked := True\<rparr>) t)"
  then obtain y where y: "y \<in> set t" and x: "x = (if P y then y\<lparr>r_revoked := True\<rparr> else y)"
    by (auto simp: set_update_where)
  have k: "kin r y" using assms(1,2) y by (simp add: families_ok_def)
  show "kin n x"
  proof (cases "P y")
    case True
    then show ?thesis using k assms(5-8) x by (simp add: kin_def)
  next
    case False
    then have "y \<noteq> r" using P by auto
    then have "r_token_hash y \<noteq> r_token_hash r"
      using assms(1,2) y by (auto simp: families_ok_def dest: unique_on_eq)
    then show ?thesis using k assms(3,5-8) x False by (auto simp: kin_def)
  qed
qed

lemma rotate_families:
  assumes ok: "families_ok (refresh_tokens d)"
    and keeps: "\<And>a s s'. shape a s = Inr s' \<Longrightarrow> FamilyID s' = FamilyID s \<and> Expiry s' = Expiry s"
    and rot: "rotate env presented successor shape d = (res, d')"
  shows "families_ok (refresh_tokens d')"
proof (cases rule: rotate_cases [of env presented successor shape d])
  case (1 e)
  then show ?thesis using ok rot by simp
next
  case (2 account session d'')
  show ?thesis
  proof (rule rotate_Inr [OF 2])
    fix r u
    assume r: "List.find (live_token env presented) (refresh_tokens d) = Some r"
      and shape: "shape account (session_of r) = Inr session"
      and new: "successor \<notin> r_token_hash ` set (refresh_tokens d)"
      and d'': "d'' = d\<lparr>refresh_tokens :=
        update_where (live_token env presented) (\<lambda>r. r\<lparr>r_revoked := True\<rparr>) (refresh_tokens d) @
        [\<lparr>r_token_hash = successor, r_family_id = FamilyID session, r_user_id = r_user_id r,
          r_expiry_date = Expiry session, r_last_auth_at = r_last_auth_at r,
          r_aal = LevelOf (AAL session), r_amr = JoinAMR (AMR session),
          r_created_at = sql_now env, r_revoked = False\<rparr>]\<rparr>"
    from r have mem: "r \<in> set (refresh_tokens d)" "live_token env presented r"
      by (auto dest: find_Some_mem)
    have "families_ok (refresh_tokens d'')"
      unfolding d'' using keeps [OF shape] new mem
      by (simp add: families_ok_successor [OF ok, where r = r] session_of_def live_token_def)
    then show ?thesis using 2 rot by simp
  qed
qed

lemma session_step_families:
  "session_step d d' \<Longrightarrow> families_ok (refresh_tokens d) \<Longrightarrow> families_ok (refresh_tokens d')"
proof (induction rule: session_step.induct)
  case (sign_in env hash uid session d res d')
  then show ?case
    by (auto simp: InsertRefreshToken_def insertRefreshToken_def exists_where_key [where k = r_token_hash]
        kin_def image_iff intro!: families_ok_append split: if_splits)
next
  case (refresh env presented successor accept d res d')
  then show ?case
    unfolding RotateRefreshToken_def by (rule_tac rotate_families) (auto split: option.splits)
next
  case (step_up env uid presented successor m d res d')
  then show ?case
    unfolding ElevateRefreshToken_def by (rule_tac rotate_families) (auto split: if_splits)
qed (simp_all add: RevokeRefreshFamily_def RevokeRefreshToken_def RevokeUserRefreshTokens_def
    RevokeOtherSessions_def endSessionsAndLinks_def endChangesQuery_def revoke_where_def Let_def
    cascade_users_fields families_ok_revoke families_ok_delete)

lemma session_reachable_families: "session_reachable d \<Longrightarrow> families_ok (refresh_tokens d)"
proof (induction rule: session_reachable.induct)
  case start
  show ?case by (simp add: empty_db_def families_ok_def unique_on_def)
next
  case (step d d')
  then show ?case by (blast intro: session_step_families)
qed

section \<open>Revocation\<close>

lemma find_update_where:
  assumes "\<And>x. x \<in> set t \<Longrightarrow> Q (if P x then f x else x) \<longleftrightarrow> Q x \<and> \<not> P x"
  shows "List.find Q (update_where P f t) = List.find (\<lambda>x. Q x \<and> \<not> P x) t"
  using assms by (induction t) (auto simp: update_where_def)

lemma live_after_revoke:
  "List.find (live_token env hash) (refresh_tokens (revoke_where P d)) =
     List.find (\<lambda>r. live_token env hash r \<and> \<not> P r) (refresh_tokens d)"
proof -
  have "List.find (live_token env hash) (refresh_tokens (revoke_where P d)) =
      List.find (\<lambda>r. live_token env hash r \<and> \<not> (P r \<and> \<not> r_revoked r)) (refresh_tokens d)"
    unfolding revoke_where_def by (simp add: find_update_where live_token_def)
  also have "(\<lambda>r. live_token env hash r \<and> \<not> (P r \<and> \<not> r_revoked r)) = (\<lambda>r. live_token env hash r \<and> \<not> P r)"
    by (auto simp: live_token_def)
  finally show ?thesis .
qed

lemma find_live_mem:
  assumes "unique_on r_token_hash t" "r \<in> set t"
  shows "List.find (\<lambda>x. live_token env (r_token_hash r) x \<and> \<not> P x) t =
    (if live_token env (r_token_hash r) r \<and> \<not> P r then Some r else None)"
proof -
  have only: "x = r" if "x \<in> set t" "live_token env (r_token_hash r) x" for x
    using that assms by (auto simp: live_token_def dest: unique_on_eq)
  then have "List.find (\<lambda>x. live_token env (r_token_hash r) x \<and> \<not> P x) t = Some r"
    if "live_token env (r_token_hash r) r" "\<not> P r"
    using that assms(2) find_None_iff [of "\<lambda>x. live_token env (r_token_hash r) x \<and> \<not> P x" t]
    by (cases "List.find (\<lambda>x. live_token env (r_token_hash r) x \<and> \<not> P x) t")
      (auto dest: find_Some_mem)
  moreover have "List.find (\<lambda>x. live_token env (r_token_hash r) x \<and> \<not> P x) t = None"
    if "\<not> (live_token env (r_token_hash r) r \<and> \<not> P r)"
    using that only by (auto simp: find_None_iff)
  ultimately show ?thesis by auto
qed

text \<open>What a rotation answers depends on the accounts, the live row and the hashes taken.\<close>

lemma rotate_answer_cong:
  assumes "users d' = users d"
    "List.find (live_token env presented) (refresh_tokens d') = List.find (live_token env presented) (refresh_tokens d)"
    "r_token_hash ` set (refresh_tokens d') = r_token_hash ` set (refresh_tokens d)"
  shows "fst (rotate env presented successor shape d') = fst (rotate env presented successor shape d)"
proof -
  have hashes: "r_token_hash ` set (update_where (live_token env presented) (\<lambda>r. r\<lparr>r_revoked := True\<rparr>) t) =
      r_token_hash ` set t" for t
    by (rule image_update_where) simp
  show ?thesis
    using assms by (simp add: rotate_def Let_def user_by_id_def insertRefreshToken_def user_ids_def
        exists_where_key [where k = r_token_hash] hashes split: option.split sum.split prod.split)
qed

lemma rotate_after_revoke:
  assumes "wf_db d" "r \<in> set (refresh_tokens d)"
    and "users d' = users d" "refresh_tokens d' = refresh_tokens (revoke_where P d)"
  shows "fst (rotate env (r_token_hash r) successor shape d') =
    (if P r then Inl ErrNotFound else fst (rotate env (r_token_hash r) successor shape d))"
proof -
  have uniq: "unique_on r_token_hash (refresh_tokens d)"
    using assms(1) by (simp add: wf_db_def wf_sessions_def)
  note f = find_live_mem [OF uniq assms(2), of env]
  show ?thesis
  proof (cases "P r")
    case True
    then have "List.find (live_token env (r_token_hash r)) (refresh_tokens d') = None"
      using f [of P] by (simp add: assms(4) live_after_revoke)
    then show ?thesis using True by (simp add: rotate_def)
  next
    case False
    have "r_token_hash ` set (refresh_tokens d') = r_token_hash ` set (refresh_tokens d)"
      unfolding assms(4) revoke_where_def by (simp add: image_update_where)
    moreover have "List.find (live_token env (r_token_hash r)) (refresh_tokens d') =
        List.find (live_token env (r_token_hash r)) (refresh_tokens d)"
      using f [of P] f [of "\<lambda>_. False"] False by (simp add: assms(4) live_after_revoke)
    ultimately have "fst (rotate env (r_token_hash r) successor shape d') =
        fst (rotate env (r_token_hash r) successor shape d)"
      by (intro rotate_answer_cong [OF assms(3)])
    then show ?thesis using False by simp
  qed
qed

section \<open>Properties\<close>

text \<open>C1: A refresh token is accepted at most once. Over any sequence of refreshes and step-ups,
  whoever sends them, whenever they arrive and whatever the callers' checks decide, at most one
  request that presents a given token is granted.\<close>

theorem refresh_token_single_use:
  assumes "wf_db d"
  shows "granted qs (fst (serve (\<lambda>(e, presented). present e presented) qs d)) presented \<le> 1"
  using refresh_once.granted_at_most_once [OF assms] .

text \<open>The sample database of the witnesses: one account with one session.\<close>

definition sample_env :: sql_env where
  "sample_env = \<lparr>sql_now = 100, sql_lower = ToLower, app_referenced = (\<lambda>_. False)\<rparr>"

definition sample_user :: user_row where
  "sample_user = \<lparr>u_id = 1, u_email = Some ''a@b.c'', u_password = Some ''h'', u_full_name = ''A'',
     u_role = ''user'', u_allowed_roles = None, u_enabled = True, u_email_verified = True,
     u_email_verified_at = Some 1, u_is_guest = False, u_user_metadata = None, u_app_metadata = None,
     u_created_at = 0, u_last_login_at = None\<rparr>"

definition sample_token :: refresh_row where
  "sample_token = \<lparr>r_token_hash = ''t1'', r_family_id = ''f1'', r_user_id = 1, r_expiry_date = 1000,
     r_last_auth_at = Some 5, r_aal = 1, r_amr = ''pwd'', r_created_at = 0, r_revoked = False\<rparr>"

definition sample_db :: db where
  "sample_db = empty_db\<lparr>users := [sample_user], next_user := 2, refresh_tokens := [sample_token]\<rparr>"

lemmas sample_defs = sample_env_def sample_user_def sample_token_def sample_db_def empty_db_def

lemma wf_sample_db: "wf_db sample_db"
  by (simp add: sample_defs wf_db_def wf_defs unique_on_def unique_some_def)

text \<open>The same token presented twice.\<close>

definition sample_replay :: "((sql_env \<times> string \<times> (account \<Rightarrow> RefreshSession \<Rightarrow> store_error + RefreshSession)) \<times> string) list" where
  "sample_replay = [((sample_env, ''t2'', \<lambda>_. Inr), ''t1''), ((sample_env, ''t3'', \<lambda>_. Inr), ''t1'')]"

theorem refresh_token_single_use_witness:
  "wf_db sample_db \<and>
   granted sample_replay (fst (serve (\<lambda>(e, presented). present e presented) sample_replay sample_db)) ''t1'' \<le> 1"
  by (rule conjI [OF wf_sample_db refresh_token_single_use [OF wf_sample_db]])

text \<open>What a refresh hands over. A granted rotation found a live row and its account, the
  caller's check accepted that account, and the row stored under the successor's hash carries the
  presented row's family, owner, expiry, sign-in time and methods, its level capped to the levels
  the service knows; the presented row is revoked and every other row is as it was. A refused
  rotation leaves the database as it was.\<close>

theorem rotation_carries_session:
  assumes "wf_db d" "RotateRefreshToken env presented successor accept d = (res, d')"
  shows "case res of
      Inl e \<Rightarrow> d' = d
    | Inr (account, session) \<Rightarrow>
        (\<exists>r \<in> set (refresh_tokens d). \<exists>u.
          live_token env presented r \<and> user_by_id d (r_user_id r) = Some u \<and>
          account = (account_of u)\<lparr>a_PasswordHash := []\<rparr> \<and> accept account = None \<and>
          session = session_of r \<and>
          refresh_tokens d' = update_where (\<lambda>x. r_token_hash x = presented) (\<lambda>x. x\<lparr>r_revoked := True\<rparr>) (refresh_tokens d)
            @ [r\<lparr>r_token_hash := successor, r_aal := LevelOf (r_aal r), r_created_at := sql_now env\<rparr>])"
proof (cases rule: rotate_cases [of env presented successor
      "\<lambda>account session. case accept account of Some e \<Rightarrow> Inl e | None \<Rightarrow> Inr session" d])
  case (1 e)
  then show ?thesis using assms(2) by (auto simp: RotateRefreshToken_def)
next
  case (2 account session d'')
  show ?thesis
  proof (rule rotate_Inr [OF 2])
    fix r u
    assume r: "List.find (live_token env presented) (refresh_tokens d) = Some r"
      and u: "user_by_id d (r_user_id r) = Some u" "account = (account_of u)\<lparr>a_PasswordHash := []\<rparr>"
      and shape: "(case accept account of Some e \<Rightarrow> Inl e | None \<Rightarrow> Inr (session_of r)) = Inr session"
      and d'': "d'' = d\<lparr>refresh_tokens :=
        update_where (live_token env presented) (\<lambda>r. r\<lparr>r_revoked := True\<rparr>) (refresh_tokens d) @
        [\<lparr>r_token_hash = successor, r_family_id = FamilyID session, r_user_id = r_user_id r,
          r_expiry_date = Expiry session, r_last_auth_at = r_last_auth_at r,
          r_aal = LevelOf (AAL session), r_amr = JoinAMR (AMR session),
          r_created_at = sql_now env, r_revoked = False\<rparr>]\<rparr>"
    from r have mem: "r \<in> set (refresh_tokens d)" and live: "live_token env presented r"
      by (auto dest: find_Some_mem)
    have acc: "accept account = None" "session = session_of r" using shape by (auto split: option.splits)
    have eq: "live_token env presented x \<longleftrightarrow> r_token_hash x = presented" if "x \<in> set (refresh_tokens d)" for x
      using that live mem assms(1)
      by (auto simp: live_token_def wf_db_def wf_sessions_def dest: unique_on_eq)
    then have "update_where (live_token env presented) (\<lambda>r. r\<lparr>r_revoked := True\<rparr>) (refresh_tokens d) =
        update_where (\<lambda>x. r_token_hash x = presented) (\<lambda>x. x\<lparr>r_revoked := True\<rparr>) (refresh_tokens d)"
      by (simp add: update_where_def)
    moreover have "\<lparr>r_token_hash = successor, r_family_id = FamilyID session, r_user_id = r_user_id r,
          r_expiry_date = Expiry session, r_last_auth_at = r_last_auth_at r,
          r_aal = LevelOf (AAL session), r_amr = JoinAMR (AMR session),
          r_created_at = sql_now env, r_revoked = False\<rparr> =
        r\<lparr>r_token_hash := successor, r_aal := LevelOf (r_aal r), r_created_at := sql_now env\<rparr>"
      using live by (cases r) (simp add: acc session_of_def live_token_def JoinAMR_SplitAMR)
    ultimately show ?thesis
      using 2 assms(2) mem live u acc by (auto simp: RotateRefreshToken_def d'' intro!: bexI [of _ r])
  qed
qed

theorem rotation_carries_session_witness:
  "wf_db sample_db \<and>
   (\<exists>account session d'. RotateRefreshToken sample_env ''t1'' ''t2'' (\<lambda>_. None) sample_db = (Inr (account, session), d') \<and>
     refresh_tokens d' = [sample_token\<lparr>r_revoked := True\<rparr>, sample_token\<lparr>r_token_hash := ''t2'', r_created_at := 100\<rparr>])"
proof -
  obtain account session d' where
    ok: "RotateRefreshToken sample_env ''t1'' ''t2'' (\<lambda>_. None) sample_db = (Inr (account, session), d')"
    by (simp add: RotateRefreshToken_def rotate_def sample_defs live_token_def user_by_id_def
        insertRefreshToken_def user_ids_def exists_where_def update_where_def Let_def)
  from rotation_carries_session [OF wf_sample_db ok] wf_sample_db show ?thesis
    by (intro conjI exI) (rule wf_sample_db, rule ok,
        auto simp: sample_defs update_where_def LevelOf_def)
qed

text \<open>A step-up proves the second factor for the session it is presented on and no other: it
  succeeds only for the account the session belongs to, and the successor is at the second level,
  names the factor among its methods next to every method the session already had, and keeps the
  family, the expiry and the sign-in time.\<close>

theorem step_up_raises_own_session:
  assumes "ElevateRefreshToken env uid presented successor m d = (Inr (account, session), d')"
  shows "a_ID account = uid \<and> AAL session = AAL2 \<and> m \<in> set (AMR session) \<and>
    (\<exists>r \<in> set (refresh_tokens d). live_token env presented r \<and> r_user_id r = uid \<and>
      FamilyID session = r_family_id r \<and> Expiry session = r_expiry_date r \<and>
      set (AMR session) = insert m (set (SplitAMR (r_amr r))) \<and>
      (\<exists>n. last (refresh_tokens d') = n \<and> r_token_hash n = successor \<and> r_family_id n = r_family_id r \<and>
         r_user_id n = uid \<and> r_expiry_date n = r_expiry_date r \<and> r_last_auth_at n = r_last_auth_at r \<and>
         r_aal n = AAL2 \<and> r_amr n = JoinAMR (AMR session) \<and> \<not> r_revoked n))"
  using assms unfolding ElevateRefreshToken_def
proof (rule rotate_Inr)
  fix r u
  assume r: "List.find (live_token env presented) (refresh_tokens d) = Some r"
    and u: "user_by_id d (r_user_id r) = Some u" "account = (account_of u)\<lparr>a_PasswordHash := []\<rparr>"
    and shape: "(if a_ID account \<noteq> uid then Inl ErrNotFound
       else Inr ((session_of r)\<lparr>AAL := AAL2, AMR := WithMethod (AMR (session_of r)) m\<rparr>)) = Inr session"
    and d': "d' = d\<lparr>refresh_tokens :=
        update_where (live_token env presented) (\<lambda>r. r\<lparr>r_revoked := True\<rparr>) (refresh_tokens d) @
        [\<lparr>r_token_hash = successor, r_family_id = FamilyID session, r_user_id = r_user_id r,
          r_expiry_date = Expiry session, r_last_auth_at = r_last_auth_at r,
          r_aal = LevelOf (AAL session), r_amr = JoinAMR (AMR session),
          r_created_at = sql_now env, r_revoked = False\<rparr>]\<rparr>"
  have own: "a_ID account = uid" using shape by (auto split: if_splits)
  moreover have "r_user_id r = uid"
    using own u user_by_id_Some [OF u(1)] by (simp add: account_of_def)
  ultimately show ?thesis
    using shape find_Some_mem [OF r]
    by (auto simp: d' session_of_def WithMethod_def LevelOf_def split: if_splits intro!: bexI [of _ r])
qed

theorem step_up_raises_own_session_witness:
  "\<exists>account session d'. ElevateRefreshToken sample_env 1 ''t1'' ''t2'' ''totp'' sample_db = (Inr (account, session), d') \<and>
     AAL session = AAL2 \<and> ''totp'' \<in> set (AMR session)"
proof -
  obtain account session d' where
    ok: "ElevateRefreshToken sample_env 1 ''t1'' ''t2'' ''totp'' sample_db = (Inr (account, session), d')"
    by (simp add: ElevateRefreshToken_def rotate_def sample_defs live_token_def user_by_id_def
        insertRefreshToken_def user_ids_def exists_where_def update_where_def Let_def account_of_def)
  from step_up_raises_own_session [OF ok] ok show ?thesis by blast
qed

text \<open>C4: In every state the store's operations reach, the tokens of one family have one owner,
  one expiry and one sign-in time, and at most one of them is not yet revoked: a login has one
  current token, however often it is refreshed or stepped up.\<close>

theorem family_has_one_current_token:
  assumes "session_reachable d" "r \<in> set (refresh_tokens d)" "r' \<in> set (refresh_tokens d)"
    and "r_family_id r = r_family_id r'"
  shows "r_user_id r = r_user_id r' \<and> r_expiry_date r = r_expiry_date r' \<and>
    r_last_auth_at r = r_last_auth_at r' \<and> (\<not> r_revoked r \<and> \<not> r_revoked r' \<longrightarrow> r = r')"
proof -
  have ok: "families_ok (refresh_tokens d)" using assms(1) by (rule session_reachable_families)
  then have "kin r r'" using assms(2,3) by (simp add: families_ok_def)
  moreover have "unique_on r_token_hash (refresh_tokens d)" using ok by (simp add: families_ok_def)
  ultimately show ?thesis
    using assms(2-4) by (simp add: kin_def) (blast dest: unique_on_eq)
qed

lemma sample_reachable:
  "session_reachable (empty_db\<lparr>users := [sample_user], next_user := 2\<rparr>)"
  "session_reachable (sample_db\<lparr>refresh_tokens := [sample_token\<lparr>r_created_at := 100\<rparr>]\<rparr>)"
proof -
  show 1: "session_reachable (empty_db\<lparr>users := [sample_user], next_user := 2\<rparr>)"
    by (rule session_reachable.step [OF session_reachable.start], rule session_step.elsewhere) simp
  show "session_reachable (sample_db\<lparr>refresh_tokens := [sample_token\<lparr>r_created_at := 100\<rparr>]\<rparr>)"
    by (rule session_reachable.step [OF 1], rule session_step.sign_in
        [where env = sample_env and hash = "''t1''" and uid = 1 and res = "Inr ()"
          and session = "\<lparr>FamilyID = ''f1'', Expiry = 1000, AuthTime = Some 5, AAL = 1, AMR = [''pwd'']\<rparr>"])
      (simp_all add: sample_defs InsertRefreshToken_def insertRefreshToken_def user_ids_def exists_where_def
        LevelOf_def JoinAMR_def)
qed

theorem family_has_one_current_token_witness:
  "session_reachable (sample_db\<lparr>refresh_tokens := [sample_token\<lparr>r_created_at := 100\<rparr>]\<rparr>) \<and>
   r_user_id (sample_token\<lparr>r_created_at := 100\<rparr>) = r_user_id (sample_token\<lparr>r_created_at := 100\<rparr>)"
  using family_has_one_current_token [OF sample_reachable(2), of "sample_token\<lparr>r_created_at := 100\<rparr>" "sample_token\<lparr>r_created_at := 100\<rparr>"]
    sample_reachable(2) by simp

text \<open>Ending every session of an account, as a sign-out everywhere, a password change or a
  disabled account does, kills exactly that account's refresh tokens: any later presentation of
  one is refused as not found, and a token of another account is answered as before.\<close>

theorem revoke_user_ends_exactly_its_sessions:
  assumes "wf_db d" "r \<in> set (refresh_tokens d)"
  shows "fst (rotate env' (r_token_hash r) successor shape (RevokeUserRefreshTokens env uid d)) =
    (if r_user_id r = uid then Inl ErrNotFound else fst (rotate env' (r_token_hash r) successor shape d))"
  by (rule rotate_after_revoke [OF assms])
    (simp_all add: RevokeUserRefreshTokens_def endSessionsAndLinks_def endChangesQuery_def Let_def revoke_where_def)

theorem revoke_user_ends_exactly_its_sessions_witness:
  "wf_db sample_db \<and> sample_token \<in> set (refresh_tokens sample_db) \<and>
   fst (rotate sample_env ''t1'' ''t2'' (\<lambda>_. Inr) (RevokeUserRefreshTokens sample_env 1 sample_db)) = Inl ErrNotFound"
  using revoke_user_ends_exactly_its_sessions [OF wf_sample_db, of sample_token sample_env "''t2''" "\<lambda>_. Inr" sample_env 1]
    wf_sample_db by (simp add: sample_defs)

text \<open>Signing out of the other sessions spares exactly the family named: the account's tokens
  of other families are refused from then on, its own family's and other accounts' are answered as
  before.\<close>

theorem revoke_others_keeps_named_session:
  assumes "wf_db d" "r \<in> set (refresh_tokens d)"
  shows "fst (rotate env (r_token_hash r) successor shape (RevokeOtherSessions uid keep d)) =
    (if r_user_id r = uid \<and> r_family_id r \<noteq> keep then Inl ErrNotFound
     else fst (rotate env (r_token_hash r) successor shape d))"
  by (rule rotate_after_revoke [OF assms]) (simp_all add: RevokeOtherSessions_def revoke_where_def)

theorem revoke_others_keeps_named_session_witness:
  "wf_db sample_db \<and> sample_token \<in> set (refresh_tokens sample_db) \<and>
   fst (rotate sample_env ''t1'' ''t2'' (\<lambda>_. Inr) (RevokeOtherSessions 1 ''f2'' sample_db)) = Inl ErrNotFound"
  using revoke_others_keeps_named_session [OF wf_sample_db, of sample_token sample_env "''t2''" "\<lambda>_. Inr" 1 "''f2''"]
    wf_sample_db by (simp add: sample_defs)

end
