(* ===== verification/PgAccounts.thy ===== *)
theory PgAccounts
  imports PgSessions
begin

text \<open>
  Accounts in the Postgres store: the account operations of \<open>internal/store/pgstore/pgstore.go\<close>,
  the profile, password and deletion operations of \<open>pgstore/account.go\<close> and the metadata
  merge of \<open>internal/store/metadata.go\<close>.

  \<open>encoding/json\<close> and the \<open>jsonb\<close> column type are the fields of a record of functions; a
  decoded object is a map from its keys to the raw text of their values.
\<close>

section \<open>Metadata\<close>

record json_lib =
  json_unmarshal :: "string \<Rightarrow> (string \<rightharpoonup> string) option option"
  json_marshal :: "(string \<rightharpoonup> string) \<Rightarrow> string option"
  json_compact :: "string \<Rightarrow> string option"
  jsonb_text :: "string \<Rightarrow> string"

abbreviation MaxMetadataBytes :: nat where "MaxMetadataBytes \<equiv> 16384"
abbreviation MaxMetadataDepth :: int where "MaxMetadataDepth \<equiv> 8"

datatype json_token = OpenObject | CloseObject | OpenArray | CloseArray | Scalar
datatype json_end = EndOfInput | BadInput

text \<open>\<open>decoder.Token\<close> yields the tokens of the document, then the end of input or an error.\<close>

fun withinDepth_from :: "int \<Rightarrow> json_token list \<times> json_end \<Rightarrow> bool" where
  "withinDepth_from depth ([], end) = (end = EndOfInput)"
| "withinDepth_from depth (token # ts, end) =
     (if token = OpenObject \<or> token = OpenArray
      then (if depth + 1 > MaxMetadataDepth then False else withinDepth_from (depth + 1) (ts, end))
      else if token = CloseObject \<or> token = CloseArray then withinDepth_from (depth - 1) (ts, end)
      else withinDepth_from depth (ts, end))"

definition withinDepth :: "json_token list \<times> json_end \<Rightarrow> bool" where
  "withinDepth stream = withinDepth_from 0 stream"

fun contains_text :: "string \<Rightarrow> string \<Rightarrow> bool" where
  "contains_text [] p = (p = [])"
| "contains_text (c # s) p = (HasPrefix (c # s) p \<or> contains_text s p)"

text \<open>The escape sequence the code looks for, backslash \<open>u0000\<close>.\<close>

definition nul_escape :: string where
  "nul_escape = CHR 0x5C # ''u0000''"

text \<open>\<open>decode\<close> is the decoder's first value and whether the input ends after it.\<close>

definition ParseMetadataPatch :: "(string \<Rightarrow> json_token list \<times> json_end) \<Rightarrow>
    (string \<Rightarrow> ((string \<rightharpoonup> string) option \<times> bool) option) \<Rightarrow> string \<Rightarrow> store_error + (string \<rightharpoonup> string)" where
  "ParseMetadataPatch token_stream decode raw =
     (if \<not> withinDepth (token_stream raw) \<or> contains_text raw nul_escape then Inl ErrInvalidMetadata
      else case decode raw of
        Some (Some patch, ends) \<Rightarrow> if ends then Inr patch else Inl ErrInvalidMetadata
      | _ \<Rightarrow> Inl ErrInvalidMetadata)"

definition apply_patch :: "(string \<rightharpoonup> string) \<Rightarrow> (string \<rightharpoonup> string) \<Rightarrow> (string \<rightharpoonup> string)" where
  "apply_patch patch current =
     (\<lambda>key. case patch key of
        None \<Rightarrow> current key
      | Some value \<Rightarrow> if TrimSpace value = ''null'' then None else Some value)"

definition MergeMetadata :: "json_lib \<Rightarrow> string option \<Rightarrow> (string \<rightharpoonup> string) \<Rightarrow> store_error + string" where
  "MergeMetadata json stored patch =
     (let merge = (\<lambda>current.
        case json_marshal json (apply_patch patch current) of
          None \<Rightarrow> Inl ErrJSON
        | Some merged \<Rightarrow>
            (case json_compact json merged of
               None \<Rightarrow> Inl ErrJSON
             | Some packed \<Rightarrow>
                 if length packed > MaxMetadataBytes then Inl ErrMetadataTooLarge else Inr packed))
      in if coalesce stored [] = [] then merge Map.empty
         else case json_unmarshal json (coalesce stored []) of
           None \<Rightarrow> Inl ErrJSON
         | Some None \<Rightarrow> merge Map.empty
         | Some (Some current) \<Rightarrow> merge current)"

definition MetadataObject :: "string option \<Rightarrow> string" where
  "MetadataObject stored =
     (if coalesce stored [] = [] \<or> stored = Some ''null'' then ''{}'' else coalesce stored [])"

section \<open>Account operations\<close>

definition InsertUser :: "sql_env \<Rightarrow> string \<Rightarrow> string \<Rightarrow> string \<Rightarrow> db \<Rightarrow> (int \<times> bool) outcome" where
  "InsertUser env email passwordHash fullName d =
     (if exists_where (\<lambda>i. i_provider i = EmailProvider \<and> i_subject i = AddressKey email) (identities d)
      then (Inr (0, False), d)
      else if exists_where (\<lambda>u. u_email u = Some email) (users d)
      then (Inr (0, False), d\<lparr>next_user := next_user d + 1\<rparr>)
      else (Inr (next_user d, True), insert_user
        \<lparr>u_id = next_user d, u_email = Some email, u_password = Some passwordHash,
         u_full_name = fullName, u_role = ''user'', u_allowed_roles = None, u_enabled = True,
         u_email_verified = False, u_email_verified_at = None, u_is_guest = False,
         u_user_metadata = None, u_app_metadata = None, u_created_at = sql_now env,
         u_last_login_at = None\<rparr> d))"

definition ReplaceUnverified :: "string \<Rightarrow> string \<Rightarrow> string \<Rightarrow> db \<Rightarrow> int outcome" where
  "ReplaceUnverified email passwordHash fullName d =
     (case List.find (\<lambda>u. u_email u = Some email \<and> \<not> u_email_verified u) (users d) of
        None \<Rightarrow> (Inl ErrNotFound, d)
      | Some u \<Rightarrow> (Inr (u_id u),
          d\<lparr>users := update_where (\<lambda>u. u_email u = Some email \<and> \<not> u_email_verified u)
             (\<lambda>u. u\<lparr>u_password := Some passwordHash, u_full_name := fullName\<rparr>) (users d)\<rparr>))"

definition AccountByEmail :: "string \<Rightarrow> db \<Rightarrow> store_error + account" where
  "AccountByEmail email d =
     (case List.find (\<lambda>u. u_email u = Some email) (users d) of
        None \<Rightarrow> Inl ErrNotFound | Some u \<Rightarrow> Inr (account_of u))"

definition AccountByID :: "int \<Rightarrow> db \<Rightarrow> store_error + account" where
  "AccountByID i d = (case user_by_id d i of None \<Rightarrow> Inl ErrNotFound | Some u \<Rightarrow> Inr (account_of u))"

definition TouchLastLogin :: "sql_env \<Rightarrow> int \<Rightarrow> db \<Rightarrow> db" where
  "TouchLastLogin env uid d = update_user uid (\<lambda>u. u\<lparr>u_last_login_at := Some (sql_now env)\<rparr>) d"

definition SetPassword :: "int \<Rightarrow> string \<Rightarrow> db \<Rightarrow> db" where
  "SetPassword uid passwordHash d = update_user uid (\<lambda>u. u\<lparr>u_password := Some passwordHash\<rparr>) d"

definition MarkVerified :: "sql_env \<Rightarrow> int \<Rightarrow> bool \<Rightarrow> string \<Rightarrow> db \<Rightarrow> string outcome" where
  "MarkVerified env uid keepPassword replacement d =
     (case user_by_id d uid of
        None \<Rightarrow> (Inl ErrNotFound, d)
      | Some u0 \<Rightarrow>
          let d1 = update_user uid (\<lambda>u. u\<lparr>u_email_verified := True, u_email_verified_at := Some (sql_now env),
                     u_password := (if keepPassword then u_password u else Some replacement)\<rparr>) d;
              d2 = revoke_where (\<lambda>r. r_user_id r = uid) d1
          in (Inr (coalesce (u_email u0) []), endChangesQuery env uid d2))"

record ManagedUser =
  mu_ID :: int
  mu_Email :: string
  mu_Role :: string
  mu_AllowedRoles :: "string list"
  mu_Enabled :: bool
  mu_EmailVerified :: bool
  mu_IsGuest :: bool

definition scanManagedUser :: "user_row \<Rightarrow> ManagedUser" where
  "scanManagedUser u = \<lparr>mu_ID = u_id u, mu_Email = coalesce (u_email u) [], mu_Role = u_role u,
     mu_AllowedRoles = (case u_allowed_roles u of None \<Rightarrow> [u_role u] | Some rs \<Rightarrow> rs),
     mu_Enabled = u_enabled u, mu_EmailVerified = u_email_verified u, mu_IsGuest = u_is_guest u\<rparr>"

text \<open>\<open>ORDER BY id LIMIT \<dots> OFFSET \<dots>\<close>.\<close>

definition ListUsers :: "nat \<Rightarrow> nat \<Rightarrow> db \<Rightarrow> ManagedUser list" where
  "ListUsers limit offset d = map scanManagedUser (take limit (drop offset (sort_key u_id (users d))))"

record RoleChange =
  rc_UserID :: int
  rc_Role :: string
  rc_Allowed :: "string list"
  rc_Stored :: "string list option"
  rc_Actor :: string

definition ApplyRoleChange :: "sql_env \<Rightarrow> RoleChange \<Rightarrow> db \<Rightarrow> ManagedUser outcome" where
  "ApplyRoleChange env change d =
     (case user_by_id d (rc_UserID change) of
        None \<Rightarrow> (Inl ErrNotFound, d)
      | Some u0 \<Rightarrow>
          let before = scanManagedUser u0;
              d1 = update_user (rc_UserID change)
                     (\<lambda>u. u\<lparr>u_role := rc_Role change, u_allowed_roles := rc_Stored change\<rparr>) d;
              d2 = revoke_where (\<lambda>r. r_user_id r = rc_UserID change) d1;
              d3 = endChangesQuery env (rc_UserID change) d2;
              d4 = d3\<lparr>role_changes := role_changes d3 @
                     [\<lparr>e_user_id = rc_UserID change, e_old_role = mu_Role before, e_new_role = rc_Role change,
                       e_old_allowed_roles = mu_AllowedRoles before, e_new_allowed_roles = rc_Allowed change,
                       e_actor = rc_Actor change, e_changed_at = sql_now env\<rparr>]\<rparr>
          in (Inr (before\<lparr>mu_Role := rc_Role change, mu_AllowedRoles := rc_Allowed change\<rparr>), d4))"

section \<open>Profile, password and deletion\<close>

record account_profile =
  pr_Account :: account
  pr_UserMetadata :: string
  pr_AppMetadata :: string
  pr_CreatedAt :: time
  pr_LastLoginAt :: "time option"

record ProfileChange =
  pc_FullName :: "string option"
  pc_UserMetadata :: "(string \<rightharpoonup> string) option"
  pc_AppMetadata :: "(string \<rightharpoonup> string) option"

definition scanProfile :: "user_row \<Rightarrow> account_profile" where
  "scanProfile u = \<lparr>pr_Account = account_of u, pr_UserMetadata = MetadataObject (u_user_metadata u),
     pr_AppMetadata = MetadataObject (u_app_metadata u), pr_CreatedAt = u_created_at u,
     pr_LastLoginAt = u_last_login_at u\<rparr>"

definition Profile :: "int \<Rightarrow> db \<Rightarrow> store_error + account_profile" where
  "Profile uid d = (case user_by_id d uid of None \<Rightarrow> Inl ErrNotFound | Some u \<Rightarrow> Inr (scanProfile u))"

definition mergeIfPatched :: "json_lib \<Rightarrow> string option \<Rightarrow> (string \<rightharpoonup> string) option \<Rightarrow> store_error + string option" where
  "mergeIfPatched json stored patch =
     (case patch of
        None \<Rightarrow> Inr stored
      | Some p \<Rightarrow> (case MergeMetadata json stored p of Inl e \<Rightarrow> Inl e | Inr text \<Rightarrow> Inr (Some text)))"

definition UpdateProfile :: "json_lib \<Rightarrow> int \<Rightarrow> ProfileChange \<Rightarrow> db \<Rightarrow> account_profile outcome" where
  "UpdateProfile json uid change d =
     (case user_by_id d uid of
        None \<Rightarrow> (Inl ErrNotFound, d)
      | Some u0 \<Rightarrow>
          case mergeIfPatched json (u_user_metadata u0) (pc_UserMetadata change) of
            Inl e \<Rightarrow> (Inl e, d)
          | Inr user \<Rightarrow>
              (case mergeIfPatched json (u_app_metadata u0) (pc_AppMetadata change) of
                 Inl e \<Rightarrow> (Inl e, d)
               | Inr app \<Rightarrow>
                   let d1 = update_user uid (\<lambda>u. u\<lparr>u_full_name := coalesce (pc_FullName change) (u_full_name u),
                              u_user_metadata := map_option (jsonb_text json) user,
                              u_app_metadata := map_option (jsonb_text json) app\<rparr>) d
                   in (case Profile uid d1 of Inl e \<Rightarrow> (Inl e, d) | Inr profile \<Rightarrow> (Inr profile, d1))))"

text \<open>\<open>tokenTables[kind].invalidate\<close>.\<close>

definition spend_links_of :: "sql_env \<Rightarrow> int \<Rightarrow> token_row list \<Rightarrow> token_row list" where
  "spend_links_of env uid t = update_where (\<lambda>r. t_user_id r = uid \<and> t_consumed_at r = None)
     (\<lambda>r. r\<lparr>t_consumed_at := Some (sql_now env)\<rparr>) t"

definition ChangePassword :: "sql_env \<Rightarrow> int \<Rightarrow> string \<Rightarrow> db \<Rightarrow> unit outcome" where
  "ChangePassword env uid passwordHash d =
     (let d1 = update_user uid (\<lambda>u. u\<lparr>u_password := Some passwordHash\<rparr>) d in
      if uid \<notin> set (user_ids d) then (Inl ErrNotFound, d)
      else let d2 = endSessionsAndLinks env uid d1
           in (Inr (), d2\<lparr>password_reset_tokens := spend_links_of env uid (password_reset_tokens d2)\<rparr>))"

definition DeleteUser :: "sql_env \<Rightarrow> int \<Rightarrow> db \<Rightarrow> unit outcome" where
  "DeleteUser env uid d =
     (case delete_users env [uid] d of
        (Inl e, d') \<Rightarrow> (Inl e, d')
      | (Inr n, d') \<Rightarrow> if n = 0 then (Inl ErrNotFound, d') else (Inr (), d'))"

section \<open>Integrity is kept\<close>

lemma wf_InsertUser: "wf_db d \<Longrightarrow> wf_db (snd (InsertUser env email p n d))"
proof -
  assume wf: "wf_db d"
  have "wf_db (d\<lparr>next_user := next_user d + 1\<rparr>)"
    using wf by (auto simp: wf_db_def wf_defs)
  moreover have "wf_db (insert_user u d)"
    if "u_id u = next_user d" "u_email u = Some email" "\<not> exists_where (\<lambda>u. u_email u = Some email) (users d)" for u
    using wf that by (intro wf_insert_user) (auto simp: exists_where_iff)
  ultimately show ?thesis using wf by (simp add: InsertUser_def)
qed

lemma wf_update_users [simp]:
  assumes "\<And>u. u_id (f u) = u_id u" "\<And>u. u_email (f u) = u_email u"
  shows "wf_db (d\<lparr>users := update_where P f (users d)\<rparr>) = wf_db d"
  by (rule wf_user_ids_cong)
    (simp_all add: assms user_ids_def wf_users_def map_update_where unique_on_update unique_some_update
      ball_update_where)

lemma wf_ReplaceUnverified: "wf_db d \<Longrightarrow> wf_db (snd (ReplaceUnverified email p n d))"
  by (simp add: ReplaceUnverified_def split: option.split)

lemma wf_TouchLastLogin [simp]: "wf_db (TouchLastLogin env uid d) = wf_db d"
  by (simp add: TouchLastLogin_def)

lemma wf_SetPassword [simp]: "wf_db (SetPassword uid p d) = wf_db d"
  by (simp add: SetPassword_def)

lemma wf_MarkVerified: "wf_db d \<Longrightarrow> wf_db (snd (MarkVerified env uid keep p d))"
  by (simp add: MarkVerified_def Let_def split: option.split)

lemma wf_role_log:
  assumes "wf_db d" "e_user_id e \<in> set (user_ids d)"
  shows "wf_db (d\<lparr>role_changes := role_changes d @ [e]\<rparr>)"
  using assms by (simp add: wf_db_def wf_defs)

lemma user_ids_ending [simp]:
  "user_ids (revoke_where P d) = user_ids d" "user_ids (endChangesQuery env uid d) = user_ids d"
  "user_ids (endSessionsAndLinks env uid d) = user_ids d"
  by (simp_all add: user_ids_def revoke_where_def endChangesQuery_def endSessionsAndLinks_def Let_def)

lemma wf_ApplyRoleChange:
  assumes "wf_db d"
  shows "wf_db (snd (ApplyRoleChange env change d))"
proof (cases "user_by_id d (rc_UserID change)")
  case (Some u)
  then have "rc_UserID change \<in> set (user_ids d)"
    using user_by_id_None [of d "rc_UserID change"] by simp
  then show ?thesis
    using assms Some by (simp add: ApplyRoleChange_def Let_def wf_role_log user_ids_update)
qed (simp add: ApplyRoleChange_def assms)

lemma wf_UpdateProfile: "wf_db d \<Longrightarrow> wf_db (snd (UpdateProfile json uid change d))"
  by (simp add: UpdateProfile_def Let_def split: option.split sum.split)

lemma wf_spend_links [simp]:
  "wf_db (d\<lparr>password_reset_tokens := spend_links_of env uid (password_reset_tokens d)\<rparr>) = wf_db d"
  "wf_db (d\<lparr>email_verification_tokens := spend_links_of env uid (email_verification_tokens d)\<rparr>) = wf_db d"
  by (auto simp: wf_db_def wf_defs spend_links_of_def unique_on_update refers_update ball_update_where)

lemma wf_ChangePassword: "wf_db d \<Longrightarrow> wf_db (snd (ChangePassword env uid p d))"
  by (simp add: ChangePassword_def Let_def wf_endSessionsAndLinks)

lemma wf_DeleteUser: "wf_db d \<Longrightarrow> wf_db (snd (DeleteUser env uid d))"
  using delete_users_wf [of d env "[uid]"] by (auto simp: DeleteUser_def split: prod.splits sum.splits)

section \<open>Properties\<close>

lemma find_email_unique:
  assumes "wf_users d" "u \<in> set (users d)" "u_email u = Some e"
  shows "List.find (\<lambda>u. u_email u = Some e) (users d) = Some u"
proof -
  have "List.find (\<lambda>u. u_email u = Some e) (users d) \<noteq> None" using assms by (auto simp: find_None_iff)
  then obtain u' where u': "List.find (\<lambda>u. u_email u = Some e) (users d) = Some u'" by auto
  moreover have "u' = u"
    using find_Some_mem [OF u'] assms by (auto simp: wf_users_def intro: unique_some_eq)
  ultimately show ?thesis by simp
qed

text \<open>A sign-up either creates one account or changes no account. It creates one exactly when
  no account holds the address and no account has linked it; the new account has a fresh id, is
  enabled, unverified, has the role \<open>user\<close> and the given password, and is what a look-up of the
  address returns; every other account reads as before.\<close>

theorem sign_up_creates_fresh_account:
  assumes "wf_db d" "InsertUser env email passwordHash fullName d = (res, d')"
  shows "(\<exists>i. res = Inr (i, True) \<and> i \<notin> set (user_ids d) \<and>
      AccountByEmail email d' = Inr \<lparr>a_ID = i, a_Email = email, a_PasswordHash = passwordHash,
        a_FullName = fullName, a_Role = ''user'', a_AllowedRoles = None, a_Enabled = True,
        a_EmailVerified = False, a_IsGuest = False\<rparr> \<and>
      (\<forall>j. j \<noteq> i \<longrightarrow> AccountByID j d' = AccountByID j d) \<and>
      AccountByEmail email d = Inl ErrNotFound \<and>
      \<not> (\<exists>x \<in> set (identities d). i_provider x = EmailProvider \<and> i_subject x = AddressKey email))
    \<or> (res = Inr (0, False) \<and> users d' = users d \<and>
      (AccountByEmail email d \<noteq> Inl ErrNotFound \<or>
       (\<exists>x \<in> set (identities d). i_provider x = EmailProvider \<and> i_subject x = AddressKey email)))"
proof (cases "exists_where (\<lambda>i. i_provider i = EmailProvider \<and> i_subject i = AddressKey email) (identities d)
    \<or> exists_where (\<lambda>u. u_email u = Some email) (users d)")
  case True
  then have "res = Inr (0, False) \<and> users d' = users d"
    using assms(2) by (auto simp: InsertUser_def split: if_splits)
  moreover have "AccountByEmail email d \<noteq> Inl ErrNotFound \<or>
      (\<exists>x \<in> set (identities d). i_provider x = EmailProvider \<and> i_subject x = AddressKey email)"
    using True by (auto simp: AccountByEmail_def exists_where_iff find_None_iff split: option.split)
  ultimately show ?thesis by blast
next
  case False
  let ?u = "\<lparr>u_id = next_user d, u_email = Some email, u_password = Some passwordHash,
         u_full_name = fullName, u_role = ''user'', u_allowed_roles = None, u_enabled = True,
         u_email_verified = False, u_email_verified_at = None, u_is_guest = False,
         u_user_metadata = None, u_app_metadata = None, u_created_at = sql_now env,
         u_last_login_at = None\<rparr>"
  have d': "d' = insert_user ?u d" and res: "res = Inr (next_user d, True)"
    using False assms(2) by (auto simp: InsertUser_def)
  have fresh: "next_user d \<notin> set (user_ids d)"
    using assms(1) by (auto simp: wf_db_def wf_users_def user_ids_def)
  have none: "List.find (\<lambda>u. u_email u = Some email) (users d) = None"
    using False by (auto simp: find_None_iff exists_where_iff)
  have "wf_db d'" using wf_InsertUser [OF assms(1), of env email passwordHash fullName] assms(2) by simp
  then have "List.find (\<lambda>u. u_email u = Some email) (users d') = Some ?u"
    by (intro find_email_unique) (simp_all add: wf_db_def d' insert_user_def)
  then have "AccountByEmail email d' = Inr (account_of ?u)" by (simp add: AccountByEmail_def)
  moreover have "AccountByID j d' = AccountByID j d" if "j \<noteq> next_user d" for j
    using that by (simp add: AccountByID_def user_by_id_def d' insert_user_def find_append split: option.split)
  ultimately show ?thesis
    using False none fresh res
    by (auto simp: AccountByEmail_def account_of_def coalesce_def exists_where_iff)
qed

theorem sign_up_creates_fresh_account_witness:
  "wf_db sample_db \<and> fst (InsertUser sample_env ''n@b.c'' ''p'' ''N'' sample_db) = Inr (2, True) \<and>
   AccountByEmail ''n@b.c'' (snd (InsertUser sample_env ''n@b.c'' ''p'' ''N'' sample_db)) \<noteq> Inl ErrNotFound"
proof -
  have r: "fst (InsertUser sample_env ''n@b.c'' ''p'' ''N'' sample_db) = Inr (2, True)"
    by (simp add: InsertUser_def sample_defs exists_where_def)
  from sign_up_creates_fresh_account [OF wf_sample_db prod.collapse [symmetric],
      of sample_env "''n@b.c''" "''p''" "''N''"] r wf_sample_db
  show ?thesis by auto
qed

text \<open>Signing up again at an address replaces the password and the name of an account only
  while its address is unproven: a verified account keeps every field, whatever is sent. When it
  succeeds, exactly the account holding the address changed, and it now has the given password.\<close>

theorem re_sign_up_spares_verified:
  assumes "wf_db d" "ReplaceUnverified email passwordHash fullName d = (res, d')" "u \<in> set (users d)"
  shows "user_by_id d' (u_id u) = Some
    (if u_email u = Some email \<and> \<not> u_email_verified u
     then u\<lparr>u_password := Some passwordHash, u_full_name := fullName\<rparr> else u) \<and>
    (u_email u = Some email \<longrightarrow> res = (if u_email_verified u then Inl ErrNotFound else Inr (u_id u)))"
proof -
  let ?P = "\<lambda>u. u_email u = Some email \<and> \<not> u_email_verified u"
  let ?f = "\<lambda>u. u\<lparr>u_password := Some passwordHash, u_full_name := fullName\<rparr>"
  have wf: "wf_users d" using assms(1) by (simp add: wf_db_def)
  have users: "users d' = update_where ?P ?f (users d)"
    using assms(2) by (auto simp: ReplaceUnverified_def update_where_def find_None_iff
        split: option.splits intro!: map_idI [symmetric])
  have wf': "wf_users d'"
    using wf_ReplaceUnverified [OF assms(1), of email passwordHash fullName] assms(2) by (simp add: wf_db_def)
  have mem: "(if ?P u then ?f u else u) \<in> set (users d')"
    using assms(3) by (auto simp: users set_update_where)
  have "user_by_id d' (u_id (if ?P u then ?f u else u)) = Some (if ?P u then ?f u else u)"
    using wf' mem by (rule user_by_id_eq)
  then have "user_by_id d' (u_id u) = Some (if ?P u then ?f u else u)" by (cases "?P u") auto
  moreover have "res = (if u_email_verified u then Inl ErrNotFound else Inr (u_id u))" if e: "u_email u = Some email"
  proof -
    have only: "v = u" if "v \<in> set (users d)" "u_email v = Some email" for v
      using wf that assms(3) e by (auto simp: wf_users_def intro: unique_some_eq)
    show ?thesis
    proof (cases "List.find ?P (users d)")
      case None
      then have "u_email_verified u" using assms(3) e by (auto simp: find_None_iff)
      then show ?thesis using assms(2) None by (simp add: ReplaceUnverified_def)
    next
      case (Some v)
      then have "v = u" "\<not> u_email_verified u" using find_Some_mem [OF Some] only by auto
      then show ?thesis using assms(2) Some by (auto simp: ReplaceUnverified_def)
    qed
  qed
  ultimately show ?thesis by blast
qed

theorem re_sign_up_spares_verified_witness:
  "wf_db sample_db \<and> sample_user \<in> set (users sample_db) \<and>
   user_by_id (snd (ReplaceUnverified ''a@b.c'' ''evil'' ''E'' sample_db)) 1 = Some sample_user"
  using re_sign_up_spares_verified [OF wf_sample_db prod.collapse [symmetric], of sample_user "''a@b.c''" "''evil''" "''E''"]
    wf_sample_db by (simp add: sample_defs)

text \<open>A password change takes the account out of every attacker's hands: it sets the password,
  refuses every refresh token the account had, leaves no pending address change and no live reset
  link, sign-in code or link flow of the account, and answers other accounts' tokens as before. It
  reports an unknown account and then changes nothing.\<close>

theorem change_password_ends_every_session:
  assumes "wf_db d" "ChangePassword env uid passwordHash d = (res, d')"
  shows "case user_by_id d uid of
      None \<Rightarrow> res = Inl ErrNotFound \<and> d' = d
    | Some u \<Rightarrow> res = Inr () \<and> user_by_id d' uid = Some (u\<lparr>u_password := Some passwordHash\<rparr>) \<and>
        (\<forall>r \<in> set (refresh_tokens d). \<forall>env' successor shape. r_user_id r = uid \<longrightarrow>
           fst (rotate env' (r_token_hash r) successor shape d') = Inl ErrNotFound) \<and>
        (\<forall>r \<in> set (refresh_tokens d'). r_user_id r = uid \<longrightarrow> r_revoked r) \<and>
        filter (\<lambda>r. r_user_id r \<noteq> uid) (refresh_tokens d') = filter (\<lambda>r. r_user_id r \<noteq> uid) (refresh_tokens d) \<and>
        (\<forall>t \<in> set (password_reset_tokens d'). t_user_id t = uid \<longrightarrow> t_consumed_at t \<noteq> None) \<and>
        (\<forall>g \<in> set (email_change_tokens d'). g_user_id g = uid \<longrightarrow> g_consumed_at g \<noteq> None) \<and>
        (\<forall>f \<in> set (flow_states d'). f_link_user_id f \<noteq> Some uid) \<and>
        (\<forall>j. j \<noteq> uid \<longrightarrow> user_by_id d' j = user_by_id d j)"
proof (cases "user_by_id d uid")
  case None
  then show ?thesis using assms(2) user_by_id_None [of d uid] by (simp add: ChangePassword_def)
next
  case (Some u)
  let ?d1 = "update_user uid (\<lambda>u. u\<lparr>u_password := Some passwordHash\<rparr>) d"
  have known: "uid \<in> set (user_ids d)" using Some user_by_id_None [of d uid] by simp
  have d': "res = Inr ()" "users d' = users ?d1" "refresh_tokens d' = refresh_tokens (revoke_where (\<lambda>r. r_user_id r = uid) ?d1)"
    using assms(2) known by (auto simp: ChangePassword_def Let_def endSessionsAndLinks_def endChangesQuery_def revoke_where_def)
  have byid: "user_by_id d' j = user_by_id ?d1 j" for j by (simp add: user_by_id_def d')
  have wf1: "wf_db ?d1" using assms(1) by simp
  have dead: "fst (rotate env' (r_token_hash r) successor shape d') = Inl ErrNotFound"
    if "r \<in> set (refresh_tokens d)" "r_user_id r = uid" for r env' successor shape
    using rotate_after_revoke [OF wf1, of r d' "\<lambda>r. r_user_id r = uid" env' successor shape] d' that by simp
  have rev: "\<forall>r \<in> set (refresh_tokens d'). r_user_id r = uid \<longrightarrow> r_revoked r"
    by (simp add: d' revoke_where_def ball_update_where)
  have others: "filter (\<lambda>r. r_user_id r \<noteq> uid) (refresh_tokens d') = filter (\<lambda>r. r_user_id r \<noteq> uid) (refresh_tokens d)"
    unfolding d' revoke_where_def by (simp, rule filter_update_where) simp
  have "password_reset_tokens d' = spend_links_of env uid (password_reset_tokens d)"
    "email_change_tokens d' = email_change_tokens (endChangesQuery env uid d)"
    using assms(2) known
    by (auto simp: ChangePassword_def Let_def endSessionsAndLinks_def endChangesQuery_def revoke_where_def)
  then have links: "\<forall>t \<in> set (password_reset_tokens d'). t_user_id t = uid \<longrightarrow> t_consumed_at t \<noteq> None"
    and changes: "\<forall>g \<in> set (email_change_tokens d'). g_user_id g = uid \<longrightarrow> g_consumed_at g \<noteq> None"
    by (simp_all add: spend_links_of_def endChangesQuery_def ball_update_where)
  have flows: "f_link_user_id f \<noteq> Some uid" if "f \<in> set (flow_states d')" for f
    using that assms(2) known
    by (auto simp: ChangePassword_def Let_def endSessionsAndLinks_def endChangesQuery_def)
  show ?thesis
    using Some d'(1) dead rev others links changes flows by (simp add: byid user_by_id_update)
qed

theorem change_password_ends_every_session_witness:
  "wf_db sample_db \<and> user_by_id sample_db 1 = Some sample_user \<and>
   user_by_id (snd (ChangePassword sample_env 1 ''new'' sample_db)) 1 = Some (sample_user\<lparr>u_password := Some ''new''\<rparr>)"
proof -
  have "user_by_id sample_db 1 = Some sample_user" by (simp add: user_by_id_def sample_defs)
  with change_password_ends_every_session [OF wf_sample_db prod.collapse [symmetric], of sample_env 1 "''new''"] wf_sample_db
  show ?thesis by simp
qed



text \<open>Every change of an account's roles is recorded and takes effect at once: one row is added
  to the role log, naming the actor, the roles before (the single role when no list was stored) and
  the roles after; the account has the new roles; and no refresh token minted under the old ones can
  be used again. An unknown account is refused with nothing changed.\<close>

theorem role_change_logged_and_ends_sessions:
  assumes "wf_db d" "ApplyRoleChange env change d = (res, d')"
  shows "case user_by_id d (rc_UserID change) of
      None \<Rightarrow> res = Inl ErrNotFound \<and> d' = d
    | Some u \<Rightarrow>
        res = Inr ((scanManagedUser u)\<lparr>mu_Role := rc_Role change, mu_AllowedRoles := rc_Allowed change\<rparr>) \<and>
        user_by_id d' (rc_UserID change) = Some (u\<lparr>u_role := rc_Role change, u_allowed_roles := rc_Stored change\<rparr>) \<and>
        role_changes d' = role_changes d @
          [\<lparr>e_user_id = rc_UserID change, e_old_role = u_role u, e_new_role = rc_Role change,
            e_old_allowed_roles = (case u_allowed_roles u of None \<Rightarrow> [u_role u] | Some rs \<Rightarrow> rs),
            e_new_allowed_roles = rc_Allowed change, e_actor = rc_Actor change, e_changed_at = sql_now env\<rparr>] \<and>
        (\<forall>r \<in> set (refresh_tokens d). \<forall>env' successor shape. r_user_id r = rc_UserID change \<longrightarrow>
           fst (rotate env' (r_token_hash r) successor shape d') = Inl ErrNotFound)"
proof (cases "user_by_id d (rc_UserID change)")
  case None
  then show ?thesis using assms(2) by (simp add: ApplyRoleChange_def)
next
  case (Some u)
  let ?uid = "rc_UserID change"
  let ?d1 = "update_user ?uid (\<lambda>u. u\<lparr>u_role := rc_Role change, u_allowed_roles := rc_Stored change\<rparr>) d"
  have d': "users d' = users ?d1" "refresh_tokens d' = refresh_tokens (revoke_where (\<lambda>r. r_user_id r = ?uid) ?d1)"
    using assms(2) Some by (auto simp: ApplyRoleChange_def Let_def endChangesQuery_def revoke_where_def)
  have "user_by_id d' ?uid = user_by_id ?d1 ?uid" by (simp add: user_by_id_def d')
  then have row: "user_by_id d' ?uid = Some (u\<lparr>u_role := rc_Role change, u_allowed_roles := rc_Stored change\<rparr>)"
    by (simp add: user_by_id_update Some)
  have "wf_db ?d1" using assms(1) by simp
  then have dead: "fst (rotate env' (r_token_hash r) successor shape d') = Inl ErrNotFound"
    if "r \<in> set (refresh_tokens d)" "r_user_id r = ?uid" for r env' successor shape
    using rotate_after_revoke [of ?d1 r d' "\<lambda>r. r_user_id r = ?uid" env' successor shape] d' that by simp
  show ?thesis
    using assms(2) Some row dead
    by (auto simp: ApplyRoleChange_def Let_def endChangesQuery_def revoke_where_def scanManagedUser_def)
qed

theorem role_change_logged_and_ends_sessions_witness:
  "wf_db sample_db \<and> user_by_id sample_db 1 = Some sample_user \<and>
   role_changes (snd (ApplyRoleChange sample_env \<lparr>rc_UserID = 1, rc_Role = ''admin'', rc_Allowed = [''admin''],
     rc_Stored = None, rc_Actor = ''studio:7''\<rparr> sample_db)) =
     [\<lparr>e_user_id = 1, e_old_role = ''user'', e_new_role = ''admin'', e_old_allowed_roles = [''user''],
       e_new_allowed_roles = [''admin''], e_actor = ''studio:7'', e_changed_at = 100\<rparr>]"
proof -
  have u: "user_by_id sample_db 1 = Some sample_user" by (simp add: user_by_id_def sample_defs)
  show ?thesis
    using role_change_logged_and_ends_sessions [OF wf_sample_db prod.collapse [symmetric], of sample_env
        "\<lparr>rc_UserID = 1, rc_Role = ''admin'', rc_Allowed = [''admin''], rc_Stored = None, rc_Actor = ''studio:7''\<rparr>"]
      u wf_sample_db by (simp add: sample_defs)
qed

end
