(* ===== verification/PgTokens.thy ===== *)
theory PgTokens
  imports PgAccounts
begin

text \<open>
  Mailed links and API keys in \<open>internal/store/pgstore/pgstore.go\<close>: one table of links per
  kind with a fixed set of statements, and the project's keys.
\<close>

section \<open>Links\<close>

record SingleUseToken =
  RowID :: int
  LinkUserID :: int
  LinkHash :: string
  ConfirmsPassword :: bool

definition link_table :: "TokenKind \<Rightarrow> db \<Rightarrow> token_row list" where
  "link_table kind d =
     (case kind of EmailVerification \<Rightarrow> email_verification_tokens d | PasswordReset \<Rightarrow> password_reset_tokens d)"

definition set_link_table :: "TokenKind \<Rightarrow> token_row list \<Rightarrow> db \<Rightarrow> db" where
  "set_link_table kind t d =
     (case kind of EmailVerification \<Rightarrow> d\<lparr>email_verification_tokens := t\<rparr>
      | PasswordReset \<Rightarrow> d\<lparr>password_reset_tokens := t\<rparr>)"

definition next_link :: "TokenKind \<Rightarrow> db \<Rightarrow> int" where
  "next_link kind d = (case kind of EmailVerification \<Rightarrow> next_verification d | PasswordReset \<Rightarrow> next_reset d)"

definition draw_link_id :: "TokenKind \<Rightarrow> db \<Rightarrow> db" where
  "draw_link_id kind d =
     (case kind of EmailVerification \<Rightarrow> d\<lparr>next_verification := next_verification d + 1\<rparr>
      | PasswordReset \<Rightarrow> d\<lparr>next_reset := next_reset d + 1\<rparr>)"

text \<open>
  Two statements, not one transaction: outstanding links are spent first, and stay spent when
  the \<open>INSERT\<close> is refused. A reset link confirms no password.
\<close>

definition IssueToken :: "sql_env \<Rightarrow> TokenKind \<Rightarrow> int \<Rightarrow> string \<Rightarrow> time \<Rightarrow> bool \<Rightarrow> db \<Rightarrow> unit outcome" where
  "IssueToken env kind uid hash expiresAt confirmsPassword d =
     (let d1 = set_link_table kind (spend_links_of env uid (link_table kind d)) d;
          d2 = draw_link_id kind d1
      in if exists_where (\<lambda>t. t_token_hash t = hash) (link_table kind d1) \<or> uid \<notin> set (user_ids d1)
         then (Inl ErrConstraint, d2)
         else (Inr (), set_link_table kind (link_table kind d1 @
           [\<lparr>t_id = next_link kind d1, t_token_hash = hash, t_user_id = uid, t_expires_at = expiresAt,
             t_consumed_at = None, t_confirms_password = (kind = EmailVerification \<and> confirmsPassword)\<rparr>]) d2))"

definition live_link :: "sql_env \<Rightarrow> string \<Rightarrow> token_row \<Rightarrow> bool" where
  "live_link env hash t = (t_token_hash t = hash \<and> t_consumed_at t = None \<and> t_expires_at t > sql_now env)"

definition LookupToken :: "sql_env \<Rightarrow> TokenKind \<Rightarrow> string \<Rightarrow> db \<Rightarrow> store_error + SingleUseToken" where
  "LookupToken env kind hash d =
     (case List.find (live_link env hash) (link_table kind d) of
        None \<Rightarrow> Inl ErrNotFound
      | Some t \<Rightarrow> Inr \<lparr>RowID = t_id t, LinkUserID = t_user_id t, LinkHash = t_token_hash t,
          ConfirmsPassword = (kind = EmailVerification \<and> t_confirms_password t)\<rparr>)"

definition ClaimToken :: "sql_env \<Rightarrow> TokenKind \<Rightarrow> int \<Rightarrow> db \<Rightarrow> bool \<times> db" where
  "ClaimToken env kind rowID d =
     (let hit = (\<lambda>t. t_id t = rowID \<and> t_consumed_at t = None) in
      (count_where hit (link_table kind d) = 1,
       set_link_table kind (update_where hit (\<lambda>t. t\<lparr>t_consumed_at := Some (sql_now env)\<rparr>) (link_table kind d)) d))"

section \<open>API keys\<close>

record APIKey =
  key_ID :: int
  key_Type :: string
  key_CreatedBy :: "int option"

record APIKeyListing =
  kl_ID :: int
  kl_Prefix :: string
  kl_Type :: string
  kl_Name :: string
  kl_CreatedAt :: time
  kl_LastUsedAt :: "time option"

definition CreateAPIKey :: "sql_env \<Rightarrow> string \<Rightarrow> string \<Rightarrow> string \<Rightarrow> string \<Rightarrow> db \<Rightarrow> (int \<times> time) outcome" where
  "CreateAPIKey env hash prefix keyType name d =
     (let d1 = d\<lparr>next_key := next_key d + 1\<rparr> in
      if keyType \<notin> {''publishable'', ''secret''} \<or> exists_where (\<lambda>k. k_key_hash k = hash) (api_keys d)
      then (Inl ErrConstraint, d1)
      else (Inr (next_key d, sql_now env), d1\<lparr>api_keys := api_keys d @
        [\<lparr>k_id = next_key d, k_key_hash = hash, k_key_prefix = prefix, k_key_type = keyType, k_name = name,
          k_created_by = None, k_created_at = sql_now env, k_last_used_at = None, k_revoked_at = None\<rparr>]\<rparr>))"

text \<open>\<open>ORDER BY created_at DESC\<close>; the order of keys made at the same instant is the database's.\<close>

definition ListAPIKeys :: "db \<Rightarrow> APIKeyListing list" where
  "ListAPIKeys d = map (\<lambda>k. \<lparr>kl_ID = k_id k, kl_Prefix = k_key_prefix k, kl_Type = k_key_type k,
       kl_Name = k_name k, kl_CreatedAt = k_created_at k, kl_LastUsedAt = k_last_used_at k\<rparr>)
     (rev (sort_key k_created_at (filter (\<lambda>k. k_revoked_at k = None) (api_keys d))))"

definition RevokeAPIKey :: "sql_env \<Rightarrow> int \<Rightarrow> db \<Rightarrow> bool \<times> db" where
  "RevokeAPIKey env i d =
     (let hit = (\<lambda>k. k_id k = i \<and> k_revoked_at k = None) in
      (count_where hit (api_keys d) > 0,
       d\<lparr>api_keys := update_where hit (\<lambda>k. k\<lparr>k_revoked_at := Some (sql_now env)\<rparr>) (api_keys d)\<rparr>))"

definition APIKeyByHash :: "string \<Rightarrow> db \<Rightarrow> store_error + APIKey" where
  "APIKeyByHash hash d =
     (case List.find (\<lambda>k. k_key_hash k = hash \<and> k_revoked_at k = None) (api_keys d) of
        None \<Rightarrow> Inl ErrNotFound
      | Some k \<Rightarrow> Inr \<lparr>key_ID = k_id k, key_Type = k_key_type k, key_CreatedBy = k_created_by k\<rparr>)"

definition TouchAPIKey :: "sql_env \<Rightarrow> int \<Rightarrow> db \<Rightarrow> db" where
  "TouchAPIKey env i d =
     d\<lparr>api_keys := update_where (\<lambda>k. k_id k = i) (\<lambda>k. k\<lparr>k_last_used_at := Some (sql_now env)\<rparr>) (api_keys d)\<rparr>"

section \<open>Integrity is kept\<close>

lemma link_table_set [simp]: "link_table kind (set_link_table kind t d) = t"
  "link_table kind (draw_link_id k d) = link_table kind d"
  "user_ids (set_link_table kind t d) = user_ids d" "user_ids (draw_link_id kind d) = user_ids d"
  "set_link_table kind t (set_link_table kind t' d) = set_link_table kind t d"
  by (cases kind; simp add: link_table_def set_link_table_def draw_link_id_def user_ids_def split: TokenKind.split)+

definition wf_link_table :: "TokenKind \<Rightarrow> db \<Rightarrow> token_row list \<Rightarrow> bool" where
  "wf_link_table kind d t \<longleftrightarrow> unique_on t_id t \<and> unique_on t_token_hash t \<and>
     (\<forall>r \<in> set t. t_id r < next_link kind d) \<and> refers (\<lambda>r. Some (t_user_id r)) (user_ids d) t"

lemma wf_link_table: "wf_db d \<Longrightarrow> wf_link_table kind d (link_table kind d)"
  by (cases kind) (simp_all add: wf_db_def wf_links_def wf_link_table_def link_table_def next_link_def)

lemma wf_set_link_table: "wf_db d \<Longrightarrow> wf_link_table kind d t \<Longrightarrow> wf_db (set_link_table kind t d)"
  by (cases kind) (simp_all add: wf_db_def wf_defs wf_link_table_def set_link_table_def next_link_def)

lemma wf_draw_link_id: "wf_db d \<Longrightarrow> wf_db (draw_link_id kind d)"
  by (cases kind) (force simp: wf_db_def wf_defs draw_link_id_def)+

lemma wf_link_update:
  assumes "wf_link_table kind d t"
    "\<And>r. t_id (f r) = t_id r" "\<And>r. t_token_hash (f r) = t_token_hash r" "\<And>r. t_user_id (f r) = t_user_id r"
  shows "wf_link_table kind d (update_where P f t)"
  using assms by (simp add: wf_link_table_def unique_on_update refers_update ball_update_where)

lemma wf_spend: "wf_db d \<Longrightarrow> wf_db (set_link_table kind (spend_links_of env uid (link_table kind d)) d)"
  unfolding spend_links_of_def by (intro wf_set_link_table wf_link_update wf_link_table) simp_all

lemma next_link_simps [simp]: "next_link kind (draw_link_id kind d) = next_link kind d + 1"
  "next_link kind (set_link_table kind' t d) = next_link kind d"
  by (cases kind; cases kind'; simp add: next_link_def draw_link_id_def set_link_table_def)+

lemma wf_IssueToken:
  assumes "wf_db d"
  shows "wf_db (snd (IssueToken env kind uid hash expiresAt confirms d))"
proof -
  let ?d1 = "set_link_table kind (spend_links_of env uid (link_table kind d)) d"
  have wf1: "wf_db ?d1" using assms by (rule wf_spend)
  note wf2 = wf_draw_link_id [OF wf1, of kind]
  have "wf_link_table kind (draw_link_id kind ?d1) (link_table kind ?d1 @ [r])"
    if "t_id r = next_link kind ?d1" "t_token_hash r = hash" "t_user_id r = uid"
      "hash \<notin> t_token_hash ` set (link_table kind ?d1)" "uid \<in> set (user_ids ?d1)" for r
    using wf_link_table [OF wf1, of kind] that
    by (force simp: wf_link_table_def unique_on_append)
  then show ?thesis
    using wf2 by (auto simp: IssueToken_def Let_def exists_where_key [where k = t_token_hash]
        intro!: wf_set_link_table)
qed

lemma wf_ClaimToken: "wf_db d \<Longrightarrow> wf_db (snd (ClaimToken env kind rowID d))"
  unfolding ClaimToken_def Let_def snd_conv
  by (intro wf_set_link_table wf_link_update wf_link_table) simp_all

lemma wf_CreateAPIKey: "wf_db d \<Longrightarrow> wf_db (snd (CreateAPIKey env hash prefix keyType name d))"
  by (auto simp: CreateAPIKey_def Let_def wf_db_def wf_defs unique_on_append
      exists_where_key [where k = k_key_hash] less_SucI; force)

lemma wf_update_keys:
  assumes "\<And>k. k_id (f k) = k_id k" "\<And>k. k_key_hash (f k) = k_key_hash k" "\<And>k. k_created_by (f k) = k_created_by k"
  shows "wf_db d \<Longrightarrow> wf_db (d\<lparr>api_keys := update_where P f (api_keys d)\<rparr>)"
  using assms by (simp add: wf_db_def wf_defs unique_on_update refers_update ball_update_where)

lemma wf_RevokeAPIKey: "wf_db d \<Longrightarrow> wf_db (snd (RevokeAPIKey env i d))"
  by (simp add: RevokeAPIKey_def Let_def wf_update_keys)

lemma wf_TouchAPIKey: "wf_db d \<Longrightarrow> wf_db (TouchAPIKey env i d)"
  by (simp add: TouchAPIKey_def wf_update_keys)

section \<open>A link is claimed once\<close>

text \<open>A claim as the single-use contract reads it.\<close>

definition claim_link :: "sql_env \<Rightarrow> TokenKind \<times> int \<Rightarrow> db \<Rightarrow> unit option \<times> db" where
  "claim_link env link d =
     (let (claimed, d') = ClaimToken env (fst link) (snd link) d in (if claimed then Some () else None, d'))"

definition link_spent :: "TokenKind \<times> int \<Rightarrow> db \<Rightarrow> bool" where
  "link_spent link d \<longleftrightarrow>
     (\<forall>t \<in> set (link_table (fst link) d). t_id t = snd link \<longrightarrow> t_consumed_at t \<noteq> None)"

lemma link_table_other [simp]:
  "kind \<noteq> kind' \<Longrightarrow> link_table kind (set_link_table kind' t d) = link_table kind d"
  by (cases kind; cases kind') (simp_all add: link_table_def set_link_table_def)

lemma claim_link_fields:
  "fst (claim_link env (kind, i) d) \<noteq> None \<longleftrightarrow>
     count_where (\<lambda>t. t_id t = i \<and> t_consumed_at t = None) (link_table kind d) = 1"
  "snd (claim_link env (kind, i) d) = snd (ClaimToken env kind i d)"
  by (simp_all add: claim_link_def ClaimToken_def Let_def)

lemma link_spent_ClaimToken:
  "link_spent (kind, i) d \<or> kind = kind' \<and> i = i' \<Longrightarrow> link_spent (kind, i) (snd (ClaimToken env kind' i' d))"
  by (cases "kind = kind'") (auto simp: link_spent_def ClaimToken_def Let_def ball_update_where)

interpretation link_once: single_use claim_link link_spent wf_db
proof
  fix d :: db and env :: sql_env and k k' :: "TokenKind \<times> int"
  obtain kind i where k: "k = (kind, i)" by (cases k)
  obtain kind' i' where k': "k' = (kind', i')" by (cases k')
  show "wf_db (snd (claim_link env k d))" if "wf_db d"
    using wf_ClaimToken [OF that] by (simp add: k claim_link_fields)
  show "link_spent k (snd (claim_link env k d))" if "wf_db d" "fst (claim_link env k d) \<noteq> None"
    by (simp add: k claim_link_fields link_spent_ClaimToken)
  show "fst (claim_link env k d) = None" if "link_spent k d"
    using that count_where_zero_iff [of "\<lambda>t. t_id t = i \<and> t_consumed_at t = None" "link_table kind d"]
    by (auto simp: k link_spent_def claim_link_def ClaimToken_def Let_def)
  show "link_spent k (snd (claim_link env k' d))" if "link_spent k d"
    using that by (simp add: k k' claim_link_fields link_spent_ClaimToken)
qed

section \<open>Properties\<close>

text \<open>A mailed link is redeemed at most once. Claiming the row is one statement, so however the
  look-ups and claims of concurrent requests interleave, at most one claim of a given link succeeds.\<close>

theorem link_claimed_once:
  assumes "wf_db d"
  shows "granted qs (fst (serve (\<lambda>(env, link). claim_link env link) qs d)) link \<le> 1"
  using link_once.granted_at_most_once [OF assms] .

definition sample_link_db :: db where
  "sample_link_db = snd (IssueToken sample_env PasswordReset 1 ''h1'' 900 False sample_db)"

lemma wf_sample_link_db: "wf_db sample_link_db"
  unfolding sample_link_db_def by (rule wf_IssueToken [OF wf_sample_db])

theorem link_claimed_once_witness:
  "wf_db sample_link_db \<and>
   granted [(sample_env, PasswordReset, 1 :: int), (sample_env, PasswordReset, 1)]
     (fst (serve (\<lambda>(env, link). claim_link env link)
        [(sample_env, PasswordReset, 1), (sample_env, PasswordReset, 1)] sample_link_db)) (PasswordReset, 1) \<le> 1"
  by (rule conjI [OF wf_sample_link_db link_claimed_once [OF wf_sample_link_db]])

text \<open>The newest link of a kind is the account's only live one. After a link is issued, looking
  up its hash before it expires finds it with the account it was issued to; no other link of that
  kind and account can be found; links of other accounts are found as before.\<close>

theorem issued_link_is_the_only_live_one:
  assumes "wf_db d" "IssueToken env kind uid hash expiresAt confirms d = (Inr (), d')"
    and "sql_now env' < expiresAt"
  shows "LookupToken env' kind hash d' = Inr \<lparr>RowID = next_link kind d, LinkUserID = uid, LinkHash = hash,
        ConfirmsPassword = (kind = EmailVerification \<and> confirms)\<rparr> \<and>
    (\<forall>t \<in> set (link_table kind d). t_user_id t = uid \<longrightarrow> LookupToken env'' kind (t_token_hash t) d' = Inl ErrNotFound) \<and>
    (\<forall>t \<in> set (link_table kind d). t_user_id t \<noteq> uid \<longrightarrow>
       LookupToken env'' kind (t_token_hash t) d' = LookupToken env'' kind (t_token_hash t) d)"
proof -
  let ?old = "spend_links_of env uid (link_table kind d)"
  let ?new = "\<lparr>t_id = next_link kind d, t_token_hash = hash, t_user_id = uid, t_expires_at = expiresAt,
     t_consumed_at = None, t_confirms_password = (kind = EmailVerification \<and> confirms)\<rparr>"
  have fresh: "hash \<notin> t_token_hash ` set (link_table kind d)"
    using assms(2) by (auto simp: IssueToken_def Let_def exists_where_key [where k = t_token_hash]
        spend_links_of_def image_update_where split: if_splits)
  then have fresh': "hash \<notin> t_token_hash ` set ?old" by (simp add: spend_links_of_def image_update_where)
  have tab: "link_table kind d' = ?old @ [?new]"
    using assms(2) by (auto simp: IssueToken_def Let_def split: if_splits)
  have uniq: "unique_on t_token_hash (link_table kind d)"
    using wf_link_table [OF assms(1), of kind] by (simp add: wf_link_table_def)
  have none: "List.find (live_link e hash) ?old = None" for e
    using fresh' by (auto simp: find_None_iff live_link_def)
  have new: "LookupToken env' kind hash d' = Inr \<lparr>RowID = next_link kind d, LinkUserID = uid, LinkHash = hash,
      ConfirmsPassword = (kind = EmailVerification \<and> confirms)\<rparr>"
    using none [of env'] assms(3) by (auto simp: LookupToken_def tab find_append live_link_def)
  have old: "List.find (live_link env'' (t_token_hash t)) (link_table kind d') =
      (if t_user_id t = uid then None else List.find (live_link env'' (t_token_hash t)) (link_table kind d))"
    if t: "t \<in> set (link_table kind d)" for t
  proof -
    have ne: "t_token_hash t \<noteq> hash" using fresh t by auto
    then have "List.find (live_link env'' (t_token_hash t)) (link_table kind d') =
        List.find (live_link env'' (t_token_hash t)) ?old"
      by (auto simp: tab find_append live_link_def split: option.split)
    also have "\<dots> = List.find (\<lambda>x. live_link env'' (t_token_hash t) x \<and> \<not> (t_user_id x = uid \<and> t_consumed_at x = None))
        (link_table kind d)"
      unfolding spend_links_of_def by (rule find_update_where) (auto simp: live_link_def)
    also have "\<dots> = (if t_user_id t = uid then None else List.find (live_link env'' (t_token_hash t)) (link_table kind d))"
    proof -
      have only: "x = t \<and> t_consumed_at x = None"
        if "x \<in> set (link_table kind d)" "live_link env'' (t_token_hash t) x" for x
        using uniq that t by (auto simp: live_link_def dest: unique_on_eq)
      show ?thesis
      proof (cases "t_user_id t = uid")
        case True
        then show ?thesis using only by (auto simp: find_None_iff)
      next
        case False
        then show ?thesis using only by (auto intro!: find_cong)
      qed
    qed
    finally show ?thesis .
  qed
  show ?thesis using new old by (simp add: LookupToken_def)
qed

theorem issued_link_is_the_only_live_one_witness:
  "wf_db sample_db \<and> fst (IssueToken sample_env PasswordReset 1 ''h1'' 900 False sample_db) = Inr () \<and>
   LookupToken sample_env PasswordReset ''h1'' (snd (IssueToken sample_env PasswordReset 1 ''h1'' 900 False sample_db)) =
     Inr \<lparr>RowID = 1, LinkUserID = 1, LinkHash = ''h1'', ConfirmsPassword = False\<rparr>"
proof -
  have ok: "fst (IssueToken sample_env PasswordReset 1 ''h1'' 900 False sample_db) = Inr ()"
    by (simp add: IssueToken_def Let_def sample_defs set_link_table_def link_table_def spend_links_of_def
        exists_where_def user_ids_def)
  then have "IssueToken sample_env PasswordReset 1 ''h1'' 900 False sample_db =
      (Inr (), snd (IssueToken sample_env PasswordReset 1 ''h1'' 900 False sample_db))"
    by (metis prod.collapse)
  from issued_link_is_the_only_live_one [OF wf_sample_db this, of sample_env sample_env] ok wf_sample_db
  show ?thesis by (simp add: sample_env_def next_link_def sample_db_def empty_db_def)
qed

text \<open>An API key works from its creation until it is revoked, and never again. A created key is
  found under its hash with its type and no owner; keys made before it are found as before; once it
  is revoked its hash finds nothing, however often it is used or revoked, and the other keys'
  answers do not change.\<close>

theorem api_key_lifecycle:
  assumes "wf_db d" "CreateAPIKey env hash prefix keyType name d = (Inr (i, made), d')"
    and "RevokeAPIKey env' i d' = (revoked, d'')"
  shows "APIKeyByHash hash d' = Inr \<lparr>key_ID = i, key_Type = keyType, key_CreatedBy = None\<rparr> \<and>
    (\<forall>h. h \<noteq> hash \<longrightarrow> APIKeyByHash h d' = APIKeyByHash h d) \<and>
    revoked \<and> APIKeyByHash hash d'' = Inl ErrNotFound \<and>
    APIKeyByHash hash (TouchAPIKey env'' i d'') = Inl ErrNotFound \<and>
    fst (RevokeAPIKey env'' i d'') = False \<and>
    (\<forall>h. h \<noteq> hash \<longrightarrow> APIKeyByHash h d'' = APIKeyByHash h d')"
proof -
  let ?k = "\<lparr>k_id = next_key d, k_key_hash = hash, k_key_prefix = prefix, k_key_type = keyType, k_name = name,
          k_created_by = None, k_created_at = sql_now env, k_last_used_at = None, k_revoked_at = None\<rparr>"
  let ?dead = "\<lambda>k. k\<lparr>k_revoked_at := Some (sql_now env')\<rparr>"
  have d': "i = next_key d" "api_keys d' = api_keys d @ [?k]" and fresh: "hash \<notin> k_key_hash ` set (api_keys d)"
    using assms(2) by (auto simp: CreateAPIKey_def Let_def exists_where_key [where k = k_key_hash] split: if_splits)
  have ids: "\<forall>k \<in> set (api_keys d). k_id k \<noteq> i"
    using assms(1) d'(1) by (auto simp: wf_db_def wf_keys_def)
  have d'': "api_keys d'' = api_keys d @ [?dead ?k]"
  proof -
    have "update_where (\<lambda>k. k_id k = i \<and> k_revoked_at k = None) ?dead (api_keys d) = api_keys d"
      using ids by (auto simp: update_where_def intro!: map_idI)
    then show ?thesis
      using assms(3) by (auto simp: RevokeAPIKey_def Let_def d' update_where_def)
  qed
  have none: "List.find (\<lambda>k. k_key_hash k = hash \<and> k_revoked_at k = None) (api_keys d) = None"
    using fresh by (auto simp: find_None_iff)
  have before: "filter (\<lambda>k. k_id k = i \<and> k_revoked_at k = None) (api_keys d) = []"
    using ids by (auto simp: filter_empty_conv)
  have "APIKeyByHash hash d' = Inr \<lparr>key_ID = i, key_Type = keyType, key_CreatedBy = None\<rparr>"
    using none by (simp add: APIKeyByHash_def d' find_append)
  moreover have "APIKeyByHash h d' = APIKeyByHash h d" "APIKeyByHash h d'' = APIKeyByHash h d'" if "h \<noteq> hash" for h
    using that by (auto simp: APIKeyByHash_def d' d'' find_append split: option.split)
  moreover have revoked
    using assms(3) before by (auto simp: RevokeAPIKey_def Let_def d' count_where_def)
  moreover have "APIKeyByHash hash d'' = Inl ErrNotFound"
    using none by (simp add: APIKeyByHash_def d'' find_append)
  moreover have "APIKeyByHash hash (TouchAPIKey env'' i d'') = Inl ErrNotFound"
  proof -
    have "\<forall>k \<in> set (api_keys d''). k_key_hash k = hash \<longrightarrow> k_revoked_at k \<noteq> None"
      unfolding d'' using fresh by (simp add: image_iff) metis
    then have "List.find (\<lambda>k. k_key_hash k = hash \<and> k_revoked_at k = None) (api_keys (TouchAPIKey env'' i d'')) = None"
      by (auto simp: find_None_iff TouchAPIKey_def update_where_def)
    then show ?thesis by (simp add: APIKeyByHash_def)
  qed
  moreover have "fst (RevokeAPIKey env'' i d'') = False"
    using before by (simp add: RevokeAPIKey_def Let_def d'' count_where_def)
  ultimately show ?thesis by blast
qed

theorem api_key_lifecycle_witness:
  "wf_db sample_db \<and> fst (CreateAPIKey sample_env ''kh'' ''pre'' ''secret'' ''n'' sample_db) = Inr (1, 100) \<and>
   APIKeyByHash ''kh'' (snd (CreateAPIKey sample_env ''kh'' ''pre'' ''secret'' ''n'' sample_db)) =
     Inr \<lparr>key_ID = 1, key_Type = ''secret'', key_CreatedBy = None\<rparr>"
proof -
  have ok: "fst (CreateAPIKey sample_env ''kh'' ''pre'' ''secret'' ''n'' sample_db) = Inr (1, 100)"
    by (simp add: CreateAPIKey_def Let_def sample_defs exists_where_def)
  then have "CreateAPIKey sample_env ''kh'' ''pre'' ''secret'' ''n'' sample_db =
      (Inr (1, 100), snd (CreateAPIKey sample_env ''kh'' ''pre'' ''secret'' ''n'' sample_db))"
    by (metis prod.collapse)
  from api_key_lifecycle [OF wf_sample_db this prod.collapse [symmetric], of sample_env sample_env] ok wf_sample_db
  show ?thesis by blast
qed

end
