(* ===== verification/PgIdentities.thy ===== *)
theory PgIdentities
  imports PgTokens
begin

text \<open>
  Provider identities, address linking, sign-in flows and authorization codes:
  \<open>internal/store/pgstore/identities.go\<close> and \<open>pgstore/linking.go\<close>. An address reaches the account
  that linked it, else the account holding exactly it, else the only account whose address differs
  in case alone; a proven account is signed in to, an unproven one is replaced.
\<close>

section \<open>Which account an address reaches\<close>

text \<open>\<open>ORDER BY email = $1 DESC, id LIMIT 2\<close>.\<close>

definition address_rows :: "sql_env \<Rightarrow> string \<Rightarrow> db \<Rightarrow> user_row list" where
  "address_rows env email d =
     (let rows = sort_key u_id (filter (\<lambda>u. answers_to env u email) (users d)) in
      take 2 (filter (\<lambda>u. u_email u = Some email) rows @ filter (\<lambda>u. u_email u \<noteq> Some email) rows))"

definition match_of :: "string \<Rightarrow> user_row \<Rightarrow> AddressMatch" where
  "match_of email u = \<lparr>am_ID = u_id u, am_Exact = (u_email u = Some email), am_Verified = proven u,
     am_Enabled = u_enabled u\<rparr>"

definition identity_of :: "string \<Rightarrow> string \<Rightarrow> db \<Rightarrow> identity_row option" where
  "identity_of provider subject d =
     List.find (\<lambda>i. i_provider i = provider \<and> i_subject i = subject) (identities d)"

definition provenElsewhere :: "sql_env \<Rightarrow> int \<Rightarrow> string \<Rightarrow> db \<Rightarrow> store_error option" where
  "provenElsewhere env linkedTo email d =
     (if exists_where (\<lambda>u. answers_to env u email \<and> u_id u \<noteq> linkedTo \<and> proven u) (users d)
      then Some ErrAmbiguousEmail else None)"

definition linkedAddress :: "sql_env \<Rightarrow> string \<Rightarrow> db \<Rightarrow> store_error + AddressMatch option" where
  "linkedAddress env email d =
     (case identity_of EmailProvider (AddressKey email) d of
        None \<Rightarrow> Inr None
      | Some i \<Rightarrow>
          (case user_by_id d (i_user_id i) of
             None \<Rightarrow> Inr None
           | Some u \<Rightarrow>
               if \<not> u_enabled u then Inl ErrAccountDisabled
               else case provenElsewhere env (u_id u) email d of
                 Some e \<Rightarrow> Inl e
               | None \<Rightarrow> Inr (Some \<lparr>am_ID = u_id u, am_Exact = True, am_Verified = True, am_Enabled = u_enabled u\<rparr>)))"

definition accountForAddress :: "sql_env \<Rightarrow> string \<Rightarrow> db \<Rightarrow> store_error + int \<times> bool" where
  "accountForAddress env email d =
     (case linkedAddress env email d of
        Inl e \<Rightarrow> Inl e
      | Inr (Some linked) \<Rightarrow> Inr (am_ID linked, am_Verified linked)
      | Inr None \<Rightarrow>
          (case PickAddressMatch (map (match_of email) (address_rows env email d)) ErrNoRows of
             Inl e \<Rightarrow> Inl e
           | Inr m \<Rightarrow> if \<not> am_Enabled m then Inl ErrAccountDisabled else Inr (am_ID m, am_Verified m)))"

section \<open>Signing in with an identity\<close>

text \<open>The row a proven sign-in creates: no password, the address proven now.\<close>

definition provider_row :: "sql_env \<Rightarrow> IdentityClaim \<Rightarrow> int \<Rightarrow> user_row" where
  "provider_row env claim i =
     \<lparr>u_id = i, u_email = Some (ClaimEmail claim), u_password = None,
      u_full_name = ClaimFullName claim, u_role = ''user'', u_allowed_roles = None, u_enabled = True,
      u_email_verified = True, u_email_verified_at = Some (sql_now env), u_is_guest = False,
      u_user_metadata = None, u_app_metadata = None, u_created_at = sql_now env, u_last_login_at = None\<rparr>"

definition createProviderUser :: "sql_env \<Rightarrow> IdentityClaim \<Rightarrow> db \<Rightarrow> int outcome" where
  "createProviderUser env claim d =
     (if exists_where (\<lambda>u. u_email u = Some (ClaimEmail claim)) (users d) then (Inl ErrConstraint, d)
      else (Inr (next_user d), insert_user (provider_row env claim (next_user d)) d))"

definition takeOver :: "sql_env \<Rightarrow> int \<Rightarrow> IdentityClaim \<Rightarrow> db \<Rightarrow> int outcome" where
  "takeOver env uid claim d =
     (case delete_users env [uid] d of
        (Inl _, _) \<Rightarrow> (Inl ErrConstraint, d)
      | (Inr _, d1) \<Rightarrow>
          (case createProviderUser env claim d1 of
             (Inl e, _) \<Rightarrow> (Inl e, d)
           | (Inr i, d2) \<Rightarrow> (Inr i, d2)))"

text \<open>The switch both sign-ins share; \<open>known\<close> is the outcome for a proven account.\<close>

definition addressOwner :: "sql_env \<Rightarrow> IdentityClaim \<Rightarrow> bool \<Rightarrow> IdentityOutcome \<Rightarrow> db \<Rightarrow> (int \<times> IdentityOutcome) outcome" where
  "addressOwner env claim allowCreate known d =
     (case accountForAddress env (ClaimEmail claim) d of
        Inl e \<Rightarrow>
          if e = ErrNoRows
          then (if \<not> allowCreate then (Inl ErrSignupsDisabled, d)
                else case createProviderUser env claim d of
                  (Inl e, _) \<Rightarrow> (Inl e, d)
                | (Inr i, d1) \<Rightarrow> (Inr (i, IdentityCreated), d1))
          else (Inl e, d)
      | Inr (uid, verified) \<Rightarrow>
          if verified then (Inr (uid, known), d)
          else case takeOver env uid claim d of
            (Inl e, _) \<Rightarrow> (Inl e, d)
          | (Inr i, d1) \<Rightarrow> (Inr (i, IdentityTookOver), d1))"

definition insert_identity :: "sql_env \<Rightarrow> int \<Rightarrow> IdentityClaim \<Rightarrow> time option \<Rightarrow> db \<Rightarrow> db" where
  "insert_identity env uid claim signedIn d =
     d\<lparr>identities := identities d @
        [\<lparr>i_id = next_identity d, i_user_id = uid, i_provider = Provider claim, i_subject = Subject claim,
          i_email = Some (ClaimEmail claim), i_email_verified = True, i_created_at = sql_now env,
          i_last_sign_in_at = signedIn\<rparr>],
       next_identity := next_identity d + 1\<rparr>"

definition resolveIdentity :: "sql_env \<Rightarrow> IdentityClaim \<Rightarrow> bool \<Rightarrow> db \<Rightarrow> (int \<times> IdentityOutcome) outcome" where
  "resolveIdentity env claim allowCreate d =
     (case identity_of (Provider claim) (Subject claim) d of
        Some i \<Rightarrow>
          (Inr (i_user_id i, IdentityKnown),
           d\<lparr>identities := update_where (\<lambda>i. i_provider i = Provider claim \<and> i_subject i = Subject claim)
              (\<lambda>i. i\<lparr>i_email := Some (ClaimEmail claim), i_email_verified := True,
                     i_last_sign_in_at := Some (sql_now env)\<rparr>) (identities d)\<rparr>)
      | None \<Rightarrow>
          (case addressOwner env claim allowCreate IdentityLinked d of
             (Inl e, _) \<Rightarrow> (Inl e, d)
           | (Inr (uid, how), d1) \<Rightarrow>
               if uid \<notin> set (user_ids d1) \<or> identity_of (Provider claim) (Subject claim) d1 \<noteq> None
               then (Inl ErrConstraint, d)
               else (Inr (uid, how), insert_identity env uid claim (Some (sql_now env)) d1)))"

definition SignInWithIdentity :: "sql_env \<Rightarrow> IdentityClaim \<Rightarrow> bool \<Rightarrow> db \<Rightarrow> (account \<times> IdentityOutcome) outcome" where
  "SignInWithIdentity env claim allowCreate d =
     (case resolveIdentity env claim allowCreate d of
        (Inl e, _) \<Rightarrow> (Inl e, d)
      | (Inr (uid, how), d1) \<Rightarrow>
          (case AccountByID uid d1 of Inl e \<Rightarrow> (Inl e, d) | Inr account \<Rightarrow> (Inr (account, how), d1)))"

text \<open>The emailed link or code: the same rule for an address, without an identity row.\<close>

definition SignInWithEmail :: "sql_env \<Rightarrow> string \<Rightarrow> string \<Rightarrow> bool \<Rightarrow> db \<Rightarrow> (account \<times> IdentityOutcome) outcome" where
  "SignInWithEmail env email fullName allowCreate d =
     (let claim = \<lparr>Provider = [], Subject = [], ClaimEmail = email, ClaimFullName = fullName\<rparr> in
      case addressOwner env claim allowCreate IdentityKnown d of
        (Inl e, _) \<Rightarrow> (Inl e, d)
      | (Inr (uid, how), d1) \<Rightarrow>
          (case AccountByID uid d1 of Inl e \<Rightarrow> (Inl e, d) | Inr account \<Rightarrow> (Inr (account, how), d1)))"

definition linkedAccount :: "sql_env \<Rightarrow> string \<Rightarrow> db \<Rightarrow> store_error + account option" where
  "linkedAccount env email d =
     (case linkedAddress env email d of
        Inl e \<Rightarrow> Inl e
      | Inr None \<Rightarrow> Inr None
      | Inr (Some m) \<Rightarrow> (case AccountByID (am_ID m) d of Inl e \<Rightarrow> Inl e | Inr account \<Rightarrow> Inr (Some account)))"

definition AccountByAddress :: "sql_env \<Rightarrow> string \<Rightarrow> db \<Rightarrow> store_error + account" where
  "AccountByAddress env email d =
     (case linkedAccount env email d of
        Inl e \<Rightarrow> Inl e
      | Inr (Some account) \<Rightarrow> Inr account
      | Inr None \<Rightarrow>
          (let accounts = address_rows env email d in
           case PickAddressMatch (map (\<lambda>u. \<lparr>am_ID = u_id u, am_Exact = (u_email u = Some email),
                  am_Verified = False, am_Enabled = False\<rparr>) accounts) ErrNotFound of
             Inl e \<Rightarrow> Inl e
           | Inr _ \<Rightarrow> Inr (account_of (hd accounts))))"

section \<open>Flow states and authorization codes\<close>

record FlowState =
  fs_StateHash :: string
  fs_Provider :: string
  fs_IDPCodeVerifier :: string
  fs_Nonce :: string
  fs_ClientCodeChallenge :: string
  fs_RedirectTo :: string
  fs_LinkUserID :: int
  fs_ExpiresAt :: time

record AuthCode =
  ac_CodeHash :: string
  ac_UserID :: int
  ac_CodeChallenge :: string
  ac_Link :: IdentityClaim
  ac_ExpiresAt :: time

definition SaveFlowState :: "sql_env \<Rightarrow> FlowState \<Rightarrow> db \<Rightarrow> unit outcome" where
  "SaveFlowState env state d =
     (let d1 = d\<lparr>flow_states := delete_where (\<lambda>f. f_expires_at f < sql_now env) (flow_states d)\<rparr>;
          link = nullif (fs_LinkUserID state) 0
      in if exists_where (\<lambda>f. f_state_hash f = fs_StateHash state) (flow_states d1) \<or>
            (case link of None \<Rightarrow> False | Some i \<Rightarrow> i \<notin> set (user_ids d1))
         then (Inl ErrConstraint, d1)
         else (Inr (), d1\<lparr>flow_states := flow_states d1 @
           [\<lparr>f_state_hash = fs_StateHash state, f_provider = fs_Provider state,
             f_idp_code_verifier = fs_IDPCodeVerifier state, f_nonce = fs_Nonce state,
             f_client_code_challenge = fs_ClientCodeChallenge state, f_redirect_to = fs_RedirectTo state,
             f_link_user_id = link, f_expires_at = fs_ExpiresAt state\<rparr>]\<rparr>))"

definition ConsumeFlowState :: "sql_env \<Rightarrow> string \<Rightarrow> db \<Rightarrow> FlowState outcome" where
  "ConsumeFlowState env stateHash d =
     (let hit = (\<lambda>f. f_state_hash f = stateHash \<and> f_expires_at f > sql_now env) in
      case List.find hit (flow_states d) of
        None \<Rightarrow> (Inl ErrNotFound, d)
      | Some f \<Rightarrow>
          (Inr \<lparr>fs_StateHash = stateHash, fs_Provider = f_provider f, fs_IDPCodeVerifier = f_idp_code_verifier f,
             fs_Nonce = f_nonce f, fs_ClientCodeChallenge = f_client_code_challenge f,
             fs_RedirectTo = f_redirect_to f, fs_LinkUserID = coalesce (f_link_user_id f) 0,
             fs_ExpiresAt = f_expires_at f\<rparr>,
           d\<lparr>flow_states := delete_where hit (flow_states d)\<rparr>))"

definition SaveAuthCode :: "sql_env \<Rightarrow> AuthCode \<Rightarrow> db \<Rightarrow> unit outcome" where
  "SaveAuthCode env code d =
     (let d1 = d\<lparr>auth_codes := delete_where (\<lambda>c. c_expires_at c < sql_now env) (auth_codes d)\<rparr>
      in if exists_where (\<lambda>c. c_code_hash c = ac_CodeHash code) (auth_codes d1) \<or> ac_UserID code \<notin> set (user_ids d1)
         then (Inl ErrConstraint, d1)
         else (Inr (), d1\<lparr>auth_codes := auth_codes d1 @
           [\<lparr>c_code_hash = ac_CodeHash code, c_user_id = ac_UserID code, c_code_challenge = ac_CodeChallenge code,
             c_link_provider = nullif (Provider (ac_Link code)) [], c_link_subject = nullif (Subject (ac_Link code)) [],
             c_link_email = nullif (ClaimEmail (ac_Link code)) [], c_expires_at = ac_ExpiresAt code,
             c_consumed_at = None\<rparr>]\<rparr>))"

definition live_code :: "sql_env \<Rightarrow> string \<Rightarrow> code_row \<Rightarrow> bool" where
  "live_code env codeHash c = (c_code_hash c = codeHash \<and> c_consumed_at c = None \<and> c_expires_at c > sql_now env)"

definition RedeemAuthCode :: "sql_env \<Rightarrow> string \<Rightarrow> db \<Rightarrow> AuthCode outcome" where
  "RedeemAuthCode env codeHash d =
     (case List.find (live_code env codeHash) (auth_codes d) of
        None \<Rightarrow> (Inl ErrNotFound, d)
      | Some c \<Rightarrow>
          (Inr \<lparr>ac_CodeHash = codeHash, ac_UserID = c_user_id c, ac_CodeChallenge = c_code_challenge c,
             ac_Link = \<lparr>Provider = coalesce (c_link_provider c) [], Subject = coalesce (c_link_subject c) [],
               ClaimEmail = coalesce (c_link_email c) [], ClaimFullName = []\<rparr>,
             ac_ExpiresAt = c_expires_at c\<rparr>,
           d\<lparr>auth_codes := update_where (live_code env codeHash)
              (\<lambda>c. c\<lparr>c_consumed_at := Some (sql_now env)\<rparr>) (auth_codes d)\<rparr>))"

section \<open>Linking\<close>

record LinkResult =
  Deleted :: "int list"
  Upgraded :: bool

definition linkTargetGuest :: "int \<Rightarrow> db \<Rightarrow> store_error + bool" where
  "linkTargetGuest uid d =
     (case user_by_id d uid of
        None \<Rightarrow> Inl ErrNotFound
      | Some u \<Rightarrow>
          if \<not> u_enabled u then Inl ErrAccountDisabled
          else if \<not> proven u \<and> \<not> u_is_guest u then Inl ErrAddressUnproven
          else Inr (u_is_guest u))"

definition LinkableAccount :: "int \<Rightarrow> db \<Rightarrow> store_error + unit" where
  "LinkableAccount uid d = (case linkTargetGuest uid d of Inl e \<Rightarrow> Inl e | Inr _ \<Rightarrow> Inr ())"

definition claimAddress :: "sql_env \<Rightarrow> int \<Rightarrow> string \<Rightarrow> db \<Rightarrow> int list outcome" where
  "claimAddress env uid email d =
     (let rows = filter (\<lambda>u. answers_to env u email) (users d);
          squatters = map u_id rows
      in if exists_where (\<lambda>u. u_id u = uid \<or> proven u \<or> \<not> u_enabled u) rows then (Inl ErrIdentityExists, d)
         else if squatters = [] then (Inr [], d)
         else case delete_users env squatters d of
           (Inl e, _) \<Rightarrow> (Inl e, d)
         | (Inr _, d1) \<Rightarrow> (Inr squatters, d1))"

definition addressLinkedElsewhere :: "int \<Rightarrow> string \<Rightarrow> db \<Rightarrow> store_error option" where
  "addressLinkedElsewhere uid email d =
     (case identity_of EmailProvider (AddressKey email) d of
        None \<Rightarrow> None
      | Some i \<Rightarrow> if i_user_id i \<noteq> uid then Some ErrIdentityExists else None)"

definition upgradeGuest :: "sql_env \<Rightarrow> int \<Rightarrow> string \<Rightarrow> db \<Rightarrow> store_error + db" where
  "upgradeGuest env uid email d =
     (let hit = (\<lambda>u. u_id u = uid \<and> u_is_guest u) in
      if exists_where hit (users d) \<and> exists_where (\<lambda>u. u_id u \<noteq> uid \<and> u_email u = Some email) (users d)
      then Inl ErrConstraint
      else Inr (d\<lparr>users := update_where hit
        (\<lambda>u. u\<lparr>u_email := Some email, u_email_verified := True, u_email_verified_at := Some (sql_now env),
               u_is_guest := False,
               u_allowed_roles := (if u_role u = GuestRole then None else u_allowed_roles u),
               u_role := (if u_role u = GuestRole then ''user'' else u_role u)\<rparr>) (users d)\<rparr>))"

text \<open>An error of the \<open>DELETE\<close> reaches the caller unread here, so an app table's reference is a plain failure.\<close>

definition LinkIdentity :: "sql_env \<Rightarrow> int \<Rightarrow> IdentityClaim \<Rightarrow> db \<Rightarrow> LinkResult outcome" where
  "LinkIdentity env uid claim d =
     (case linkTargetGuest uid d of
        Inl e \<Rightarrow> (Inl e, d)
      | Inr guest \<Rightarrow>
          if identity_of (Provider claim) (Subject claim) d \<noteq> None then (Inl ErrIdentityExists, d)
          else
            (case (if guest \<and> Provider claim \<noteq> EmailProvider
                   then addressLinkedElsewhere uid (ClaimEmail claim) d else None) of
               Some e \<Rightarrow> (Inl e, d)
             | None \<Rightarrow>
                 (case (if Provider claim = EmailProvider \<or> guest
                        then claimAddress env uid (ClaimEmail claim) d else (Inr [], d)) of
                    (Inl e, _) \<Rightarrow> (Inl (if e = ErrUserReferenced then ErrConstraint else e), d)
                  | (Inr deleted, d1) \<Rightarrow>
                      if identity_of (Provider claim) (Subject claim) d1 \<noteq> None then (Inl ErrIdentityExists, d)
                      else
                        let d2 = insert_identity env uid claim None d1 in
                        if guest
                        then (case upgradeGuest env uid (ClaimEmail claim) d2 of
                                Inl e \<Rightarrow> (Inl e, d)
                              | Inr d3 \<Rightarrow> (Inr \<lparr>Deleted = deleted, Upgraded = True\<rparr>, d3))
                        else (Inr \<lparr>Deleted = deleted, Upgraded = False\<rparr>, d2))))"

definition listIdentities :: "int \<Rightarrow> db \<Rightarrow> identity_row list" where
  "listIdentities uid d = sort_key i_id (filter (\<lambda>i. i_user_id i = uid) (identities d))"

definition UnlinkIdentity :: "int \<Rightarrow> int \<Rightarrow> db \<Rightarrow> identity_row outcome" where
  "UnlinkIdentity uid identityID d =
     (case user_by_id d uid of
        None \<Rightarrow> (Inl ErrNotFound, d)
      | Some u \<Rightarrow>
          let hasPassword = (case u_password u of None \<Rightarrow> False | Some p \<Rightarrow> \<not> HasPrefix p ''!'');
              linked = listIdentities uid d
          in case List.find (\<lambda>i. i_id i = identityID) linked of
               None \<Rightarrow> (Inl ErrNotFound, d)
             | Some i \<Rightarrow>
                 if length linked = 1 \<and> \<not> hasPassword then (Inl ErrLastSignInMethod, d)
                 else (Inr i, d\<lparr>identities := delete_where (\<lambda>i. i_id i = identityID \<and> i_user_id i = uid) (identities d)\<rparr>))"

section \<open>What an address reaches\<close>

lemma address_rows_mem: "u \<in> set (address_rows env email d) \<Longrightarrow> u \<in> set (users d) \<and> answers_to env u email"
  by (auto simp: address_rows_def Let_def dest!: in_set_takeD)

lemma address_rows_Nil: "address_rows env email d = [] \<longleftrightarrow> (\<forall>u \<in> set (users d). \<not> answers_to env u email)"
proof -
  let ?rows = "sort_key u_id (filter (\<lambda>u. answers_to env u email) (users d))"
  have "address_rows env email d = [] \<longleftrightarrow> set ?rows = {}"
    by (auto simp: address_rows_def Let_def filter_empty_conv)
  then show ?thesis by auto
qed

lemma PickAddressMatch_Inr: "PickAddressMatch ms none = Inr m \<Longrightarrow> m \<in> set ms"
  by (auto simp: PickAddressMatch_def split: list.splits if_splits)

lemma PickAddressMatch_Inl: "PickAddressMatch ms none = Inl e \<Longrightarrow> ms = [] \<and> e = none \<or> e = ErrAmbiguousEmail"
  by (auto simp: PickAddressMatch_def split: list.splits if_splits)

lemma identity_of_Some:
  "identity_of provider subject d = Some i \<Longrightarrow> i \<in> set (identities d) \<and> i_provider i = provider \<and> i_subject i = subject"
  by (auto simp: identity_of_def dest: find_Some_mem)

definition linked_to :: "db \<Rightarrow> int \<Rightarrow> string \<Rightarrow> bool" where
  "linked_to d uid email \<longleftrightarrow> (\<exists>i \<in> set (identities d).
     i_provider i = EmailProvider \<and> i_subject i = AddressKey email \<and> i_user_id i = uid)"

lemma linkedAddress_Some:
  "linkedAddress env email d = Inr (Some m) \<Longrightarrow>
     (\<exists>u. user_by_id d (am_ID m) = Some u \<and> u_enabled u \<and> linked_to d (am_ID m) email) \<and> am_Verified m"
  by (auto simp: linkedAddress_def linked_to_def split: option.splits if_splits
      dest!: identity_of_Some dest: user_by_id_Some)
    (metis user_by_id_Some)+

lemma linkedAddress_Inl: "linkedAddress env email d = Inl e \<Longrightarrow> e = ErrAccountDisabled \<or> e = ErrAmbiguousEmail"
  by (auto simp: linkedAddress_def provenElsewhere_def split: option.splits if_splits)

lemma accountForAddress_Inr:
  assumes "wf_db d" "accountForAddress env email d = Inr (uid, verified)"
  obtains u where "user_by_id d uid = Some u" "u_enabled u"
    "if verified then linked_to d uid email \<or> proven u \<and> answers_to env u email
     else \<not> proven u \<and> answers_to env u email"
proof (cases "linkedAddress env email d")
  case (Inr r)
  show thesis
  proof (cases r)
    case None
    with assms(2) Inr obtain m where
      m: "PickAddressMatch (map (match_of email) (address_rows env email d)) ErrNoRows = Inr m"
      and "am_Enabled m" "uid = am_ID m" "verified = am_Verified m"
      by (auto simp: accountForAddress_def split: sum.splits if_splits)
    moreover from PickAddressMatch_Inr [OF m] obtain u where
      u: "u \<in> set (address_rows env email d)" "m = match_of email u" by auto
    moreover have "user_by_id d (u_id u) = Some u"
      using assms(1) address_rows_mem [OF u(1)] by (auto simp: wf_db_def intro: user_by_id_eq)
    ultimately show thesis
      using address_rows_mem [OF u(1)] by (auto simp: match_of_def intro!: that [of u])
  next
    case (Some m)
    then show thesis
      using assms(2) Inr linkedAddress_Some [of env email d m] by (auto simp: accountForAddress_def intro: that)
  qed
qed (use assms in \<open>auto simp: accountForAddress_def\<close>)

lemma accountForAddress_NoRows:
  assumes "accountForAddress env email d = Inl ErrNoRows"
  shows "\<forall>u \<in> set (users d). \<not> answers_to env u email"
  using assms linkedAddress_Inl [of env email d ErrNoRows]
    PickAddressMatch_Inl [of "map (match_of email) (address_rows env email d)" ErrNoRows ErrNoRows]
  by (auto simp: accountForAddress_def address_rows_Nil split: sum.splits option.splits if_splits)

text \<open>An account holding exactly the address answers to it.\<close>

lemma answers_exact: "u_email u = Some email \<Longrightarrow> answers_to env u email"
  by (simp add: answers_to_def)

lemma provider_row_simps [simp]:
  "u_id (provider_row env claim i) = i" "u_email (provider_row env claim i) = Some (ClaimEmail claim)"
  "u_enabled (provider_row env claim i)" "u_password (provider_row env claim i) = None"
  "proven (provider_row env claim i)" "u_is_guest (provider_row env claim i) = False"
  by (simp_all add: provider_row_def proven_def)

lemma createProviderUser_Inr:
  "createProviderUser env claim d = (Inr i, d') \<Longrightarrow>
     i = next_user d \<and> d' = insert_user (provider_row env claim i) d \<and>
     (\<forall>u \<in> set (users d). u_email u \<noteq> Some (ClaimEmail claim))"
  by (auto simp: createProviderUser_def exists_where_iff split: if_splits)

lemma takeOver_Inr:
  assumes "takeOver env uid claim d = (Inr i, d')"
  shows "i = next_user d \<and> d' = insert_user (provider_row env claim i) (cascade_users (\<lambda>j. j = uid) d)
    \<and> (\<forall>u \<in> set (users d). u_id u \<noteq> uid \<longrightarrow> u_email u \<noteq> Some (ClaimEmail claim))"
proof -
  from assms obtain n d1 where del: "delete_users env [uid] d = (Inr n, d1)"
    and new: "createProviderUser env claim d1 = (Inr i, d')"
    by (auto simp: takeOver_def split: prod.splits sum.splits)
  from del have d1: "d1 = cascade_users (\<lambda>j. j = uid) d"
    by (auto simp: delete_users_def Let_def split: if_splits)
  from createProviderUser_Inr [OF new] show ?thesis by (auto simp: d1 cascade_users_fields)
qed

lemma addressOwner_Inr:
  assumes "wf_db d" "addressOwner env claim allowCreate known d = (Inr (uid, how), d')"
  obtains (owned) u where "how = known" "d' = d" "user_by_id d uid = Some u" "u_enabled u"
      "linked_to d uid (ClaimEmail claim) \<or> proven u \<and> answers_to env u (ClaimEmail claim)"
  | (created) "how = IdentityCreated" "allowCreate" "uid = next_user d"
      "d' = insert_user (provider_row env claim uid) d"
      "\<forall>u \<in> set (users d). \<not> answers_to env u (ClaimEmail claim)"
  | (replaced) old where "how = IdentityTookOver" "user_by_id d (u_id old) = Some old" "\<not> proven old" "u_enabled old"
      "answers_to env old (ClaimEmail claim)" "uid = next_user d"
      "d' = insert_user (provider_row env claim uid) (cascade_users (\<lambda>j. j = u_id old) d)"
      "\<forall>u \<in> set (users d). u_id u \<noteq> u_id old \<longrightarrow> u_email u \<noteq> Some (ClaimEmail claim)"
proof (cases "accountForAddress env (ClaimEmail claim) d")
  case (Inl e)
  then have e: "e = ErrNoRows" and allow: allowCreate
    and new: "createProviderUser env claim d = (Inr uid, d')" and how: "how = IdentityCreated"
    using assms(2) by (auto simp: addressOwner_def split: if_splits prod.splits sum.splits)
  then show thesis
    using createProviderUser_Inr [OF new] accountForAddress_NoRows Inl by (intro created) auto
next
  case (Inr r)
  obtain i verified where r: "r = (i, verified)" by (cases r)
  from accountForAddress_Inr [OF assms(1) Inr [unfolded r]] obtain u where
    u: "user_by_id d i = Some u" "u_enabled u"
      "if verified then linked_to d i (ClaimEmail claim) \<or> proven u \<and> answers_to env u (ClaimEmail claim)
       else \<not> proven u \<and> answers_to env u (ClaimEmail claim)" .
  show thesis
  proof (cases verified)
    case True
    then show thesis using assms(2) Inr r u by (intro owned) (auto simp: addressOwner_def)
  next
    case False
    then have t: "takeOver env i claim d = (Inr uid, d')" "how = IdentityTookOver"
      using assms(2) Inr r by (auto simp: addressOwner_def split: prod.splits sum.splits)
    have "u_id u = i" using user_by_id_Some [OF u(1)] by simp
    then show thesis using takeOver_Inr [OF t(1)] t(2) u False by (intro replaced [of u]) auto
  qed
qed

section \<open>Integrity is kept\<close>

lemma wf_provider_row:
  assumes "wf_db d" "\<forall>u \<in> set (users d). u_email u \<noteq> Some (ClaimEmail claim)"
  shows "wf_db (insert_user (provider_row env claim (next_user d)) d)"
  using assms by (intro wf_insert_user) auto

lemma wf_replacing:
  assumes "wf_db d" "\<forall>u \<in> set (users d). u_id u \<noteq> old \<longrightarrow> u_email u \<noteq> Some (ClaimEmail claim)"
  shows "wf_db (insert_user (provider_row env claim (next_user d)) (cascade_users (\<lambda>j. j = old) d))"
proof -
  have "wf_db (insert_user (provider_row env claim (next_user (cascade_users (\<lambda>j. j = old) d)))
      (cascade_users (\<lambda>j. j = old) d))"
    using assms by (intro wf_provider_row wf_cascade_users) (auto simp: cascade_users_fields)
  then show ?thesis by (simp add: cascade_users_fields)
qed

lemma wf_addressOwner:
  assumes "wf_db d" "addressOwner env claim allowCreate known d = (Inr (uid, how), d')"
  shows "wf_db d' \<and> uid \<in> set (user_ids d')"
  using assms
proof (cases rule: addressOwner_Inr)
  case (owned u)
  then show ?thesis using assms(1) user_by_id_None [of d uid] by auto
next
  case created
  then show ?thesis using assms(1) wf_provider_row [of d claim env]
    by (auto simp: user_ids_def insert_user_def dest: answers_exact)
next
  case (replaced old)
  then show ?thesis using assms(1) wf_replacing [of d "u_id old" claim env]
    by (auto simp: user_ids_def insert_user_def)
qed

lemma wf_insert_identity:
  assumes "wf_db d" "uid \<in> set (user_ids d)" "identity_of (Provider claim) (Subject claim) d = None"
  shows "wf_db (insert_identity env uid claim signedIn d)"
proof -
  have "(Provider claim, Subject claim) \<notin> (\<lambda>i. (i_provider i, i_subject i)) ` set (identities d)"
    using assms(3) by (auto simp: identity_of_def find_None_iff)
  then have "wf_identities (insert_identity env uid claim signedIn d)"
    using assms(1,2) by (fastforce simp: wf_db_def wf_identities_def insert_identity_def unique_on_append user_ids_def)
  with assms(1) show ?thesis by (simp add: wf_db_def wf_defs insert_identity_def)
qed

lemma wf_update_identities:
  assumes "\<And>i. i_id (f i) = i_id i" "\<And>i. i_user_id (f i) = i_user_id i"
    "\<And>i. i_provider (f i) = i_provider i" "\<And>i. i_subject (f i) = i_subject i"
  shows "wf_db d \<Longrightarrow> wf_db (d\<lparr>identities := update_where P f (identities d)\<rparr>)"
  using assms by (simp add: wf_db_def wf_defs unique_on_update refers_update ball_update_where)

lemma wf_delete_identities: "wf_db d \<Longrightarrow> wf_db (d\<lparr>identities := delete_where P (identities d)\<rparr>)"
  by (auto simp: wf_db_def wf_defs)

lemma wf_resolveIdentity:
  assumes "wf_db d"
  shows "wf_db (snd (resolveIdentity env claim allowCreate d))"
proof (cases "identity_of (Provider claim) (Subject claim) d")
  case (Some i)
  then show ?thesis using assms by (simp add: resolveIdentity_def wf_update_identities)
next
  case None
  then show ?thesis
    using assms by (auto simp: resolveIdentity_def split: prod.split sum.split
        intro!: wf_insert_identity dest: wf_addressOwner)
qed

lemma wf_SignInWithIdentity: "wf_db d \<Longrightarrow> wf_db (snd (SignInWithIdentity env claim allowCreate d))"
  using wf_resolveIdentity [of d env claim allowCreate]
  by (auto simp: SignInWithIdentity_def split: prod.split sum.split)

lemma wf_SignInWithEmail: "wf_db d \<Longrightarrow> wf_db (snd (SignInWithEmail env email fullName allowCreate d))"
  by (auto simp: SignInWithEmail_def Let_def split: prod.split sum.split dest: wf_addressOwner)

lemma wf_SaveFlowState: "wf_db d \<Longrightarrow> wf_db (snd (SaveFlowState env state d))"
  by (auto simp: SaveFlowState_def Let_def wf_db_def wf_defs unique_on_append exists_where_key [where k = f_state_hash]
      nullif_def split: option.splits if_splits)

lemma wf_ConsumeFlowState: "wf_db d \<Longrightarrow> wf_db (snd (ConsumeFlowState env hash d))"
  by (auto simp: ConsumeFlowState_def Let_def wf_db_def wf_defs split: option.split)

lemma wf_SaveAuthCode: "wf_db d \<Longrightarrow> wf_db (snd (SaveAuthCode env code d))"
  by (auto simp: SaveAuthCode_def Let_def wf_db_def wf_defs unique_on_append exists_where_key [where k = c_code_hash])

lemma wf_RedeemAuthCode: "wf_db d \<Longrightarrow> wf_db (snd (RedeemAuthCode env hash d))"
  by (simp add: RedeemAuthCode_def wf_db_def wf_defs unique_on_update refers_update split: option.split)

lemma wf_UnlinkIdentity: "wf_db d \<Longrightarrow> wf_db (snd (UnlinkIdentity uid i d))"
  by (simp add: UnlinkIdentity_def Let_def wf_delete_identities split: option.split)

section \<open>Codes and flow states are spent once\<close>

definition redeem_code :: "sql_env \<Rightarrow> string \<Rightarrow> db \<Rightarrow> AuthCode option \<times> db" where
  "redeem_code env codeHash d = handed (RedeemAuthCode env codeHash d)"

definition code_spent :: "string \<Rightarrow> db \<Rightarrow> bool" where
  "code_spent codeHash d \<longleftrightarrow> (\<forall>c \<in> set (auth_codes d). c_code_hash c = codeHash \<longrightarrow> c_consumed_at c \<noteq> None)"

lemma code_spent_Redeem: "code_spent h d \<Longrightarrow> code_spent h (snd (RedeemAuthCode env h' d))"
  by (auto simp: code_spent_def RedeemAuthCode_def ball_update_where split: option.split)

interpretation code_once: single_use redeem_code code_spent wf_db
proof
  fix d :: db and env :: sql_env and h h' :: string
  show "wf_db (snd (redeem_code env h d))" if "wf_db d"
    using wf_RedeemAuthCode [OF that] by (simp add: redeem_code_def)
  show "fst (redeem_code env h d) = None" if "code_spent h d"
    using that by (auto simp: redeem_code_def code_spent_def RedeemAuthCode_def live_code_def find_None_iff
        split: option.split)
  show "code_spent h (snd (redeem_code env h' d))" if "code_spent h d"
    using code_spent_Redeem [OF that] by (simp add: redeem_code_def)
  show "code_spent h (snd (redeem_code env h d))" if "wf_db d" "fst (redeem_code env h d) \<noteq> None"
  proof -
    from that(2) obtain c where c: "List.find (live_code env h) (auth_codes d) = Some c"
      by (auto simp: redeem_code_def RedeemAuthCode_def split: option.splits)
    have "c' = c" if "c' \<in> set (auth_codes d)" "c_code_hash c' = h" for c'
      using that \<open>wf_db d\<close> find_Some_mem [OF c]
      by (auto simp: wf_db_def wf_flows_def live_code_def dest: unique_on_eq)
    then show ?thesis using c find_Some_mem [OF c]
      by (auto simp: code_spent_def redeem_code_def RedeemAuthCode_def ball_update_where)
  qed
qed

definition consume_state :: "sql_env \<Rightarrow> string \<Rightarrow> db \<Rightarrow> FlowState option \<times> db" where
  "consume_state env stateHash d = handed (ConsumeFlowState env stateHash d)"

definition state_spent :: "string \<Rightarrow> db \<Rightarrow> bool" where
  "state_spent stateHash d \<longleftrightarrow> stateHash \<notin> f_state_hash ` set (flow_states d)"

interpretation state_once: single_use consume_state state_spent wf_db
proof
  fix d :: db and env :: sql_env and h h' :: string
  show "wf_db (snd (consume_state env h d))" if "wf_db d"
    using wf_ConsumeFlowState [OF that] by (simp add: consume_state_def)
  show "fst (consume_state env h d) = None" if "state_spent h d"
    using that by (auto simp: consume_state_def state_spent_def ConsumeFlowState_def Let_def find_None_iff
        split: option.split)
  show "state_spent h (snd (consume_state env h' d))" if "state_spent h d"
    using that by (auto simp: consume_state_def state_spent_def ConsumeFlowState_def Let_def split: option.split)
  show "state_spent h (snd (consume_state env h d))" if "wf_db d" "fst (consume_state env h d) \<noteq> None"
  proof -
    from that(2) obtain f where
      f: "List.find (\<lambda>f. f_state_hash f = h \<and> f_expires_at f > sql_now env) (flow_states d) = Some f"
      by (auto simp: consume_state_def ConsumeFlowState_def Let_def split: option.splits)
    have "f' = f" if "f' \<in> set (flow_states d)" "f_state_hash f' = h" for f'
      using that \<open>wf_db d\<close> find_Some_mem [OF f]
      by (auto simp: wf_db_def wf_flows_def dest: unique_on_eq)
    then have "h \<notin> f_state_hash ` {x \<in> set (flow_states d). \<not> (f_state_hash x = h \<and> sql_now env < f_expires_at x)}"
      using find_Some_mem [OF f] by blast
    then show ?thesis using f by (simp add: state_spent_def consume_state_def ConsumeFlowState_def)
  qed
qed

section \<open>Linking keeps integrity\<close>

lemma claimAddress_Inr:
  assumes "claimAddress env uid email d = (Inr deleted, d')"
  shows "d' = cascade_users (\<lambda>i. i \<in> set deleted) d \<or> deleted = [] \<and> d' = d"
    and "set deleted = u_id ` {u \<in> set (users d). answers_to env u email}"
    and "\<forall>u \<in> set (users d). answers_to env u email \<longrightarrow> u_id u \<noteq> uid \<and> \<not> proven u \<and> u_enabled u"
  using assms by (auto simp: claimAddress_def Let_def exists_where_iff delete_users_def filter_empty_conv split: if_splits)

lemma claimAddress_users:
  assumes "wf_db d" "claimAddress env uid email d = (Inr deleted, d')"
  shows "wf_db d'" "users d' = filter (\<lambda>u. \<not> answers_to env u email) (users d)"
proof -
  show "wf_db d'" using claimAddress_Inr(1) [OF assms(2)] assms(1) by (auto intro: wf_cascade_users)
  have in_del: "u_id u \<in> set deleted \<longleftrightarrow> answers_to env u email" if "u \<in> set (users d)" for u
    using claimAddress_Inr(2) [OF assms(2)] that assms(1)
    by (auto simp: wf_db_def wf_users_def dest: unique_on_eq)
  then have "filter (\<lambda>u. u_id u \<notin> set deleted) (users d) = filter (\<lambda>u. \<not> answers_to env u email) (users d)"
    by (auto intro: filter_cong)
  moreover have "filter (\<lambda>u. u_id u \<notin> set []) (users d) = users d" by simp
  ultimately show "users d' = filter (\<lambda>u. \<not> answers_to env u email) (users d)"
    using claimAddress_Inr(1) [OF assms(2)] by (auto simp: cascade_users_fields delete_where_def)
qed

lemma user_by_id_filter:
  assumes "wf_db d" "users d' = filter P (users d)" "user_by_id d i = Some u" "P u"
  shows "user_by_id d' i = Some u"
proof -
  have u: "u \<in> set (users d)" "u_id u = i" using user_by_id_Some [OF assms(3)] by auto
  have "unique_on u_id (users d')"
    using assms(1,2) unique_on_delete [of u_id "users d" "\<lambda>u. \<not> P u"]
    by (simp add: wf_db_def wf_users_def delete_where_def)
  moreover have "u \<in> set (users d')" using u assms(2,4) by simp
  ultimately show ?thesis using find_Some_unique [of u_id "users d'" u] u(2) by (simp add: user_by_id_def)
qed

lemma wf_guest_update:
  assumes "wf_db d" "\<forall>u \<in> set (users d). u_id u \<noteq> uid \<longrightarrow> u_email u \<noteq> Some email"
    and "\<And>u. u_id (f u) = u_id u" "\<And>u. u_email (f u) = Some email"
  shows "wf_db (d\<lparr>users := update_where (\<lambda>u. u_id u = uid \<and> u_is_guest u) f (users d)\<rparr>)"
proof (cases "\<exists>u \<in> set (users d). u_id u = uid \<and> u_is_guest u")
  case True
  then have "update_where (\<lambda>u. u_id u = uid \<and> u_is_guest u) f (users d) = update_where (\<lambda>u. u_id u = uid) f (users d)"
    using assms(1) by (auto simp: update_where_def wf_db_def wf_users_def dest: unique_on_eq)
  then show ?thesis using wf_readdress_user [of d f email uid] assms by (simp add: update_user_def)
next
  case False
  then have "update_where (\<lambda>u. u_id u = uid \<and> u_is_guest u) f (users d) = users d"
    by (auto simp: update_where_def intro!: map_idI)
  then show ?thesis using assms(1) by simp
qed

lemma wf_upgradeGuest:
  assumes "wf_db d" "upgradeGuest env uid email d = Inr d'"
  shows "wf_db d'"
proof (cases "exists_where (\<lambda>u. u_id u = uid \<and> u_is_guest u) (users d)")
  case True
  with assms(2) have "\<forall>u \<in> set (users d). u_id u \<noteq> uid \<longrightarrow> u_email u \<noteq> Some email"
    by (auto simp: upgradeGuest_def Let_def exists_where_iff split: if_splits)
  with assms show ?thesis
    by (auto simp: upgradeGuest_def Let_def split: if_splits intro: wf_guest_update)
next
  case False
  then have "update_where (\<lambda>u. u_id u = uid \<and> u_is_guest u) f (users d) = users d" for f
    by (auto simp: update_where_def exists_where_iff intro!: map_idI)
  with assms False show ?thesis by (simp add: upgradeGuest_def Let_def)
qed

lemma linkTargetGuest_Inr:
  "linkTargetGuest uid d = Inr guest \<Longrightarrow>
     \<exists>u. user_by_id d uid = Some u \<and> u_enabled u \<and> u_is_guest u = guest \<and> (proven u \<or> guest)"
  by (auto simp: linkTargetGuest_def split: option.splits if_splits)

text \<open>The steps of a link that went through.\<close>

lemma LinkIdentity_Inr:
  assumes "wf_db d" "LinkIdentity env uid claim d = (Inr r, d')"
  obtains u d1 where "user_by_id d uid = Some u" "u_enabled u" "proven u \<or> u_is_guest u"
    "identity_of (Provider claim) (Subject claim) d = None"
    "if Provider claim = EmailProvider \<or> u_is_guest u
     then claimAddress env uid (ClaimEmail claim) d = (Inr (Deleted r), d1) else Deleted r = [] \<and> d1 = d"
    "identity_of (Provider claim) (Subject claim) d1 = None" "Upgraded r = u_is_guest u"
    "if u_is_guest u then upgradeGuest env uid (ClaimEmail claim) (insert_identity env uid claim None d1) = Inr d'
     else d' = insert_identity env uid claim None d1"
proof -
  from assms(2) obtain guest where g: "linkTargetGuest uid d = Inr guest"
    by (auto simp: LinkIdentity_def split: sum.splits)
  from linkTargetGuest_Inr [OF g] obtain u where
    u: "user_by_id d uid = Some u" "u_enabled u" "u_is_guest u = guest" "proven u \<or> guest" by auto
  show thesis
    by (rule that [OF u(1,2), of "if Provider claim = EmailProvider \<or> guest
          then snd (claimAddress env uid (ClaimEmail claim) d) else d"])
      (use assms(2) g u in \<open>auto simp: LinkIdentity_def Let_def
        split: if_splits option.splits prod.splits sum.splits\<close>)
qed

lemma wf_LinkIdentity:
  assumes "wf_db d"
  shows "wf_db (snd (LinkIdentity env uid claim d))"
proof (cases "LinkIdentity env uid claim d")
  case (Pair res d')
  show ?thesis
  proof (cases res)
    case (Inl e)
    then have "d' = d"
      using Pair by (auto simp: LinkIdentity_def Let_def split: if_splits option.splits prod.splits sum.splits)
    then show ?thesis using Pair assms by simp
  next
    case (Inr r)
    from assms Pair [unfolded Inr] show ?thesis
    proof (rule LinkIdentity_Inr)
      fix u d1
      assume u: "user_by_id d uid = Some u"
        and d1: "if Provider claim = EmailProvider \<or> u_is_guest u
          then claimAddress env uid (ClaimEmail claim) d = (Inr (Deleted r), d1) else Deleted r = [] \<and> d1 = d"
        and free: "identity_of (Provider claim) (Subject claim) d1 = None"
        and d': "if u_is_guest u then upgradeGuest env uid (ClaimEmail claim) (insert_identity env uid claim None d1) = Inr d'
          else d' = insert_identity env uid claim None d1"
      have "wf_db d1 \<and> uid \<in> set (user_ids d1)"
      proof (cases "Provider claim = EmailProvider \<or> u_is_guest u")
        case True
        then have c: "claimAddress env uid (ClaimEmail claim) d = (Inr (Deleted r), d1)" using d1 by simp
        have "\<not> answers_to env u (ClaimEmail claim)"
          using claimAddress_Inr(3) [OF c] user_by_id_Some [OF u] by auto
        then have "user_by_id d1 uid = Some u"
          using user_by_id_filter [OF assms claimAddress_users(2) [OF assms c] u] by simp
        then show ?thesis using claimAddress_users(1) [OF assms c] user_by_id_None [of d1 uid] by simp
      next
        case False
        then show ?thesis using d1 assms u user_by_id_None [of d uid] by simp
      qed
      then have "wf_db (insert_identity env uid claim None d1)" using free by (auto intro: wf_insert_identity)
      then have "wf_db d'" using d' by (auto split: if_splits dest: wf_upgradeGuest)
      then show ?thesis using Pair by simp
    qed
  qed
qed

section \<open>Properties\<close>

lemma user_by_id_insert:
  assumes "wf_db d" "u_id u = next_user d"
  shows "user_by_id (insert_user u d) j = (if j = u_id u then Some u else user_by_id d j)"
proof -
  have "user_by_id d (next_user d) = None"
    using assms(1) by (auto simp: user_by_id_None user_ids_def wf_db_def wf_users_def)
  then show ?thesis
    using assms(2) by (auto simp: user_by_id_def insert_user_def find_append split: option.split)
qed

lemma user_by_id_cascade: "user_by_id (cascade_users P d) j = (if P j then None else user_by_id d j)"
proof (cases "P j")
  case True
  then show ?thesis by (auto simp: user_by_id_None user_ids_cascade)
next
  case False
  have "List.find (\<lambda>u. u_id u = j) (delete_where (\<lambda>u. P (u_id u)) (users d)) = List.find (\<lambda>u. u_id u = j) (users d)"
    by (rule find_delete_where) (use False in auto)
  with False show ?thesis by (simp add: user_by_id_def cascade_users_fields)
qed

lemma next_user_free: "wf_db d \<Longrightarrow> next_user d \<notin> set (user_ids d)"
  by (auto simp: wf_db_def wf_users_def user_ids_def)

lemma AccountByID_Inr: "AccountByID i d = Inr a \<Longrightarrow> \<exists>u. user_by_id d i = Some u \<and> a = account_of u \<and> a_ID a = i"
  by (auto simp: AccountByID_def account_of_def split: option.splits dest: user_by_id_Some)

text \<open>How the account of an address came about, as both sign-ins report it.\<close>

definition owner_outcome :: "sql_env \<Rightarrow> IdentityClaim \<Rightarrow> bool \<Rightarrow> db \<Rightarrow> db \<Rightarrow> int \<Rightarrow> IdentityOutcome \<Rightarrow> bool" where
  "owner_outcome env claim allowCreate d d' uid how \<longleftrightarrow>
     (case how of
        IdentityCreated \<Rightarrow> allowCreate \<and> uid \<notin> set (user_ids d) \<and>
          user_by_id d' uid = Some (provider_row env claim uid) \<and>
          (\<forall>u \<in> set (users d). \<not> answers_to env u (ClaimEmail claim)) \<and>
          (\<forall>j. j \<noteq> uid \<longrightarrow> user_by_id d' j = user_by_id d j)
      | IdentityTookOver \<Rightarrow> uid \<notin> set (user_ids d) \<and>
          user_by_id d' uid = Some (provider_row env claim uid) \<and>
          (\<exists>old \<in> set (users d). \<not> proven old \<and> u_enabled old \<and> answers_to env old (ClaimEmail claim) \<and>
             user_by_id d' (u_id old) = None \<and> u_id old \<notin> r_user_id ` set (refresh_tokens d') \<and>
             (\<forall>j. j \<noteq> uid \<and> j \<noteq> u_id old \<longrightarrow> user_by_id d' j = user_by_id d j))
      | _ \<Rightarrow> users d' = users d \<and>
          (\<exists>u. user_by_id d uid = Some u \<and> u_enabled u \<and>
             (linked_to d uid (ClaimEmail claim) \<or> proven u \<and> answers_to env u (ClaimEmail claim))))"

lemma addressOwner_outcome:
  assumes "wf_db d" "addressOwner env claim allowCreate known d = (Inr (uid, how), d')"
    and "known = IdentityLinked \<or> known = IdentityKnown"
  shows "owner_outcome env claim allowCreate d d' uid how"
  using assms(1,2)
proof (cases rule: addressOwner_Inr)
  case (owned u)
  then show ?thesis using assms(3) by (auto simp: owner_outcome_def)
next
  case created
  then show ?thesis using next_user_free [OF assms(1)] user_by_id_insert [OF assms(1), of "provider_row env claim uid"]
    by (auto simp: owner_outcome_def)
next
  case (replaced old)
  let ?c = "cascade_users (\<lambda>j. j = u_id old) d"
  have wf: "wf_db ?c" using assms(1) by (rule wf_cascade_users)
  have rows: "user_by_id d' j = (if j = uid then Some (provider_row env claim uid) else
      if j = u_id old then None else user_by_id d j)" for j
    using user_by_id_insert [OF wf, of "provider_row env claim uid" j] replaced
    by (simp add: user_by_id_cascade cascade_users_fields)
  have old: "old \<in> set (users d)" using user_by_id_Some [OF replaced(2)] by simp
  then have "u_id old \<noteq> uid" using next_user_free [OF assms(1)] replaced(6) by (auto simp: user_ids_def image_iff)
  moreover have "u_id old \<notin> r_user_id ` set (refresh_tokens d')"
    by (auto simp: replaced(7) insert_user_def cascade_users_fields)
  ultimately show ?thesis
    using replaced old rows next_user_free [OF assms(1)] by (auto simp: owner_outcome_def intro!: bexI [of _ old])
qed

text \<open>C2: A provider sign-in reaches the right account. A known identity signs in to the account it
  is joined to. An unknown one is joined to an enabled account that proved or linked the address, and
  no account changes; or the unproven account holding the address is removed with its sessions and a
  new account without a password, under a new id, takes its place; or, when sign-ups are open and no
  account answers to the address, an account is created. Every other account stays as it was.\<close>

theorem provider_sign_in_reaches_owner:
  assumes "wf_db d" "SignInWithIdentity env claim allowCreate d = (Inr (account, how), d')"
  shows "if identity_of (Provider claim) (Subject claim) d \<noteq> None
    then how = IdentityKnown \<and> users d' = users d \<and>
      (\<exists>i \<in> set (identities d). i_provider i = Provider claim \<and> i_subject i = Subject claim \<and> i_user_id i = a_ID account)
    else how \<noteq> IdentityKnown \<and> owner_outcome env claim allowCreate d d' (a_ID account) how"
proof (cases "identity_of (Provider claim) (Subject claim) d")
  case (Some i)
  then show ?thesis
    using assms(2) identity_of_Some [OF Some]
    by (auto simp: SignInWithIdentity_def resolveIdentity_def split: sum.splits dest!: AccountByID_Inr)
next
  case None
  then obtain d1 where own: "addressOwner env claim allowCreate IdentityLinked d = (Inr (a_ID account, how), d1)"
    and d': "d' = insert_identity env (a_ID account) claim (Some (sql_now env)) d1"
    using assms(2)
    by (auto simp: SignInWithIdentity_def resolveIdentity_def split: prod.splits sum.splits if_splits dest!: AccountByID_Inr)
  have "owner_outcome env claim allowCreate d d1 (a_ID account) how"
    using addressOwner_outcome [OF assms(1) own] by simp
  then have "owner_outcome env claim allowCreate d d' (a_ID account) how"
    by (simp add: owner_outcome_def d' insert_identity_def user_by_id_def split: IdentityOutcome.splits)
  moreover have "how \<noteq> IdentityKnown" using assms(1) own by (cases rule: addressOwner_Inr) auto
  ultimately show ?thesis using None by simp
qed

definition sample_claim :: IdentityClaim where
  "sample_claim = \<lparr>Provider = ''google'', Subject = ''s-1'', ClaimEmail = ''A@b.c'', ClaimFullName = ''A''\<rparr>"

lemma sample_sign_in:
  "fst (SignInWithIdentity sample_env sample_claim True sample_db) = Inr (account_of sample_user, IdentityLinked)"
  by code_simp

lemma sample_sign_in_pair:
  "SignInWithIdentity sample_env sample_claim True sample_db =
     (Inr (account_of sample_user, IdentityLinked), snd (SignInWithIdentity sample_env sample_claim True sample_db))"
  using sample_sign_in by (metis prod.collapse)

theorem provider_sign_in_reaches_owner_witness:
  "wf_db sample_db \<and>
   fst (SignInWithIdentity sample_env sample_claim True sample_db) = Inr (account_of sample_user, IdentityLinked) \<and>
   users (snd (SignInWithIdentity sample_env sample_claim True sample_db)) = users sample_db"
proof -
  have "identity_of (Provider sample_claim) (Subject sample_claim) sample_db = None"
    by (simp add: identity_of_def sample_defs)
  with provider_sign_in_reaches_owner [OF wf_sample_db sample_sign_in_pair] sample_sign_in wf_sample_db
  show ?thesis by (simp add: owner_outcome_def)
qed

text \<open>Once an identity has signed in it keeps reaching the same account: signing in again with the
  same provider subject, whatever address the provider now reports and even while sign-ups are closed,
  returns the same account id as a known identity.\<close>

theorem provider_sign_in_is_stable:
  assumes "wf_db d" "SignInWithIdentity env claim allowCreate d = (Inr (account, how), d')"
    and "Provider again = Provider claim" "Subject again = Subject claim"
  shows "\<exists>account' d''. SignInWithIdentity env' again allowCreate' d' = (Inr (account', IdentityKnown), d'')
    \<and> a_ID account' = a_ID account \<and> users d'' = users d'"
proof -
  obtain uid where res: "resolveIdentity env claim allowCreate d = (Inr (uid, how), d')"
    and acc: "AccountByID uid d' = Inr account"
    using assms(2) by (auto simp: SignInWithIdentity_def split: prod.splits sum.splits)
  have uid: "a_ID account = uid" using AccountByID_Inr [OF acc] by auto
  obtain i where i: "identity_of (Provider claim) (Subject claim) d' = Some i" "i_user_id i = uid"
  proof (cases "identity_of (Provider claim) (Subject claim) d")
    case (Some i)
    then have "identity_of (Provider claim) (Subject claim) d' =
        Some (i\<lparr>i_email := Some (ClaimEmail claim), i_email_verified := True, i_last_sign_in_at := Some (sql_now env)\<rparr>)"
      using res by (auto simp: resolveIdentity_def identity_of_def find_update_same)
    moreover have "i_user_id i = uid" using res Some by (auto simp: resolveIdentity_def)
    ultimately show thesis by (auto intro: that)
  next
    case None
    then show thesis
      using res by (auto simp: resolveIdentity_def insert_identity_def identity_of_def find_append
          split: prod.splits sum.splits if_splits intro!: that)
  qed
  show ?thesis
    using i acc uid assms(3,4)
    by (auto simp: SignInWithIdentity_def resolveIdentity_def AccountByID_def user_by_id_def
        split: option.splits)
qed

theorem provider_sign_in_is_stable_witness:
  "wf_db sample_db \<and>
   (\<exists>account' d''. SignInWithIdentity sample_env (sample_claim\<lparr>ClaimEmail := ''moved@b.c''\<rparr>) False
      (snd (SignInWithIdentity sample_env sample_claim True sample_db)) = (Inr (account', IdentityKnown), d'') \<and> a_ID account' = 1)"
proof -
  have "a_ID (account_of sample_user) = 1" by (simp add: account_of_def sample_user_def)
  with provider_sign_in_is_stable [OF wf_sample_db sample_sign_in_pair, of "sample_claim\<lparr>ClaimEmail := ''moved@b.c''\<rparr>" sample_env False]
    wf_sample_db show ?thesis by auto
qed

text \<open>An authorization code is redeemed at most once, and a sign-in flow's state is consumed at most
  once, over any sequence of requests that present them.\<close>

theorem auth_code_and_state_single_use:
  assumes "wf_db d"
  shows "granted qs (fst (serve (\<lambda>(env, code). redeem_code env code) qs d)) code \<le> 1 \<and>
    granted qs (fst (serve (\<lambda>(env, state). consume_state env state) qs d)) state \<le> 1"
  using code_once.granted_at_most_once [OF assms] state_once.granted_at_most_once [OF assms] by blast

theorem auth_code_and_state_single_use_witness:
  "wf_db sample_db \<and>
   granted [(sample_env, ''c''), (sample_env, ''c'')]
     (fst (serve (\<lambda>(env, code). redeem_code env code) [(sample_env, ''c''), (sample_env, ''c'')] sample_db)) ''c'' \<le> 1"
  using auth_code_and_state_single_use [OF wf_sample_db, of "[(sample_env, ''c''), (sample_env, ''c'')]" "''c''" "''c''"]
    wf_sample_db by blast

text \<open>What a flow carries comes back unchanged, and only while it lives: a saved authorization code
  redeemed before its expiry yields the account, the challenge and the link it was saved with; at or
  after its expiry it yields nothing.\<close>

theorem auth_code_round_trip:
  assumes "SaveAuthCode env code d = (Inr (), d')"
  shows "fst (RedeemAuthCode env' (ac_CodeHash code) d') =
    (if sql_now env' < ac_ExpiresAt code then Inr (code\<lparr>ac_Link := (ac_Link code)\<lparr>ClaimFullName := []\<rparr>\<rparr>)
     else Inl ErrNotFound)"
proof -
  let ?old = "delete_where (\<lambda>c. c_expires_at c < sql_now env) (auth_codes d)"
  have none: "List.find (live_code env' (ac_CodeHash code)) ?old = None"
    using assms by (auto simp: SaveAuthCode_def Let_def exists_where_iff find_None_iff live_code_def split: if_splits)
  have tab: "auth_codes d' = ?old @ [\<lparr>c_code_hash = ac_CodeHash code, c_user_id = ac_UserID code,
      c_code_challenge = ac_CodeChallenge code, c_link_provider = nullif (Provider (ac_Link code)) [],
      c_link_subject = nullif (Subject (ac_Link code)) [], c_link_email = nullif (ClaimEmail (ac_Link code)) [],
      c_expires_at = ac_ExpiresAt code, c_consumed_at = None\<rparr>]"
    using assms by (auto simp: SaveAuthCode_def Let_def split: if_splits)
  show ?thesis
    using none by (simp add: RedeemAuthCode_def tab find_append live_code_def coalesce_def nullif_def)
qed

theorem auth_code_round_trip_witness:
  "\<exists>code. fst (SaveAuthCode sample_env code sample_db) = Inr () \<and>
     fst (RedeemAuthCode sample_env (ac_CodeHash code) (snd (SaveAuthCode sample_env code sample_db))) =
       Inr (code\<lparr>ac_Link := (ac_Link code)\<lparr>ClaimFullName := []\<rparr>\<rparr>)"
proof -
  let ?code = "\<lparr>ac_CodeHash = ''c'', ac_UserID = 1, ac_CodeChallenge = ''ch'', ac_Link = sample_claim, ac_ExpiresAt = 500\<rparr>"
  have ok: "fst (SaveAuthCode sample_env ?code sample_db) = Inr ()"
    by (simp add: SaveAuthCode_def sample_defs exists_where_def delete_where_def user_ids_def)
  then have "SaveAuthCode sample_env ?code sample_db = (Inr (), snd (SaveAuthCode sample_env ?code sample_db))"
    by (metis prod.collapse)
  from auth_code_round_trip [OF this, of sample_env] ok show ?thesis
    by (intro exI [of _ ?code]) (simp add: sample_env_def)
qed

text \<open>C40: No one can unlink their way out of an account: an unlinking that succeeds removes exactly the
  named identity of that account, and leaves it another identity or a usable password. Otherwise it is
  refused with the reason and nothing changes.\<close>

theorem unlink_keeps_a_sign_in_method:
  assumes "wf_db d" "UnlinkIdentity uid identityID d = (res, d')"
  shows "case res of
      Inr i \<Rightarrow> i \<in> set (identities d) \<and> i_id i = identityID \<and> i_user_id i = uid \<and>
        set (identities d') = set (identities d) - {i} \<and>
        ((\<exists>other \<in> set (identities d'). i_user_id other = uid) \<or>
         (\<exists>u p. user_by_id d' uid = Some u \<and> u_password u = Some p \<and> \<not> HasPrefix p ''!''))
    | Inl e \<Rightarrow> d' = d \<and> e \<in> {ErrNotFound, ErrLastSignInMethod}"
proof (cases res)
  case (Inl e)
  then show ?thesis
    using assms(2) by (auto simp: UnlinkIdentity_def Let_def split: option.splits if_splits)
next
  case (Inr i)
  with assms(2) obtain u where u: "user_by_id d uid = Some u"
    and i: "List.find (\<lambda>i. i_id i = identityID) (listIdentities uid d) = Some i"
    and d': "d' = d\<lparr>identities := delete_where (\<lambda>i. i_id i = identityID \<and> i_user_id i = uid) (identities d)\<rparr>"
    and keeps: "length (listIdentities uid d) \<noteq> 1 \<or> (\<exists>p. u_password u = Some p \<and> \<not> HasPrefix p ''!'')"
    by (auto simp: UnlinkIdentity_def Let_def split: option.splits if_splits)
  have mem: "i \<in> set (identities d)" "i_id i = identityID" "i_user_id i = uid"
    using find_Some_mem [OF i] by (auto simp: listIdentities_def)
  have only: "x = i" if "x \<in> set (identities d)" "i_id x = identityID" for x
    using that mem assms(1) by (auto simp: wf_db_def wf_identities_def dest: unique_on_eq)
  have "x \<in> set (identities d') \<longleftrightarrow> x \<in> set (identities d) \<and> x \<noteq> i" for x
    unfolding d' using only [of x] mem by (cases "x = i") auto
  then have gone: "set (identities d') = set (identities d) - {i}" by blast
  have "\<exists>other \<in> set (identities d'). i_user_id other = uid" if "length (listIdentities uid d) \<noteq> 1"
  proof (rule ccontr)
    assume "\<not> ?thesis"
    then have "set (filter (\<lambda>i. i_user_id i = uid) (identities d)) = {i}" using gone mem by auto
    moreover have "distinct (filter (\<lambda>i. i_user_id i = uid) (identities d))"
      using assms(1) by (auto simp: wf_db_def wf_identities_def unique_on_def distinct_map)
    ultimately have "length (filter (\<lambda>i. i_user_id i = uid) (identities d)) = 1"
      using distinct_card by fastforce
    then show False using that by (simp add: listIdentities_def)
  qed
  moreover have "user_by_id d' uid = Some u" using u by (simp add: d' user_by_id_def)
  ultimately show ?thesis using Inr mem gone keeps by auto
qed

theorem unlink_keeps_a_sign_in_method_witness:
  "wf_db sample_db \<and> fst (UnlinkIdentity 1 7 sample_db) = Inl ErrNotFound \<and> snd (UnlinkIdentity 1 7 sample_db) = sample_db"
proof -
  have "fst (UnlinkIdentity 1 7 sample_db) = Inl ErrNotFound"
    by (simp add: UnlinkIdentity_def user_by_id_def listIdentities_def sample_defs)
  with unlink_keeps_a_sign_in_method [OF wf_sample_db prod.collapse [symmetric], of 1 7] wf_sample_db
  show ?thesis by simp
qed

end
