(* ===== verification/PgEmail.thy ===== *)
theory PgEmail
  imports PgIdentities
begin

text \<open>
  Sign-in by emailed link or code (\<open>internal/store/pgstore/email_otps.go\<close>) and changes of an
  account's address (\<open>pgstore/email_change.go\<close>). Budgets are counted from the rows; the lock rows
  serialise the counting, so each operation is one step.
\<close>

section \<open>Emailed codes and links\<close>

record EmailOTP =
  eo_Email :: string
  eo_Kind :: string
  eo_LinkHash :: string
  eo_CodeHMAC :: string
  eo_CodeChallenge :: string
  eo_CreateUser :: bool
  eo_Mailed :: bool
  eo_IP :: string
  eo_Attempts :: int
  eo_ExpiresAt :: time
  eo_LinkUserID :: int

record OTPLimits =
  ol_MinInterval :: duration
  ol_PerAddressHour :: int
  ol_PerProjectDay :: int
  ol_PerIPDay :: int
  ol_LinksPerAccountDay :: int

record OTPLookup =
  lk_LinkHash :: string
  lk_Email :: string
  lk_CodeChallenge :: string

definition same_address :: "sql_env \<Rightarrow> string \<Rightarrow> otp_row \<Rightarrow> bool" where
  "same_address env email e = (sql_lower env (o_email e) = sql_lower env email)"

definition withinOTPLimits :: "sql_env \<Rightarrow> EmailOTP \<Rightarrow> OTPLimits \<Rightarrow> db \<Rightarrow> store_error + bool" where
  "withinOTPLimits env otp limits d =
     (let rows = filter (\<lambda>e. o_created_at e > sql_now env - day) (email_otps d);
          recent = count_where (\<lambda>e. same_address env (eo_Email otp) e \<and> o_created_at e > sql_now env - ol_MinInterval limits) rows;
          lastHour = count_where (\<lambda>e. same_address env (eo_Email otp) e \<and> o_created_at e > sql_now env - hour) rows;
          fromIP = count_where (\<lambda>e. o_ip e = Some (eo_IP otp)) rows;
          mailedToday = count_where o_mailed rows;
          links = count_where (\<lambda>e. o_link_user_id e = Some (eo_LinkUserID otp)) rows;
          overLinks = (eo_LinkUserID otp \<noteq> 0 \<and> ol_LinksPerAccountDay limits > 0 \<and> links \<ge> ol_LinksPerAccountDay limits)
      in if recent > 0 \<or> lastHour \<ge> ol_PerAddressHour limits \<or> fromIP \<ge> ol_PerIPDay limits \<or> overLinks
         then Inl ErrRateLimited
         else Inr (eo_Mailed otp \<and> mailedToday < ol_PerProjectDay limits))"

definition SaveEmailOTP :: "sql_env \<Rightarrow> EmailOTP \<Rightarrow> OTPLimits \<Rightarrow> db \<Rightarrow> bool outcome" where
  "SaveEmailOTP env otp limits d =
     (case withinOTPLimits env otp limits d of
        Inl e \<Rightarrow> (Inl e, d)
      | Inr mailed \<Rightarrow>
          let kept = delete_where (\<lambda>e. o_created_at e < sql_now env - day) (email_otps d);
              rows = update_where (\<lambda>e. mailed \<and> same_address env (eo_Email otp) e \<and>
                         o_code_challenge e = eo_CodeChallenge otp \<and> o_consumed_at e = None)
                       (\<lambda>e. e\<lparr>o_consumed_at := Some (sql_now env)\<rparr>) kept;
              link = nullif (eo_LinkHash otp) [];
              uid = nullif (eo_LinkUserID otp) 0
          in if exists_where (\<lambda>e. link \<noteq> None \<and> o_link_hash e = link) rows \<or>
                (case uid of None \<Rightarrow> False | Some i \<Rightarrow> i \<notin> set (user_ids d))
             then (Inl ErrConstraint, d)
             else (Inr mailed, d\<lparr>email_otps := rows @
               [\<lparr>o_id = next_otp d, o_email = eo_Email otp, o_kind = eo_Kind otp, o_link_hash = link,
                 o_code_hmac = nullif (eo_CodeHMAC otp) [], o_code_challenge = eo_CodeChallenge otp,
                 o_create_user = eo_CreateUser otp, o_mailed = mailed, o_ip = nullif (eo_IP otp) [],
                 o_attempts = 0, o_expires_at = eo_ExpiresAt otp, o_consumed_at = None,
                 o_created_at = sql_now env, o_link_user_id = uid\<rparr>], next_otp := next_otp d + 1\<rparr>))"

definition live_otp :: "sql_env \<Rightarrow> otp_row \<Rightarrow> bool" where
  "live_otp env e = (o_mailed e \<and> o_consumed_at e = None \<and> o_expires_at e > sql_now env)"

text \<open>\<open>liveLinkQuery\<close> and \<open>liveCodeQuery\<close>; the latter takes the newest code, the highest id among equals.\<close>

definition live_row :: "sql_env \<Rightarrow> OTPLookup \<Rightarrow> int \<Rightarrow> db \<Rightarrow> otp_row option" where
  "live_row env lookup perCode d =
     (if lk_LinkHash lookup \<noteq> []
      then List.find (\<lambda>e. live_otp env e \<and> o_link_hash e = Some (lk_LinkHash lookup) \<and> o_kind e = OTPMagicLink) (email_otps d)
      else
        let rows = filter (\<lambda>e. live_otp env e \<and> same_address env (lk_Email lookup) e \<and> o_kind e = OTPEmailCode \<and>
                     o_attempts e < perCode \<and> o_code_challenge e = lk_CodeChallenge lookup) (email_otps d)
        in case sort_key o_created_at (sort_key o_id rows) of [] \<Rightarrow> None | es \<Rightarrow> Some (last es))"

definition otp_of :: "otp_row \<Rightarrow> EmailOTP" where
  "otp_of e = \<lparr>eo_Email = o_email e, eo_Kind = o_kind e, eo_LinkHash = coalesce (o_link_hash e) [],
     eo_CodeHMAC = coalesce (o_code_hmac e) [], eo_CodeChallenge = o_code_challenge e,
     eo_CreateUser = o_create_user e, eo_Mailed = False, eo_IP = [], eo_Attempts = o_attempts e,
     eo_ExpiresAt = o_expires_at e, eo_LinkUserID = coalesce (o_link_user_id e) 0\<rparr>"

text \<open>A refused guess is committed too: it counts against the code, and a link is spent by any presentation.\<close>

definition RedeemEmailOTP :: "sql_env \<Rightarrow> OTPLookup \<Rightarrow> int \<Rightarrow> (EmailOTP \<Rightarrow> bool) \<Rightarrow> db \<Rightarrow> EmailOTP outcome" where
  "RedeemEmailOTP env lookup perCode check d =
     (case live_row env lookup perCode d of
        None \<Rightarrow> (Inl ErrNotFound, d)
      | Some e \<Rightarrow>
          let otp = otp_of e;
              accepted = check otp;
              spent = (accepted \<or> eo_Kind otp = OTPMagicLink \<or> eo_Attempts otp + 1 \<ge> perCode);
              attempts = (if accepted then eo_Attempts otp else eo_Attempts otp + 1);
              d1 = d\<lparr>email_otps := update_where (\<lambda>x. o_id x = o_id e)
                     (\<lambda>x. x\<lparr>o_attempts := attempts, o_consumed_at := (if spent then Some (sql_now env) else None)\<rparr>)
                     (email_otps d)\<rparr>
          in (if accepted then Inr otp else Inl ErrNotFound, d1))"

record AuditEvent =
  ae_UserID :: int
  ae_Event :: string
  ae_Method :: string
  ae_IP :: string

definition RecordAudit :: "sql_env \<Rightarrow> AuditEvent \<Rightarrow> db \<Rightarrow> db" where
  "RecordAudit env event d =
     d\<lparr>audit_log := audit_log d @ [\<lparr>l_user_id = nullif (ae_UserID event) 0, l_event = ae_Event event,
        l_method = nullif (ae_Method event) [], l_ip = nullif (ae_IP event) [], l_created_at = sql_now env\<rparr>]\<rparr>"

section \<open>Changing the address\<close>

record EmailChange =
  ec_UserID :: int
  ec_NewEmail :: string
  ec_TokenHash :: string
  ec_ExpiresAt :: time
  ec_GuestClient :: string

record EmailChangeLimits =
  cl_MinInterval :: duration
  cl_PerAccountDay :: int
  cl_PerProjectDay :: int
  cl_PerGuestClientDay :: int
  cl_GuestPerProjectDay :: int

record EmailChangeMail =
  cm_Notice :: bool
  cm_Link :: bool

record ChangedEmail =
  ce_UserID :: int
  ce_OldEmail :: string
  ce_NewEmail :: string
  ce_Replaced :: "int list"

definition changeMail :: "sql_env \<Rightarrow> EmailChange \<Rightarrow> int \<Rightarrow> db \<Rightarrow> EmailChangeMail" where
  "changeMail env change perProjectDay d =
     (let held = (exists_where (\<lambda>u. answers_to env u (ec_NewEmail change) \<and> u_id u \<noteq> ec_UserID change \<and>
                     (proven u \<or> \<not> u_enabled u)) (users d) \<or>
                  exists_where (\<lambda>i. i_provider i = EmailProvider \<and> i_subject i = AddressKey (ec_NewEmail change) \<and>
                     i_user_id i \<noteq> ec_UserID change) (identities d));
          sent = count_where (\<lambda>g. g_mailed g \<and> g_created_at g > sql_now env - day) (email_change_tokens d);
          notice = (sent < perProjectDay)
      in \<lparr>cm_Notice = notice, cm_Link = (notice \<and> \<not> held)\<rparr>)"

definition guestChangeLimited :: "sql_env \<Rightarrow> EmailChange \<Rightarrow> EmailChangeLimits \<Rightarrow> db \<Rightarrow> store_error option" where
  "guestChangeLimited env change limits d =
     (if guest_lock d = None then Some ErrMissingLock
      else
        let rows = filter (\<lambda>g. g_guest_client g \<noteq> None \<and> g_created_at g > sql_now env - day) (email_change_tokens d);
            fromClient = count_where (\<lambda>g. g_guest_client g = Some (ec_GuestClient change)) rows;
            guests = count_where g_mailed rows
        in if fromClient \<ge> cl_PerGuestClientDay limits \<or> guests \<ge> cl_GuestPerProjectDay limits
           then Some ErrRateLimited else None)"

definition SaveEmailChange :: "sql_env \<Rightarrow> EmailChange \<Rightarrow> EmailChangeLimits \<Rightarrow> db \<Rightarrow> EmailChangeMail outcome" where
  "SaveEmailChange env change limits d =
     (case linkTargetGuest (ec_UserID change) d of
        Inl e \<Rightarrow> (Inl e, d)
      | Inr _ \<Rightarrow>
          let rows = filter (\<lambda>g. g_user_id g = ec_UserID change \<and> g_created_at g > sql_now env - day) (email_change_tokens d);
              today = count_where (\<lambda>_. True) rows;
              recent = exists_where (\<lambda>g. g_created_at g > sql_now env - cl_MinInterval limits) rows
          in if recent \<or> today \<ge> cl_PerAccountDay limits then (Inl ErrRateLimited, d)
             else (case (if ec_GuestClient change \<noteq> [] then guestChangeLimited env change limits d else None) of
                Some e \<Rightarrow> (Inl e, d)
              | None \<Rightarrow>
                  let mail = changeMail env change (cl_PerProjectDay limits) d;
                      d1 = endChangesQuery env (ec_UserID change) d;
                      kept = delete_where (\<lambda>g. g_created_at g < sql_now env - day) (email_change_tokens d1)
                  in if exists_where (\<lambda>g. g_token_hash g = ec_TokenHash change) kept then (Inl ErrConstraint, d)
                     else (Inr mail, d1\<lparr>email_change_tokens := kept @
                       [\<lparr>g_user_id = ec_UserID change, g_new_email = ec_NewEmail change, g_token_hash = ec_TokenHash change,
                         g_mailed = cm_Notice mail, g_expires_at = ec_ExpiresAt change, g_consumed_at = None,
                         g_created_at = sql_now env, g_guest_client = nullif (ec_GuestClient change) []\<rparr>]\<rparr>)))"

definition releaseOwnLinkedAddress :: "int \<Rightarrow> string \<Rightarrow> db \<Rightarrow> store_error + db" where
  "releaseOwnLinkedAddress uid newEmail d =
     (case identity_of EmailProvider (AddressKey newEmail) d of
        None \<Rightarrow> Inr d
      | Some i \<Rightarrow>
          if i_user_id i \<noteq> uid then Inl ErrIdentityExists
          else Inr (d\<lparr>identities := delete_where (\<lambda>i. i_provider i = EmailProvider \<and> i_subject i = AddressKey newEmail) (identities d)\<rparr>))"

definition live_change :: "sql_env \<Rightarrow> int \<Rightarrow> string \<Rightarrow> change_row \<Rightarrow> bool" where
  "live_change env uid tokenHash g =
     (g_token_hash g = tokenHash \<and> g_user_id g = uid \<and> g_consumed_at g = None \<and> g_expires_at g > sql_now env)"

text \<open>\<open>UPDATE auth.users SET email = \<dots>\<close>, refused when another account holds exactly the address.\<close>

definition readdress :: "sql_env \<Rightarrow> int \<Rightarrow> string \<Rightarrow> db \<Rightarrow> store_error + db" where
  "readdress env uid email d =
     (if exists_where (\<lambda>u. u_id u \<noteq> uid \<and> u_email u = Some email) (users d) then Inl ErrConstraint
      else Inr (update_user uid (\<lambda>u. u\<lparr>u_email := Some email, u_email_verified := True,
             u_email_verified_at := Some (sql_now env)\<rparr>) d))"

definition ConfirmEmailChange :: "sql_env \<Rightarrow> int \<Rightarrow> string \<Rightarrow> db \<Rightarrow> ChangedEmail outcome" where
  "ConfirmEmailChange env uid tokenHash d =
     (case List.find (live_change env uid tokenHash) (email_change_tokens d) of
        None \<Rightarrow> (Inl ErrNotFound, d)
      | Some g \<Rightarrow>
          (case user_by_id d (g_user_id g) of
             None \<Rightarrow> (Inl ErrNotFound, d)
           | Some u \<Rightarrow>
               if \<not> u_enabled u then (Inl ErrAccountDisabled, d)
               else (case releaseOwnLinkedAddress (g_user_id g) (g_new_email g) d of
                 Inl e \<Rightarrow> (Inl e, d)
               | Inr d1 \<Rightarrow>
                   (case claimAddress env (g_user_id g) (g_new_email g) d1 of
                      (Inl e, _) \<Rightarrow> (Inl e, d)
                    | (Inr replaced, d2) \<Rightarrow>
                        (case readdress env (g_user_id g) (g_new_email g) d2 of
                           Inl e \<Rightarrow> (Inl e, d)
                         | Inr d3 \<Rightarrow>
                             (case upgradeGuest env (g_user_id g) (g_new_email g) d3 of
                                Inl e \<Rightarrow> (Inl e, d)
                              | Inr d4 \<Rightarrow>
                                  let d5 = endChangesQuery env (g_user_id g) d4;
                                      d6 = d5\<lparr>password_reset_tokens := spend_links_of env (g_user_id g) (password_reset_tokens d5)\<rparr>;
                                      d7 = d6\<lparr>email_verification_tokens := spend_links_of env (g_user_id g) (email_verification_tokens d6)\<rparr>
                                  in (Inr \<lparr>ce_UserID = g_user_id g, ce_OldEmail = coalesce (u_email u) [],
                                       ce_NewEmail = g_new_email g, ce_Replaced = replaced\<rparr>, d7)))))))"

section \<open>Integrity is kept\<close>

lemma wf_otps_table:
  assumes "wf_db d" "unique_on o_id t" "unique_some o_link_hash t" "\<forall>e \<in> set t. o_id e < n"
    "refers o_link_user_id (user_ids d) t"
  shows "wf_db (d\<lparr>email_otps := t, next_otp := n\<rparr>)"
  using assms by (simp add: wf_db_def wf_defs)

lemma wf_SaveEmailOTP:
  assumes "wf_db d"
  shows "wf_db (snd (SaveEmailOTP env otp limits d))"
proof (cases "withinOTPLimits env otp limits d")
  case (Inr mailed)
  let ?kept = "delete_where (\<lambda>e. o_created_at e < sql_now env - day) (email_otps d)"
  let ?rows = "update_where (\<lambda>e. mailed \<and> same_address env (eo_Email otp) e \<and>
      o_code_challenge e = eo_CodeChallenge otp \<and> o_consumed_at e = None)
    (\<lambda>e. e\<lparr>o_consumed_at := Some (sql_now env)\<rparr>) ?kept"
  have old: "unique_on o_id ?rows" "unique_some o_link_hash ?rows" "\<forall>e \<in> set ?rows. o_id e < next_otp d"
    "refers o_link_user_id (user_ids d) ?rows"
    using assms by (auto simp: wf_db_def wf_otps_def unique_on_update unique_some_update refers_update ball_update_where)
  show ?thesis
    using Inr assms old
    by (force simp: SaveEmailOTP_def Let_def unique_on_append unique_some_append exists_where_iff
        intro!: wf_otps_table split: option.splits if_splits)
qed (simp add: SaveEmailOTP_def assms)

lemma wf_update_otps:
  assumes "\<And>e. o_id (f e) = o_id e" "\<And>e. o_link_hash (f e) = o_link_hash e"
    "\<And>e. o_link_user_id (f e) = o_link_user_id e"
  shows "wf_db d \<Longrightarrow> wf_db (d\<lparr>email_otps := update_where P f (email_otps d)\<rparr>)"
  using assms
  by (simp add: wf_db_def wf_defs unique_on_update unique_some_update refers_update ball_update_where)

lemma wf_RedeemEmailOTP: "wf_db d \<Longrightarrow> wf_db (snd (RedeemEmailOTP env lookup perCode check d))"
  by (simp add: RedeemEmailOTP_def Let_def wf_update_otps split: option.split)

lemma wf_RecordAudit [simp]: "wf_db (RecordAudit env event d) = wf_db d"
  by (simp add: RecordAudit_def wf_db_def wf_defs)

lemma endChangesQuery_fields [simp]:
  "users (endChangesQuery env uid d) = users d" "identities (endChangesQuery env uid d) = identities d"
  by (simp_all add: endChangesQuery_def)

lemma wf_change_table:
  assumes "wf_db d" "unique_on g_token_hash t" "refers (\<lambda>g. Some (g_user_id g)) (user_ids d) t"
  shows "wf_db (d\<lparr>email_change_tokens := t\<rparr>)"
  using assms by (simp add: wf_db_def wf_defs)

lemma wf_SaveEmailChange:
  assumes "wf_db d"
  shows "wf_db (snd (SaveEmailChange env change limits d))"
proof (cases "linkTargetGuest (ec_UserID change) d")
  case (Inr guest)
  from linkTargetGuest_Inr [OF Inr] have known: "ec_UserID change \<in> set (user_ids d)"
    using user_by_id_None [of d "ec_UserID change"] by auto
  let ?d1 = "endChangesQuery env (ec_UserID change) d"
  let ?kept = "delete_where (\<lambda>g. g_created_at g < sql_now env - day) (email_change_tokens ?d1)"
  have wf1: "wf_db ?d1" using assms by simp
  then have "unique_on g_token_hash ?kept" "refers (\<lambda>g. Some (g_user_id g)) (user_ids ?d1) ?kept"
    by (auto simp: wf_db_def wf_otps_def)
  then show ?thesis
    using Inr assms wf1 known
    by (auto simp: SaveEmailChange_def Let_def unique_on_append exists_where_key [where k = g_token_hash]
        intro!: wf_change_table split: option.split)
qed (simp add: SaveEmailChange_def assms)

text \<open>The steps of a confirmed change.\<close>

lemma ConfirmEmailChange_Inr:
  assumes "ConfirmEmailChange env uid tokenHash d = (Inr changed, d')"
  obtains g u d1 d2 d3 d4 where
    "List.find (live_change env uid tokenHash) (email_change_tokens d) = Some g"
    "user_by_id d uid = Some u" "u_enabled u"
    "releaseOwnLinkedAddress uid (g_new_email g) d = Inr d1"
    "claimAddress env uid (g_new_email g) d1 = (Inr (ce_Replaced changed), d2)"
    "readdress env uid (g_new_email g) d2 = Inr d3" "upgradeGuest env uid (g_new_email g) d3 = Inr d4"
    "changed = \<lparr>ce_UserID = uid, ce_OldEmail = coalesce (u_email u) [], ce_NewEmail = g_new_email g,
       ce_Replaced = ce_Replaced changed\<rparr>"
    "d' = (endChangesQuery env uid d4)\<lparr>password_reset_tokens := spend_links_of env uid (password_reset_tokens d4),
       email_verification_tokens := spend_links_of env uid (email_verification_tokens d4)\<rparr>"
proof -
  from assms obtain g where g: "List.find (live_change env uid tokenHash) (email_change_tokens d) = Some g"
    by (auto simp: ConfirmEmailChange_def split: option.splits)
  then have uid: "g_user_id g = uid" by (auto simp: live_change_def dest!: find_Some_mem)
  show thesis
    using assms g uid that
    by (auto simp: ConfirmEmailChange_def Let_def endChangesQuery_def
        split: option.splits sum.splits prod.splits if_splits)
qed

lemma ConfirmEmailChange_Inl: "fst (ConfirmEmailChange env uid tokenHash d) = Inl e \<Longrightarrow>
    snd (ConfirmEmailChange env uid tokenHash d) = d"
  by (auto simp: ConfirmEmailChange_def Let_def split: option.splits sum.splits prod.splits if_splits)

lemma releaseOwn_Inr:
  assumes "wf_db d" "releaseOwnLinkedAddress uid email d = Inr d1"
  shows "wf_db d1" "users d1 = users d"
  using assms by (auto simp: releaseOwnLinkedAddress_def wf_delete_identities split: option.splits if_splits)

lemma wf_readdress:
  assumes "wf_db d" "readdress env uid email d = Inr d'"
  shows "wf_db d'"
proof -
  have "wf_db (update_user uid (\<lambda>u. u\<lparr>u_email := Some email, u_email_verified := True,
      u_email_verified_at := Some (sql_now env)\<rparr>) d)"
    using assms by (intro wf_readdress_user [where address = email])
      (auto simp: readdress_def exists_where_iff split: if_splits)
  then show ?thesis using assms(2) by (auto simp: readdress_def split: if_splits)
qed

lemma wf_ConfirmEmailChange:
  assumes "wf_db d"
  shows "wf_db (snd (ConfirmEmailChange env uid tokenHash d))"
proof (cases "fst (ConfirmEmailChange env uid tokenHash d)")
  case (Inl e)
  then show ?thesis using assms ConfirmEmailChange_Inl by simp
next
  case (Inr changed)
  then have "ConfirmEmailChange env uid tokenHash d = (Inr changed, snd (ConfirmEmailChange env uid tokenHash d))"
    by (metis prod.collapse)
  then show ?thesis
  proof (rule ConfirmEmailChange_Inr)
    fix g u d1 d2 d3 d4
    assume r: "releaseOwnLinkedAddress uid (g_new_email g) d = Inr d1"
      and c: "claimAddress env uid (g_new_email g) d1 = (Inr (ce_Replaced changed), d2)"
      and a: "readdress env uid (g_new_email g) d2 = Inr d3" and up: "upgradeGuest env uid (g_new_email g) d3 = Inr d4"
      and d': "snd (ConfirmEmailChange env uid tokenHash d) = (endChangesQuery env uid d4)\<lparr>
         password_reset_tokens := spend_links_of env uid (password_reset_tokens d4),
         email_verification_tokens := spend_links_of env uid (email_verification_tokens d4)\<rparr>"
    have "wf_db d4"
      using releaseOwn_Inr(1) [OF assms r] c a up
      by (blast intro: claimAddress_users(1) wf_readdress wf_upgradeGuest)
    then have "wf_db ((endChangesQuery env uid d4)\<lparr>password_reset_tokens :=
        spend_links_of env uid (password_reset_tokens (endChangesQuery env uid d4))\<rparr>)"
      by (simp only: wf_spend_links wf_endChangesQuery)
    with wf_spend_links(2) [of env uid "(endChangesQuery env uid d4)\<lparr>password_reset_tokens :=
        spend_links_of env uid (password_reset_tokens (endChangesQuery env uid d4))\<rparr>"]
    show ?thesis unfolding d' by (simp add: endChangesQuery_def)
  qed
qed

section \<open>Guesses at a code\<close>

lemma live_row_Some:
  assumes "live_row env lookup perCode d = Some e"
  shows "e \<in> set (email_otps d)" "live_otp env e"
    "if lk_LinkHash lookup \<noteq> [] then o_kind e = OTPMagicLink \<and> o_link_hash e = Some (lk_LinkHash lookup)
     else o_kind e = OTPEmailCode \<and> o_attempts e < perCode \<and> o_code_challenge e = lk_CodeChallenge lookup"
proof -
  have "e \<in> set (email_otps d) \<and> live_otp env e \<and>
    (if lk_LinkHash lookup \<noteq> [] then o_kind e = OTPMagicLink \<and> o_link_hash e = Some (lk_LinkHash lookup)
     else o_kind e = OTPEmailCode \<and> o_attempts e < perCode \<and> o_code_challenge e = lk_CodeChallenge lookup)"
  proof (cases "lk_LinkHash lookup = []")
    case True
    let ?rows = "filter (\<lambda>e. live_otp env e \<and> same_address env (lk_Email lookup) e \<and> o_kind e = OTPEmailCode \<and>
                   o_attempts e < perCode \<and> o_code_challenge e = lk_CodeChallenge lookup) (email_otps d)"
    define es where "es = sort_key o_created_at (sort_key o_id ?rows)"
    have "(case es of [] \<Rightarrow> None | es \<Rightarrow> Some (last es)) = Some e"
      using assms True by (simp add: live_row_def Let_def es_def)
    then have "e \<in> set es" by (cases es) auto
    then show ?thesis using True by (simp add: es_def)
  next
    case False
    then show ?thesis using assms by (auto simp: live_row_def dest!: find_Some_mem)
  qed
  then show "e \<in> set (email_otps d)" "live_otp env e"
    "if lk_LinkHash lookup \<noteq> [] then o_kind e = OTPMagicLink \<and> o_link_hash e = Some (lk_LinkHash lookup)
     else o_kind e = OTPEmailCode \<and> o_attempts e < perCode \<and> o_code_challenge e = lk_CodeChallenge lookup"
    by auto
qed

text \<open>How often a row was put to a caller's check, over a sequence of redemptions.\<close>

fun otp_tries :: "int \<Rightarrow> int \<Rightarrow> (sql_env \<times> OTPLookup \<times> (EmailOTP \<Rightarrow> bool)) list \<Rightarrow> db \<Rightarrow> nat" where
  "otp_tries perCode i [] d = 0"
| "otp_tries perCode i ((env, lookup, check) # qs) d =
     (if (case live_row env lookup perCode d of None \<Rightarrow> False | Some e \<Rightarrow> o_id e = i) then 1 else 0) +
     otp_tries perCode i qs (snd (RedeemEmailOTP env lookup perCode check d))"

lemma redeem_keeps_others:
  assumes "e \<in> set (email_otps d)" "live_row env lookup perCode d = None \<or>
      (\<exists>x. live_row env lookup perCode d = Some x \<and> o_id x \<noteq> o_id e)"
  shows "e \<in> set (email_otps (snd (RedeemEmailOTP env lookup perCode check d)))"
  using assms by (auto simp: RedeemEmailOTP_def Let_def set_update_where image_iff intro!: bexI [of _ e])

lemma redeem_row:
  assumes "wf_db d" "live_row env lookup perCode d = Some e" "o_kind e = OTPEmailCode"
  obtains e' where "e' \<in> set (email_otps (snd (RedeemEmailOTP env lookup perCode check d)))"
    "o_id e' = o_id e" "o_kind e' = OTPEmailCode"
    "o_consumed_at e' \<noteq> None \<or> o_attempts e' = o_attempts e + 1"
proof -
  let ?spent = "check (otp_of e) \<or> o_kind e = OTPMagicLink \<or> o_attempts e + 1 \<ge> perCode"
  let ?e = "e\<lparr>o_attempts := (if check (otp_of e) then o_attempts e else o_attempts e + 1),
      o_consumed_at := (if ?spent then Some (sql_now env) else None)\<rparr>"
  have "?e \<in> set (email_otps (snd (RedeemEmailOTP env lookup perCode check d)))"
    using live_row_Some(1) [OF assms(2)] assms(2)
    by (auto simp: RedeemEmailOTP_def Let_def set_update_where otp_of_def image_iff intro!: bexI [of _ e])
  then show thesis using assms(3) by (auto intro!: that [of ?e])
qed

lemma otp_tries_le:
  "wf_db d \<Longrightarrow> e \<in> set (email_otps d) \<Longrightarrow> o_kind e = OTPEmailCode \<Longrightarrow>
     int (otp_tries perCode (o_id e) qs d) \<le> (if o_consumed_at e = None then max 0 (perCode - o_attempts e) else 0)"
proof (induction perCode "o_id e" qs d arbitrary: e rule: otp_tries.induct)
  case (2 perCode env lookup check qs d)
  let ?d = "snd (RedeemEmailOTP env lookup perCode check d)"
  have wf: "wf_db ?d" using 2(2) by (rule wf_RedeemEmailOTP)
  show ?case
  proof (cases "\<exists>x. live_row env lookup perCode d = Some x \<and> o_id x = o_id e")
    case False
    then have "e \<in> set (email_otps ?d)"
      using redeem_keeps_others [OF 2(3)] by (cases "live_row env lookup perCode d") auto
    from 2(1) [OF refl wf this 2(4)] False show ?thesis by (auto split: option.split)
  next
    case True
    then obtain x where x: "live_row env lookup perCode d = Some x" "o_id x = o_id e" by auto
    have e: "x = e"
      using x(2) live_row_Some(1) [OF x(1)] 2(2,3) by (auto simp: wf_db_def wf_otps_def dest: unique_on_eq)
    have live: "o_consumed_at e = None" "o_attempts e < perCode"
      using live_row_Some(2,3) [OF x(1)] 2(4)
      by (auto simp: e live_otp_def OTPMagicLink_def OTPEmailCode_def split: if_splits)
    obtain e' where e': "e' \<in> set (email_otps ?d)" "o_id e' = o_id e" "o_kind e' = OTPEmailCode"
      "o_consumed_at e' \<noteq> None \<or> o_attempts e' = o_attempts e + 1"
      using redeem_row [OF 2(2) x(1) [unfolded e] 2(4)] by blast
    have "int (otp_tries perCode (o_id e) qs ?d) \<le> max 0 (perCode - (o_attempts e + 1))"
      using 2(1) [OF e'(2) [symmetric] wf e'(1,3)] e'(2,4) by (auto split: if_splits)
    then show ?thesis using x live by (auto simp: e)
  qed
qed simp

section \<open>A mailed sign-in link is spent by its first presentation\<close>

text \<open>The caller looks a link up by the digest of its token, which is never empty.\<close>

definition redeem_otp_link :: "sql_env \<times> int \<times> (EmailOTP \<Rightarrow> bool) \<Rightarrow> string \<Rightarrow> db \<Rightarrow> EmailOTP option \<times> db" where
  "redeem_otp_link e hash d =
     (case e of (env, perCode, check) \<Rightarrow>
        if hash = [] then (None, d)
        else handed (RedeemEmailOTP env \<lparr>lk_LinkHash = hash, lk_Email = [], lk_CodeChallenge = []\<rparr> perCode check d))"

definition otp_link_spent :: "string \<Rightarrow> db \<Rightarrow> bool" where
  "otp_link_spent hash d \<longleftrightarrow>
     (\<forall>e \<in> set (email_otps d). o_link_hash e = Some hash \<longrightarrow> o_consumed_at e \<noteq> None)"

lemma live_link_row:
  "hash \<noteq> [] \<Longrightarrow> live_row env \<lparr>lk_LinkHash = hash, lk_Email = [], lk_CodeChallenge = []\<rparr> perCode d =
     List.find (\<lambda>e. live_otp env e \<and> o_link_hash e = Some hash \<and> o_kind e = OTPMagicLink) (email_otps d)"
  by (simp add: live_row_def)

lemma otp_link_spent_kept:
  assumes "wf_db d" "otp_link_spent hash d"
  shows "otp_link_spent hash (snd (redeem_otp_link e hash' d))"
proof -
  obtain env perCode check where e: "e = (env, perCode, check)" by (cases e)
  let ?l = "\<lparr>lk_LinkHash = hash', lk_Email = [], lk_CodeChallenge = []\<rparr>"
  show ?thesis
  proof (cases "hash' = [] \<or> live_row env ?l perCode d = None")
    case True
    then show ?thesis using assms(2) by (auto simp: e redeem_otp_link_def RedeemEmailOTP_def)
  next
    case False
    then obtain x where x: "live_row env ?l perCode d = Some x" "o_kind x = OTPMagicLink"
      using live_row_Some(3) [of env ?l perCode d] by auto
    then show ?thesis
      using assms False
      by (simp add: e redeem_otp_link_def RedeemEmailOTP_def Let_def otp_link_spent_def ball_update_where otp_of_def)
  qed
qed

text \<open>The contract's states are the well-formed ones.\<close>

definition otp_link_done :: "string \<Rightarrow> db \<Rightarrow> bool" where
  "otp_link_done hash d \<longleftrightarrow> wf_db d \<and> otp_link_spent hash d"

lemma wf_redeem_otp_link: "wf_db d \<Longrightarrow> wf_db (snd (redeem_otp_link e hash d))"
  by (cases e) (simp add: redeem_otp_link_def wf_RedeemEmailOTP)

interpretation otp_link_once: single_use redeem_otp_link otp_link_done wf_db
proof
  fix d :: db and e :: "sql_env \<times> int \<times> (EmailOTP \<Rightarrow> bool)" and h h' :: string
  obtain env perCode check where e: "e = (env, perCode, check)" by (cases e)
  let ?l = "\<lparr>lk_LinkHash = h, lk_Email = [], lk_CodeChallenge = []\<rparr>"
  show "wf_db (snd (redeem_otp_link e h d))" if "wf_db d" using that by (rule wf_redeem_otp_link)
  show "fst (redeem_otp_link e h d) = None" if "otp_link_done h d"
  proof (cases "h = []")
    case False
    have "live_row env ?l perCode d = None"
      using that False by (auto simp: live_link_row find_None_iff otp_link_done_def otp_link_spent_def live_otp_def)
    then show ?thesis by (simp add: e redeem_otp_link_def RedeemEmailOTP_def)
  qed (simp add: e redeem_otp_link_def)
  show "otp_link_done h (snd (redeem_otp_link e h' d))" if "otp_link_done h d"
    using that by (simp add: otp_link_done_def wf_redeem_otp_link otp_link_spent_kept)
  show "otp_link_done h (snd (redeem_otp_link e h d))" if "wf_db d" "fst (redeem_otp_link e h d) \<noteq> None"
  proof -
    from that(2) have h: "h \<noteq> []" by (auto simp: e redeem_otp_link_def)
    from that(2) obtain x where x: "live_row env ?l perCode d = Some x"
      by (auto simp: e redeem_otp_link_def RedeemEmailOTP_def split: if_splits option.splits)
    have magic: "o_kind x = OTPMagicLink" "o_link_hash x = Some h" using live_row_Some(3) [OF x] h by auto
    have only: "y = x" if "y \<in> set (email_otps d)" "o_link_hash y = Some h" for y
      using that \<open>wf_db d\<close> live_row_Some(1) [OF x] magic
      by (auto simp: wf_db_def wf_otps_def intro: unique_some_eq)
    have "otp_link_spent h (snd (redeem_otp_link e h d))"
      using x h only magic
      by (auto simp: e redeem_otp_link_def RedeemEmailOTP_def Let_def otp_link_spent_def ball_update_where otp_of_def)
    then show ?thesis using that(1) by (simp add: otp_link_done_def wf_redeem_otp_link)
  qed
qed

section \<open>Address changes\<close>

lemma user_by_id_upgrade:
  assumes "upgradeGuest env uid email d = Inr d'" "user_by_id d j = Some u" "j \<noteq> uid \<or> \<not> u_is_guest u"
  shows "user_by_id d' j = Some u"
proof -
  have "List.find (\<lambda>u. u_id u = j) (update_where (\<lambda>u. u_id u = uid \<and> u_is_guest u) f t) = Some u"
    if "List.find (\<lambda>u. u_id u = j) t = Some u" "\<And>u. u_id (f u) = u_id u" for f t
    using that assms(3) by (induction t) (auto simp: update_where_def split: if_splits)
  then show ?thesis
    using assms(1,2) by (auto simp: upgradeGuest_def Let_def user_by_id_def split: if_splits)
qed

lemma user_by_id_upgraded:
  assumes "upgradeGuest env uid email d = Inr d'" "user_by_id d uid = Some u" "u_is_guest u"
  shows "\<exists>u'. user_by_id d' uid = Some u' \<and> u_email u' = Some email \<and> proven u' \<and> \<not> u_is_guest u' \<and>
    u_role u' = (if u_role u = GuestRole then ''user'' else u_role u)"
proof -
  have "List.find (\<lambda>u. u_id u = uid) (update_where (\<lambda>u. u_id u = uid \<and> u_is_guest u) f t) = Some (f u)"
    if "List.find (\<lambda>u. u_id u = uid) t = Some u" "\<And>u. u_id (f u) = u_id u" for f t
    using that assms(3) by (induction t) (auto simp: update_where_def split: if_splits)
  then show ?thesis
    using assms(1,2) by (auto simp: upgradeGuest_def Let_def user_by_id_def proven_def split: if_splits)
qed

lemma answers_upgrade:
  assumes "upgradeGuest env uid email d = Inr d'" "u' \<in> set (users d')" "u_id u' \<noteq> uid"
  shows "u' \<in> set (users d)"
  using assms by (auto simp: upgradeGuest_def Let_def set_update_where split: if_splits)

lemma answers_readdress:
  assumes "readdress env uid email d = Inr d'" "u' \<in> set (users d')" "u_id u' \<noteq> uid"
  shows "u' \<in> set (users d)"
  using assms by (auto simp: readdress_def update_user_def set_update_where split: if_splits)

text \<open>What a confirmed change does to the accounts.\<close>

lemma ConfirmEmailChange_rows:
  assumes "wf_db d" "ConfirmEmailChange env uid tokenHash d = (Inr changed, d')"
  obtains u d2 d3 d4 where
    "user_by_id d uid = Some u" "ce_UserID changed = uid"
    "users d2 = filter (\<lambda>u. \<not> answers_to env u (ce_NewEmail changed)) (users d)"
    "\<forall>v \<in> set (users d). answers_to env v (ce_NewEmail changed) \<longrightarrow> u_id v \<noteq> uid \<and> \<not> proven v \<and> u_enabled v"
    "readdress env uid (ce_NewEmail changed) d2 = Inr d3" "upgradeGuest env uid (ce_NewEmail changed) d3 = Inr d4"
    "users d' = users d4"
    "\<forall>g \<in> set (email_change_tokens d'). g_user_id g = uid \<longrightarrow> g_consumed_at g \<noteq> None"
    "\<forall>t \<in> set (password_reset_tokens d') \<union> set (email_verification_tokens d'). t_user_id t = uid \<longrightarrow> t_consumed_at t \<noteq> None"
  using assms(2)
proof (rule ConfirmEmailChange_Inr)
  fix g u d1 d2 d3 d4
  assume u: "user_by_id d uid = Some u" and rel: "releaseOwnLinkedAddress uid (g_new_email g) d = Inr d1"
    and cl: "claimAddress env uid (g_new_email g) d1 = (Inr (ce_Replaced changed), d2)"
    and ra: "readdress env uid (g_new_email g) d2 = Inr d3" and up: "upgradeGuest env uid (g_new_email g) d3 = Inr d4"
    and ch: "changed = \<lparr>ce_UserID = uid, ce_OldEmail = coalesce (u_email u) [], ce_NewEmail = g_new_email g, ce_Replaced = ce_Replaced changed\<rparr>"
    and d': "d' = (endChangesQuery env uid d4)\<lparr>password_reset_tokens := spend_links_of env uid (password_reset_tokens d4),
       email_verification_tokens := spend_links_of env uid (email_verification_tokens d4)\<rparr>"
  have new: "ce_NewEmail changed = g_new_email g" "ce_UserID changed = uid" by (subst ch, simp)+
  have wf1: "wf_db d1" and us1: "users d1 = users d" using releaseOwn_Inr [OF assms(1) rel] by auto
  have links: "\<forall>g \<in> set (email_change_tokens d'). g_user_id g = uid \<longrightarrow> g_consumed_at g \<noteq> None"
    "\<forall>t \<in> set (password_reset_tokens d'). t_user_id t = uid \<longrightarrow> t_consumed_at t \<noteq> None"
    "\<forall>t \<in> set (email_verification_tokens d'). t_user_id t = uid \<longrightarrow> t_consumed_at t \<noteq> None"
    unfolding d' by (simp_all add: endChangesQuery_def spend_links_of_def ball_update_where)
  show thesis
    by (rule that [OF u new(2), of d2 d3 d4])
      (use claimAddress_users(2) [OF wf1 cl] claimAddress_Inr(3) [OF cl] us1 ra up links in \<open>auto simp: new d'\<close>)
qed

lemma confirm_own:
  assumes "wf_db d" "ConfirmEmailChange env uid tokenHash d = (Inr changed, d')"
  shows "\<exists>u'. user_by_id d' uid = Some u' \<and> u_email u' = Some (ce_NewEmail changed) \<and> proven u' \<and> \<not> u_is_guest u'"
  using assms
proof (rule ConfirmEmailChange_rows)
  fix u :: user_row and d2 d3 d4
  let ?new = "ce_NewEmail changed"
  let ?u3 = "u\<lparr>u_email := Some ?new, u_email_verified := True, u_email_verified_at := Some (sql_now env)\<rparr>"
  assume u: "user_by_id d uid = Some u" and us2: "users d2 = filter (\<lambda>u. \<not> answers_to env u ?new) (users d)"
    and sq: "\<forall>v \<in> set (users d). answers_to env v ?new \<longrightarrow> u_id v \<noteq> uid \<and> \<not> proven v \<and> u_enabled v"
    and ra: "readdress env uid ?new d2 = Inr d3" and up: "upgradeGuest env uid ?new d3 = Inr d4"
    and us: "users d' = users d4"
  have "user_by_id d2 uid = Some u"
    using user_by_id_filter [OF assms(1) us2 u] sq user_by_id_Some [OF u] by auto
  then have own3: "user_by_id d3 uid = Some ?u3"
    using ra by (auto simp: readdress_def user_by_id_update split: if_splits)
  have byid: "user_by_id d' uid = user_by_id d4 uid" by (simp add: us user_by_id_def)
  show ?thesis
  proof (cases "u_is_guest u")
    case True
    then show ?thesis using user_by_id_upgraded [OF up own3] by (auto simp: byid)
  next
    case False
    then show ?thesis using user_by_id_upgrade [OF up own3] by (auto simp: byid proven_def)
  qed
qed

text \<open>The other rows of the result are rows of the database that did not answer to the address.\<close>

lemma confirm_row_kept:
  assumes "wf_db d" "ConfirmEmailChange env uid tokenHash d = (Inr changed, d')" "w \<in> set (users d')" "u_id w \<noteq> uid"
  shows "w \<in> set (users d) \<and> \<not> answers_to env w (ce_NewEmail changed)"
  using assms(1,2)
proof (rule ConfirmEmailChange_rows)
  fix u d2 d3 d4
  assume us2: "users d2 = filter (\<lambda>u. \<not> answers_to env u (ce_NewEmail changed)) (users d)"
    and ra: "readdress env uid (ce_NewEmail changed) d2 = Inr d3"
    and up: "upgradeGuest env uid (ce_NewEmail changed) d3 = Inr d4" and us: "users d' = users d4"
  have "w \<in> set (users d2)"
    using assms(3,4) answers_upgrade [OF up] answers_readdress [OF ra] by (simp add: us)
  then show ?thesis by (simp add: us2)
qed

lemma confirm_alone:
  assumes "wf_db d" "ConfirmEmailChange env uid tokenHash d = (Inr changed, d')"
  shows "\<forall>u' \<in> set (users d'). answers_to env u' (ce_NewEmail changed) \<longrightarrow> u_id u' = uid"
  using confirm_row_kept [OF assms] by blast

lemma confirm_others:
  assumes "wf_db d" "ConfirmEmailChange env uid tokenHash d = (Inr changed, d')"
  shows "\<forall>v \<in> set (users d). u_id v \<noteq> uid \<longrightarrow>
    (if answers_to env v (ce_NewEmail changed) then \<not> proven v \<and> u_enabled v \<and> user_by_id d' (u_id v) = None
     else user_by_id d' (u_id v) = Some v)"
  using assms
proof (rule ConfirmEmailChange_rows)
  fix u d2 d3 d4
  let ?new = "ce_NewEmail changed"
  assume us2: "users d2 = filter (\<lambda>u. \<not> answers_to env u ?new) (users d)"
    and sq: "\<forall>v \<in> set (users d). answers_to env v ?new \<longrightarrow> u_id v \<noteq> uid \<and> \<not> proven v \<and> u_enabled v"
    and ra: "readdress env uid ?new d2 = Inr d3" and up: "upgradeGuest env uid ?new d3 = Inr d4"
    and us: "users d' = users d4"
  have "user_by_id d' (u_id v) = None" if v: "v \<in> set (users d)" "u_id v \<noteq> uid" "answers_to env v ?new" for v
  proof (rule ccontr)
    assume "user_by_id d' (u_id v) \<noteq> None"
    then obtain w where w: "w \<in> set (users d')" "u_id w = u_id v" by (auto dest: user_by_id_Some)
    then have "w \<in> set (users d)" "\<not> answers_to env w ?new" using confirm_row_kept [OF assms w(1)] v(2) by auto
    moreover from this have "w = v" using w v assms(1) by (auto simp: wf_db_def wf_users_def dest: unique_on_eq)
    ultimately show False using v(3) by simp
  qed
  moreover have "user_by_id d' (u_id v) = Some v" if v: "v \<in> set (users d)" "u_id v \<noteq> uid" "\<not> answers_to env v ?new" for v
  proof -
    have "user_by_id d (u_id v) = Some v" using assms(1) v(1) by (simp add: wf_db_def user_by_id_eq)
    then have "user_by_id d2 (u_id v) = Some v" using user_by_id_filter [OF assms(1) us2] v(3) by simp
    then have "user_by_id d3 (u_id v) = Some v"
      using v(2) ra by (auto simp: readdress_def user_by_id_update split: if_splits)
    then show ?thesis using user_by_id_upgrade [OF up] v(2) by (simp add: us user_by_id_def)
  qed
  ultimately show ?thesis using sq by auto
qed

section \<open>Proven accounts\<close>

lemma owner_spares_proven:
  assumes "wf_db d" "addressOwner env claim allowCreate known d = (Inr (uid, how), d')"
    and "u \<in> set (users d)" "proven u"
  shows "user_by_id d' (u_id u) = Some u"
proof -
  have u: "user_by_id d (u_id u) = Some u" using assms(1,3) by (simp add: wf_db_def user_by_id_eq)
  have fresh: "u_id u \<noteq> next_user d" using next_user_free [OF assms(1)] assms(3) by (auto simp: user_ids_def image_iff)
  show ?thesis using assms(1,2)
  proof (cases rule: addressOwner_Inr)
    case (owned v)
    then show ?thesis using u by simp
  next
    case created
    then show ?thesis using u fresh user_by_id_insert [OF assms(1), of "provider_row env claim uid" "u_id u"] by simp
  next
    case (replaced old)
    have wf: "wf_db (cascade_users (\<lambda>j. j = u_id old) d)" using assms(1) by (rule wf_cascade_users)
    have "u_id u \<noteq> u_id old"
    proof
      assume "u_id u = u_id old"
      then have "u = old" using u replaced(2) by (metis option.inject)
      then show False using replaced(3) assms(4) by simp
    qed
    then show ?thesis
      using u fresh replaced user_by_id_insert [OF wf, of "provider_row env claim uid" "u_id u"]
      by (simp add: user_by_id_cascade cascade_users_fields)
  qed
qed

lemma identity_sign_in_spares_proven:
  assumes "wf_db d" "u \<in> set (users d)" "proven u"
  shows "user_by_id (snd (SignInWithIdentity env claim allowCreate d)) (u_id u) = Some u"
proof -
  have u: "user_by_id d (u_id u) = Some u" using assms(1,2) by (simp add: wf_db_def user_by_id_eq)
  have "user_by_id (snd (resolveIdentity env claim allowCreate d)) (u_id u) = Some u"
  proof (cases "identity_of (Provider claim) (Subject claim) d")
    case None
    then show ?thesis using u owner_spares_proven [OF assms(1) _ assms(2,3)]
      by (auto simp: resolveIdentity_def insert_identity_def user_by_id_def split: prod.split sum.split)
  next
    case (Some i)
    then show ?thesis using u by (simp add: resolveIdentity_def user_by_id_def)
  qed
  then show ?thesis using u by (auto simp: SignInWithIdentity_def split: prod.split sum.split)
qed

lemma email_sign_in_spares_proven:
  assumes "wf_db d" "u \<in> set (users d)" "proven u"
  shows "user_by_id (snd (SignInWithEmail env email fullName allowCreate d)) (u_id u) = Some u"
proof -
  have u: "user_by_id d (u_id u) = Some u" using assms(1,2) by (simp add: wf_db_def user_by_id_eq)
  then show ?thesis using owner_spares_proven [OF assms(1) _ assms(2,3)]
    by (auto simp: SignInWithEmail_def Let_def split: prod.split sum.split)
qed

lemma link_spares_proven:
  assumes "wf_db d" "u \<in> set (users d)" "proven u" "\<not> u_is_guest u"
  shows "user_by_id (snd (LinkIdentity env uid claim d)) (u_id u) = Some u"
proof (cases "LinkIdentity env uid claim d")
  case (Pair res d')
  have u: "user_by_id d (u_id u) = Some u" using assms(1,2) by (simp add: wf_db_def user_by_id_eq)
  show ?thesis
  proof (cases res)
    case (Inl e)
    then have "d' = d"
      using Pair by (auto simp: LinkIdentity_def Let_def split: if_splits option.splits prod.splits sum.splits)
    then show ?thesis using Pair u by simp
  next
    case (Inr r)
    from assms(1) Pair [unfolded Inr] show ?thesis
    proof (rule LinkIdentity_Inr)
      fix v d1
      assume d1: "if Provider claim = EmailProvider \<or> u_is_guest v
          then claimAddress env uid (ClaimEmail claim) d = (Inr (Deleted r), d1) else Deleted r = [] \<and> d1 = d"
        and d': "if u_is_guest v then upgradeGuest env uid (ClaimEmail claim) (insert_identity env uid claim None d1) = Inr d'
          else d' = insert_identity env uid claim None d1"
      have "user_by_id d1 (u_id u) = Some u"
      proof (cases "Provider claim = EmailProvider \<or> u_is_guest v")
        case True
        then have c: "claimAddress env uid (ClaimEmail claim) d = (Inr (Deleted r), d1)" using d1 by simp
        show ?thesis
          using user_by_id_filter [OF assms(1) claimAddress_users(2) [OF assms(1) c] u] claimAddress_Inr(3) [OF c] assms(2,3)
          by auto
      qed (use d1 u in simp)
      then have "user_by_id (insert_identity env uid claim None d1) (u_id u) = Some u"
        by (simp add: insert_identity_def user_by_id_def)
      then show ?thesis
        using d' user_by_id_upgrade [of env uid "ClaimEmail claim" _ d' "u_id u" u] assms(4) Pair
        by (auto split: if_splits)
    qed
  qed
qed

lemma confirm_spares_proven:
  assumes "wf_db d" "u \<in> set (users d)" "proven u" "uid \<noteq> u_id u"
  shows "user_by_id (snd (ConfirmEmailChange env uid tokenHash d)) (u_id u) = Some u"
proof (cases "ConfirmEmailChange env uid tokenHash d")
  case (Pair res d')
  have u: "user_by_id d (u_id u) = Some u" using assms(1,2) by (simp add: wf_db_def user_by_id_eq)
  show ?thesis
  proof (cases res)
    case (Inl e)
    then show ?thesis using Pair u ConfirmEmailChange_Inl [of env uid tokenHash d e] by simp
  next
    case (Inr changed)
    then show ?thesis
      using confirm_others [OF assms(1) Pair [unfolded Inr]] assms(2-4) Pair by (auto split: if_splits)
  qed
qed

section \<open>Properties\<close>

text \<open>C34: An emailed code is put to the check at most as often as the limit allows. Over any sequence of
  redemptions by anyone, a code that has already been tried \<open>a\<close> times is tried at most
  \<open>perCode - a\<close> times more, and never again once it was accepted or its tries are used up.\<close>

theorem otp_guess_budget:
  assumes "wf_db d" "e \<in> set (email_otps d)" "o_kind e = OTPEmailCode"
  shows "int (otp_tries perCode (o_id e) qs d) \<le>
    (if o_consumed_at e = None then max 0 (perCode - o_attempts e) else 0)"
  using otp_tries_le [OF assms] .

definition sample_otp :: EmailOTP where
  "sample_otp = \<lparr>eo_Email = ''a@b.c'', eo_Kind = ''email'', eo_LinkHash = [], eo_CodeHMAC = ''mac'', eo_CodeChallenge = ''ch'',
     eo_CreateUser = False, eo_Mailed = True, eo_IP = ''1.2.3.4'', eo_Attempts = 0, eo_ExpiresAt = 900, eo_LinkUserID = 0\<rparr>"

definition sample_otp_limits :: OTPLimits where
  "sample_otp_limits = \<lparr>ol_MinInterval = 60, ol_PerAddressHour = 5, ol_PerProjectDay = 100, ol_PerIPDay = 20, ol_LinksPerAccountDay = 5\<rparr>"

definition sample_otp_db :: db where
  "sample_otp_db = snd (SaveEmailOTP sample_env sample_otp sample_otp_limits sample_db)"

lemma wf_sample_otp_db: "wf_db sample_otp_db"
  unfolding sample_otp_db_def by (rule wf_SaveEmailOTP [OF wf_sample_db])

lemma sample_otp_saved:
  "fst (SaveEmailOTP sample_env sample_otp sample_otp_limits sample_db) = Inr True"
  "map o_id (email_otps sample_otp_db) = [1]" "map o_attempts (email_otps sample_otp_db) = [0]"
  "map o_kind (email_otps sample_otp_db) = [OTPEmailCode]" "map o_consumed_at (email_otps sample_otp_db) = [None]"
  by code_simp+

theorem otp_guess_budget_witness:
  "\<exists>e \<in> set (email_otps sample_otp_db). wf_db sample_otp_db \<and> o_kind e = OTPEmailCode \<and>
     int (otp_tries 3 (o_id e) (replicate 10 (sample_env, \<lparr>lk_LinkHash = [], lk_Email = ''a@b.c'', lk_CodeChallenge = ''ch''\<rparr>, \<lambda>_. False)) sample_otp_db) \<le> 3"
proof -
  obtain e where e: "email_otps sample_otp_db = [e]" using sample_otp_saved(2) by auto
  then have "o_kind e = OTPEmailCode" "o_attempts e = 0" "o_consumed_at e = None" using sample_otp_saved by simp_all
  with e otp_guess_budget [OF wf_sample_otp_db, of e 3] wf_sample_otp_db show ?thesis by simp
qed

text \<open>A mailed sign-in link is good for one presentation: over any sequence of presentations at most
  one is granted.\<close>

theorem otp_link_single_use:
  assumes "wf_db d"
  shows "granted qs (fst (serve (\<lambda>(e, hash). redeem_otp_link e hash) qs d)) hash \<le> 1"
  using otp_link_once.granted_at_most_once [OF assms] .

theorem otp_link_single_use_witness:
  "wf_db sample_db \<and> granted [((sample_env, 3 :: int, \<lambda>_ :: EmailOTP. True), ''l'')]
     (fst (serve (\<lambda>(e, hash). redeem_otp_link e hash) [((sample_env, 3, \<lambda>_. True), ''l'')] sample_db)) ''l'' \<le> 1"
  by (rule conjI [OF wf_sample_db otp_link_single_use [OF wf_sample_db]])

lemma count_where_update:
  "(\<And>r. Q r \<Longrightarrow> P (f r) = P r) \<Longrightarrow> count_where P (update_where Q f t) = count_where P t"
  by (induction t) (auto simp: count_where_def update_where_def)

text \<open>What the limits let through, counted on the stored sends.\<close>

lemma withinOTPLimits_Inr:
  assumes "withinOTPLimits env otp limits d = Inr mailed"
  shows "count_where (\<lambda>e. same_address env (eo_Email otp) e \<and> o_created_at e > sql_now env - hour) (email_otps d) < ol_PerAddressHour limits"
    "count_where (\<lambda>e. o_created_at e > sql_now env - day \<and> o_ip e = Some (eo_IP otp)) (email_otps d) < ol_PerIPDay limits"
    "mailed = (eo_Mailed otp \<and> count_where (\<lambda>e. o_created_at e > sql_now env - day \<and> o_mailed e) (email_otps d) < ol_PerProjectDay limits)"
    "count_where (\<lambda>e. same_address env (eo_Email otp) e \<and> o_created_at e > sql_now env - day \<and>
       o_created_at e > sql_now env - ol_MinInterval limits) (email_otps d) = 0"
proof -
  let ?day = "\<lambda>e. o_created_at e > sql_now env - day" and ?to = "same_address env (eo_Email otp)"
  let ?rows = "filter ?day (email_otps d)"
  have w: "count_where (\<lambda>e. ?to e \<and> o_created_at e > sql_now env - ol_MinInterval limits) ?rows \<le> 0"
    "count_where (\<lambda>e. ?to e \<and> o_created_at e > sql_now env - hour) ?rows < ol_PerAddressHour limits"
    "count_where (\<lambda>e. o_ip e = Some (eo_IP otp)) ?rows < ol_PerIPDay limits"
    "mailed = (eo_Mailed otp \<and> count_where o_mailed ?rows < ol_PerProjectDay limits)"
    using assms by (simp_all add: withinOTPLimits_def Let_def not_le not_less split: if_splits)
  have "(\<lambda>e. ?day e \<and> ?to e \<and> o_created_at e > sql_now env - hour) = (\<lambda>e. ?to e \<and> o_created_at e > sql_now env - hour)"
    by auto
  then show "count_where (\<lambda>e. ?to e \<and> o_created_at e > sql_now env - hour) (email_otps d) < ol_PerAddressHour limits"
    "count_where (\<lambda>e. ?day e \<and> o_ip e = Some (eo_IP otp)) (email_otps d) < ol_PerIPDay limits"
    "mailed = (eo_Mailed otp \<and> count_where (\<lambda>e. ?day e \<and> o_mailed e) (email_otps d) < ol_PerProjectDay limits)"
    using w(2-4) by (simp_all add: count_where_filter)
  have "(\<lambda>e. ?day e \<and> ?to e \<and> o_created_at e > sql_now env - ol_MinInterval limits) =
      (\<lambda>e. ?to e \<and> ?day e \<and> o_created_at e > sql_now env - ol_MinInterval limits)" by auto
  then show "count_where (\<lambda>e. ?to e \<and> ?day e \<and> o_created_at e > sql_now env - ol_MinInterval limits) (email_otps d) = 0"
    using w(1) count_where_nonneg [of "\<lambda>e. ?to e \<and> ?day e \<and> o_created_at e > sql_now env - ol_MinInterval limits" "email_otps d"]
    by (intro antisym) (simp_all add: count_where_filter)
qed

text \<open>A recorded send adds one row; the other rows are dropped or spent, so no count that ignores the
  spending grows by more than one.\<close>

lemma SaveEmailOTP_counts:
  assumes "SaveEmailOTP env otp limits d = (Inr m, d')" "\<And>e t. P (e\<lparr>o_consumed_at := t\<rparr>) = P e"
  shows "withinOTPLimits env otp limits d = Inr m" "count_where P (email_otps d') \<le> count_where P (email_otps d) + 1"
proof -
  show lims: "withinOTPLimits env otp limits d = Inr m"
    using assms(1) by (cases "withinOTPLimits env otp limits d") (auto simp: SaveEmailOTP_def Let_def split: if_splits)
  let ?Q = "\<lambda>e. o_created_at e < sql_now env - day"
  obtain r where tab: "email_otps d' = update_where (\<lambda>e. m \<and> same_address env (eo_Email otp) e \<and>
      o_code_challenge e = eo_CodeChallenge otp \<and> o_consumed_at e = None) (\<lambda>e. e\<lparr>o_consumed_at := Some (sql_now env)\<rparr>)
      (delete_where ?Q (email_otps d)) @ [r]"
    using assms(1) lims by (auto simp: SaveEmailOTP_def Let_def split: if_splits)
  have "count_where P [r] \<le> 1" by (simp add: count_where_def)
  then show "count_where P (email_otps d') \<le> count_where P (email_otps d) + 1"
    using count_where_delete_le [of P ?Q "email_otps d"] assms(2) by (simp add: tab count_where_update)
qed

text \<open>The send budgets hold after every recorded send. When a send is recorded, the sends to the
  address within the last hour are at most the hourly limit, those asked for from the client's address
  within the day at most the daily one, and, when this one was let out, the mailed ones of the day at
  most the project's budget; nothing is sent to an address within the minimum interval. A refused send
  records nothing.\<close>

theorem otp_send_budget:
  assumes "SaveEmailOTP env otp limits d = (res, d')"
  shows "case res of
      Inl e \<Rightarrow> d' = d
    | Inr mailed \<Rightarrow>
        count_where (\<lambda>e. same_address env (eo_Email otp) e \<and> o_created_at e > sql_now env - hour) (email_otps d')
          \<le> ol_PerAddressHour limits \<and>
        count_where (\<lambda>e. o_created_at e > sql_now env - day \<and> o_ip e = Some (eo_IP otp)) (email_otps d') \<le> ol_PerIPDay limits \<and>
        (mailed \<longrightarrow> eo_Mailed otp \<and>
           count_where (\<lambda>e. o_created_at e > sql_now env - day \<and> o_mailed e) (email_otps d') \<le> ol_PerProjectDay limits) \<and>
        count_where (\<lambda>e. same_address env (eo_Email otp) e \<and> o_created_at e > sql_now env - day \<and>
           o_created_at e > sql_now env - ol_MinInterval limits) (email_otps d) = 0"
proof (cases res)
  case (Inl e)
  then show ?thesis using assms by (auto simp: SaveEmailOTP_def Let_def split: if_splits sum.splits)
next
  case (Inr mailed)
  note saved = assms [unfolded Inr]
  have "withinOTPLimits env otp limits d = Inr mailed" using saved by (rule SaveEmailOTP_counts(1)) simp
  note lims = withinOTPLimits_Inr [OF this] and add = SaveEmailOTP_counts(2) [OF saved]
  have "count_where (\<lambda>e. same_address env (eo_Email otp) e \<and> o_created_at e > sql_now env - hour) (email_otps d') \<le> ol_PerAddressHour limits"
    using add [of "\<lambda>e. same_address env (eo_Email otp) e \<and> o_created_at e > sql_now env - hour"] lims(1) by (simp add: same_address_def)
  moreover have "count_where (\<lambda>e. o_created_at e > sql_now env - day \<and> o_ip e = Some (eo_IP otp)) (email_otps d') \<le> ol_PerIPDay limits"
    using add [of "\<lambda>e. o_created_at e > sql_now env - day \<and> o_ip e = Some (eo_IP otp)"] lims(2) by simp
  moreover have "mailed \<longrightarrow> eo_Mailed otp \<and>
      count_where (\<lambda>e. o_created_at e > sql_now env - day \<and> o_mailed e) (email_otps d') \<le> ol_PerProjectDay limits"
    using add [of "\<lambda>e. o_created_at e > sql_now env - day \<and> o_mailed e"] lims(3) by auto
  ultimately show ?thesis using lims(4) Inr by simp
qed

theorem otp_send_budget_witness:
  "fst (SaveEmailOTP sample_env sample_otp sample_otp_limits sample_db) = Inr True \<and>
   count_where (\<lambda>e. same_address sample_env ''a@b.c'' e \<and> o_created_at e > sql_now sample_env - hour)
     (email_otps (snd (SaveEmailOTP sample_env sample_otp sample_otp_limits sample_db))) \<le> 5"
  using otp_send_budget [OF prod.collapse [symmetric], of sample_env sample_otp sample_otp_limits sample_db] sample_otp_saved(1)
  by (simp add: sample_otp_def sample_otp_limits_def)

text \<open>C36: A confirmed change moves the account to the new address and to it alone: the account holds the
  address, proven, and no other account answers to it, in any case; the change link and every reset or
  verification link mailed to the old address are spent; the accounts removed were unproven and
  enabled; every other account is unchanged. A refused confirmation changes nothing.\<close>

theorem confirmed_change_moves_address:
  assumes "wf_db d" "ConfirmEmailChange env uid tokenHash d = (res, d')"
  shows "case res of
      Inl e \<Rightarrow> d' = d
    | Inr changed \<Rightarrow> ce_UserID changed = uid \<and>
        (\<exists>u'. user_by_id d' uid = Some u' \<and> u_email u' = Some (ce_NewEmail changed) \<and> proven u' \<and> \<not> u_is_guest u') \<and>
        (\<forall>u' \<in> set (users d'). answers_to env u' (ce_NewEmail changed) \<longrightarrow> u_id u' = uid) \<and>
        (\<forall>g \<in> set (email_change_tokens d'). g_user_id g = uid \<longrightarrow> g_consumed_at g \<noteq> None) \<and>
        (\<forall>t \<in> set (password_reset_tokens d') \<union> set (email_verification_tokens d'). t_user_id t = uid \<longrightarrow> t_consumed_at t \<noteq> None) \<and>
        (\<forall>u \<in> set (users d). u_id u \<noteq> uid \<longrightarrow>
           (if answers_to env u (ce_NewEmail changed) then \<not> proven u \<and> u_enabled u \<and> user_by_id d' (u_id u) = None
            else user_by_id d' (u_id u) = Some u))"
proof (cases res)
  case (Inl e)
  then show ?thesis using assms(2) ConfirmEmailChange_Inl [of env uid tokenHash d e] by simp
next
  case (Inr changed)
  note moved = assms(2) [unfolded Inr]
  from assms(1) moved have "\<forall>g \<in> set (email_change_tokens d'). g_user_id g = uid \<longrightarrow> g_consumed_at g \<noteq> None"
    "\<forall>t \<in> set (password_reset_tokens d') \<union> set (email_verification_tokens d'). t_user_id t = uid \<longrightarrow> t_consumed_at t \<noteq> None"
    by (rule ConfirmEmailChange_rows, simp)+
  moreover have "ce_UserID changed = uid" using assms(1) moved by (rule ConfirmEmailChange_rows)
  ultimately show ?thesis
    using Inr confirm_own [OF assms(1) moved] confirm_alone [OF assms(1) moved] confirm_others [OF assms(1) moved] by simp
qed

definition sample_change_db :: db where
  "sample_change_db = snd (SaveEmailChange sample_env
     \<lparr>ec_UserID = 1, ec_NewEmail = ''new@b.c'', ec_TokenHash = ''ct'', ec_ExpiresAt = 900, ec_GuestClient = []\<rparr>
     \<lparr>cl_MinInterval = 60, cl_PerAccountDay = 5, cl_PerProjectDay = 50, cl_PerGuestClientDay = 5, cl_GuestPerProjectDay = 5\<rparr> sample_db)"

lemma wf_sample_change_db: "wf_db sample_change_db"
  unfolding sample_change_db_def by (rule wf_SaveEmailChange [OF wf_sample_db])

lemma sample_change_confirmed:
  "fst (ConfirmEmailChange sample_env 1 ''ct'' sample_change_db) =
     Inr \<lparr>ce_UserID = 1, ce_OldEmail = ''a@b.c'', ce_NewEmail = ''new@b.c'', ce_Replaced = []\<rparr>"
  by code_simp

theorem confirmed_change_moves_address_witness:
  "wf_db sample_change_db \<and>
   (\<exists>u'. user_by_id (snd (ConfirmEmailChange sample_env 1 ''ct'' sample_change_db)) 1 = Some u' \<and> u_email u' = Some ''new@b.c'')"
  using confirmed_change_moves_address [OF wf_sample_change_db prod.collapse [symmetric], of sample_env 1 "''ct''"]
    sample_change_confirmed wf_sample_change_db by auto



end
