(* ===== verification/PgMfa.thy ===== *)
theory PgMfa
  imports PgEmail
begin

text \<open>
  Second factors and recovery codes (\<open>internal/store/pgstore/mfa.go\<close>, types of
  \<open>internal/store/mfa.go\<close>). \<open>uuid\<close> is the library's parser: the canonical text of an id, or nothing.
  The account row is locked by every operation, so each is one step.
\<close>

section \<open>Types\<close>

record Factor =
  fc_ID :: string
  fc_UserID :: int
  fc_FriendlyName :: string
  fc_Status :: string
  fc_CreatedAt :: time
  fc_UpdatedAt :: time

record NewFactor =
  nf_ID :: string
  nf_UserID :: int
  nf_FriendlyName :: string
  nf_SecretSealed :: string

record FactorSecret =
  sc_Factor :: Factor
  sc_SecretSealed :: string
  sc_LastUsedStep :: int

record FactorAttempt =
  fa_UserID :: int
  fa_FactorID :: string
  fa_ChallengeID :: string
  fa_FamilyID :: string
  fa_CallerAAL2 :: bool

record MFALimits =
  MaxFactors :: int
  MaxFailures :: int
  FailureWindow :: duration
  MaxDailyFailures :: int
  MaxAccountDailyFailures :: int
  StaleUnverified :: duration

record VerifiedFactor =
  vf_Factor :: Factor
  FirstForAccount :: bool

record FactorListing =
  Factors :: "Factor list"
  RecoveryCodesRemaining :: int

record failureSpender =
  sp_userID :: int
  sp_familyID :: string
  sp_factorID :: "string option"
  sp_callerAAL2 :: bool

definition scanFactor :: "factor_row \<Rightarrow> Factor" where
  "scanFactor f = \<lparr>fc_ID = m_id f, fc_UserID = m_user_id f, fc_FriendlyName = m_friendly_name f,
     fc_Status = m_status f, fc_CreatedAt = m_created_at f, fc_UpdatedAt = m_updated_at f\<rparr>"

section \<open>Enrolment\<close>

definition stale_factor :: "sql_env \<Rightarrow> MFALimits \<Rightarrow> factor_row \<Rightarrow> bool" where
  "stale_factor env limits f =
     (m_status f = FactorUnverified \<and> m_created_at f < sql_now env - StaleUnverified limits)"

definition CreateFactor :: "sql_env \<Rightarrow> NewFactor \<Rightarrow> MFALimits \<Rightarrow> db \<Rightarrow> Factor outcome" where
  "CreateFactor env factor limits d =
     (if nf_UserID factor \<notin> set (user_ids d) then (Inl ErrNotFound, d)
      else
        let d1 = delete_factors (\<lambda>f. m_user_id f = nf_UserID factor \<and> stale_factor env limits f) d;
            row = \<lparr>m_id = nf_ID factor, m_user_id = nf_UserID factor, m_friendly_name = nf_FriendlyName factor,
              m_secret_enc = nf_SecretSealed factor, m_status = FactorUnverified, m_last_used_step = None,
              m_created_at = sql_now env, m_updated_at = sql_now env\<rparr>
        in if count_where (\<lambda>f. m_user_id f = nf_UserID factor) (mfa_factors d1) \<ge> MaxFactors limits
           then (Inl ErrTooManyFactors, d)
           else if exists_where (\<lambda>f. m_id f = nf_ID factor \<or>
               m_user_id f = nf_UserID factor \<and> m_friendly_name f = nf_FriendlyName factor) (mfa_factors d1)
           then (Inl ErrFactorNameTaken, d)
           else (Inr (scanFactor row), d1\<lparr>mfa_factors := mfa_factors d1 @ [row]\<rparr>))"

text \<open>\<open>ORDER BY created_at, id\<close>: the order among factors made at the same instant is that of the ids.\<close>

definition ListFactors :: "(string \<Rightarrow> nat) \<Rightarrow> int \<Rightarrow> db \<Rightarrow> FactorListing" where
  "ListFactors uuid_rank uid d =
     \<lparr>Factors = map scanFactor (sort_key m_created_at (sort_key (\<lambda>f. uuid_rank (m_id f))
        (filter (\<lambda>f. m_user_id f = uid) (mfa_factors d)))),
      RecoveryCodesRemaining = count_where (\<lambda>v. v_user_id v = uid \<and> v_used_at v = None) (mfa_recovery_codes d)\<rparr>"

definition HasVerifiedFactor :: "int \<Rightarrow> db \<Rightarrow> bool" where
  "HasVerifiedFactor uid d = exists_where (\<lambda>f. m_user_id f = uid \<and> m_status f = FactorVerified) (mfa_factors d)"

definition CreateChallenge :: "(string \<Rightarrow> string option) \<Rightarrow> sql_env \<Rightarrow> int \<Rightarrow> string \<Rightarrow> string \<Rightarrow> string \<Rightarrow> time \<Rightarrow> db \<Rightarrow> unit outcome" where
  "CreateChallenge uuid env uid factorID challengeID ip expiresAt d =
     (case uuid factorID of
        None \<Rightarrow> (Inl ErrNotFound, d)
      | Some fid \<Rightarrow>
          let d1 = d\<lparr>mfa_challenges := delete_where (\<lambda>c. h_factor_id c = fid \<and> h_expires_at c < sql_now env) (mfa_challenges d)\<rparr>
          in if \<not> exists_where (\<lambda>f. m_id f = fid \<and> m_user_id f = uid) (mfa_factors d1) then (Inl ErrNotFound, d1)
             else if exists_where (\<lambda>c. h_id c = challengeID) (mfa_challenges d1) then (Inl ErrConstraint, d1)
             else (Inr (), d1\<lparr>mfa_challenges := mfa_challenges d1 @
               [\<lparr>h_id = challengeID, h_factor_id = fid, h_ip = ip, h_expires_at = expiresAt\<rparr>]\<rparr>))"

section \<open>Verification\<close>

definition lockFactor :: "sql_env \<Rightarrow> FactorAttempt \<Rightarrow> string \<Rightarrow> MFALimits \<Rightarrow> db \<Rightarrow> store_error + FactorSecret" where
  "lockFactor env attempt fid limits d =
     (case List.find (\<lambda>f. m_id f = fid \<and> m_user_id f = fa_UserID attempt) (mfa_factors d) of
        None \<Rightarrow> Inl ErrNotFound
      | Some f \<Rightarrow>
          if stale_factor env limits f then Inl ErrNotFound
          else if m_status f \<noteq> FactorVerified \<and>
            exists_where (\<lambda>x. m_user_id x = fa_UserID attempt \<and> m_status x = FactorVerified \<and> m_id x \<noteq> fid) (mfa_factors d) \<and>
            \<not> fa_CallerAAL2 attempt
          then Inl ErrInsufficientAAL
          else Inr \<lparr>sc_Factor = scanFactor f, sc_SecretSealed = m_secret_enc f,
                 sc_LastUsedStep = coalesce (m_last_used_step f) 0\<rparr>)"

definition liveChallenge :: "(string \<Rightarrow> string option) \<Rightarrow> sql_env \<Rightarrow> FactorAttempt \<Rightarrow> string \<Rightarrow> db \<Rightarrow> bool" where
  "liveChallenge uuid env attempt fid d =
     (case uuid (fa_ChallengeID attempt) of
        None \<Rightarrow> False
      | Some cid \<Rightarrow> exists_where (\<lambda>c. h_id c = cid \<and> h_factor_id c = fid \<and> h_expires_at c > sql_now env) (mfa_challenges d))"

definition day_failures :: "sql_env \<Rightarrow> int \<Rightarrow> db \<Rightarrow> failure_row list" where
  "day_failures env uid d = filter (\<lambda>x. x_user_id x = uid \<and> x_failed_at x > sql_now env - day) (mfa_failures d)"

definition failureBudget :: "sql_env \<Rightarrow> failureSpender \<Rightarrow> MFALimits \<Rightarrow> db \<Rightarrow> bool" where
  "failureBudget env spender limits d =
     (let rows = day_failures env (sp_userID spender) d;
          recent = count_where (\<lambda>x. x_family_id x = Some (sp_familyID spender) \<and> x_factor_id x = sp_factorID spender \<and>
                     x_failed_at x > sql_now env - FailureWindow limits) rows;
          session = count_where (\<lambda>x. x_family_id x = Some (sp_familyID spender)) rows;
          account = count_where (\<lambda>x. x_factor_id x \<noteq> None) rows;
          accountCapped = (sp_factorID spender \<noteq> None \<and> \<not> sp_callerAAL2 spender \<and> account \<ge> MaxAccountDailyFailures limits)
      in \<not> (recent \<ge> MaxFailures limits \<or> session \<ge> MaxDailyFailures limits \<or> accountCapped))"

definition recordFailure :: "sql_env \<Rightarrow> failureSpender \<Rightarrow> db \<Rightarrow> db" where
  "recordFailure env spender d =
     d\<lparr>mfa_failures := delete_where (\<lambda>x. x_user_id x = sp_userID spender \<and> x_failed_at x < sql_now env - day) (mfa_failures d) @
        [\<lparr>x_user_id = sp_userID spender, x_factor_id = sp_factorID spender, x_family_id = Some (sp_familyID spender),
          x_failed_at = sql_now env\<rparr>]\<rparr>"

definition acceptFactor :: "(string \<Rightarrow> string option) \<Rightarrow> sql_env \<Rightarrow> FactorAttempt \<Rightarrow> string \<Rightarrow> Factor \<Rightarrow> int \<Rightarrow> db \<Rightarrow> VerifiedFactor outcome" where
  "acceptFactor uuid env attempt fid factor step d =
     (let othersVerified = exists_where (\<lambda>f. m_user_id f = fa_UserID attempt \<and> m_status f = FactorVerified \<and> m_id f \<noteq> fid) (mfa_factors d);
          accept = (\<lambda>f. f\<lparr>m_status := FactorVerified, m_last_used_step := Some step, m_updated_at := sql_now env\<rparr>);
          d1 = d\<lparr>mfa_factors := update_where (\<lambda>f. m_id f = fid) accept (mfa_factors d)\<rparr>;
          d2 = d1\<lparr>mfa_challenges := delete_where (\<lambda>c. h_factor_id c = fid \<and>
                 (Some (h_id c) = uuid (fa_ChallengeID attempt) \<or> h_expires_at c < sql_now env)) (mfa_challenges d1)\<rparr>;
          first = (fc_Status factor \<noteq> FactorVerified \<and> \<not> othersVerified);
          d3 = (if first then delete_factors (\<lambda>f. m_user_id f = fa_UserID attempt \<and> m_status f = FactorUnverified) d2 else d2)
      in case List.find (\<lambda>f. m_id f = fid) (mfa_factors d1) of
           None \<Rightarrow> (Inl ErrNoRows, d)
         | Some updated \<Rightarrow> (Inr \<lparr>vf_Factor = scanFactor updated, FirstForAccount = first\<rparr>, d3))"

definition VerifyFactor :: "(string \<Rightarrow> string option) \<Rightarrow> sql_env \<Rightarrow> FactorAttempt \<Rightarrow> MFALimits \<Rightarrow>
    (FactorSecret \<Rightarrow> store_error + int \<times> bool) \<Rightarrow> db \<Rightarrow> VerifiedFactor outcome" where
  "VerifyFactor uuid env attempt limits check d =
     (case uuid (fa_FactorID attempt) of
        None \<Rightarrow> (Inl ErrNotFound, d)
      | Some fid \<Rightarrow>
          if fa_UserID attempt \<notin> set (user_ids d) then (Inl ErrNotFound, d)
          else (case lockFactor env attempt fid limits d of
            Inl e \<Rightarrow> (Inl e, d)
          | Inr secret \<Rightarrow>
              if \<not> liveChallenge uuid env attempt fid d then (Inl ErrInvalidChallenge, d)
              else
                let spender = \<lparr>sp_userID = fa_UserID attempt, sp_familyID = fa_FamilyID attempt,
                      sp_factorID = Some fid, sp_callerAAL2 = fa_CallerAAL2 attempt\<rparr>
                in if \<not> failureBudget env spender limits d then (Inl ErrTooManyAttempts, d)
                   else (case check secret of
                     Inl e \<Rightarrow> (Inl e, d)
                   | Inr (step, matched) \<Rightarrow>
                       if \<not> matched then (Inl ErrInvalidCode, recordFailure env spender d)
                       else acceptFactor uuid env attempt fid (sc_Factor secret) step d)))"

section \<open>Removal and recovery\<close>

definition DeleteFactor :: "(string \<Rightarrow> string option) \<Rightarrow> int \<Rightarrow> string \<Rightarrow> db \<Rightarrow> unit outcome" where
  "DeleteFactor uuid uid factorID d =
     (case uuid factorID of
        None \<Rightarrow> (Inl ErrNotFound, d)
      | Some fid \<Rightarrow>
          if uid \<notin> set (user_ids d) then (Inl ErrNotFound, d)
          else if \<not> exists_where (\<lambda>f. m_id f = fid \<and> m_user_id f = uid) (mfa_factors d) then (Inl ErrNotFound, d)
          else
            let d1 = delete_factors (\<lambda>f. m_id f = fid \<and> m_user_id f = uid) d
            in (Inr (), d1\<lparr>mfa_recovery_codes :=
                 delete_where (\<lambda>v. v_user_id v = uid \<and> \<not> HasVerifiedFactor uid d1) (mfa_recovery_codes d1)\<rparr>))"

text \<open>Deletes the account's set and stores the new one; two equal hashes break the unique constraint.\<close>

definition store_codes :: "int \<Rightarrow> string list \<Rightarrow> db \<Rightarrow> store_error + db" where
  "store_codes uid hashes d =
     (if \<not> distinct hashes then Inl ErrConstraint
      else Inr (d\<lparr>mfa_recovery_codes := delete_where (\<lambda>v. v_user_id v = uid) (mfa_recovery_codes d) @
        map (\<lambda>h. \<lparr>v_user_id = uid, v_code_hash = h, v_used_at = None\<rparr>) hashes\<rparr>))"

definition ReplaceRecoveryCodes :: "int \<Rightarrow> string list \<Rightarrow> db \<Rightarrow> unit outcome" where
  "ReplaceRecoveryCodes uid hashes d =
     (if uid \<notin> set (user_ids d) then (Inl ErrNotFound, d)
      else case store_codes uid hashes d of Inl e \<Rightarrow> (Inl e, d) | Inr d1 \<Rightarrow> (Inr (), d1))"

definition AddRecoveryCodesIfNone :: "int \<Rightarrow> string list \<Rightarrow> db \<Rightarrow> bool outcome" where
  "AddRecoveryCodesIfNone uid hashes d =
     (if uid \<notin> set (user_ids d) then (Inl ErrNotFound, d)
      else if exists_where (\<lambda>v. v_user_id v = uid \<and> v_used_at v = None) (mfa_recovery_codes d) \<or> \<not> HasVerifiedFactor uid d
      then (Inr False, d)
      else case store_codes uid hashes d of Inl e \<Rightarrow> (Inl e, d) | Inr d1 \<Rightarrow> (Inr True, d1))"

definition RedeemRecoveryCode :: "sql_env \<Rightarrow> int \<Rightarrow> string \<Rightarrow> string \<Rightarrow> MFALimits \<Rightarrow> db \<Rightarrow> unit outcome" where
  "RedeemRecoveryCode env uid familyID hash limits d =
     (if uid \<notin> set (user_ids d) then (Inl ErrNotFound, d)
      else
        let spender = \<lparr>sp_userID = uid, sp_familyID = familyID, sp_factorID = None, sp_callerAAL2 = False\<rparr>;
            hit = (\<lambda>v. v_user_id v = uid \<and> v_code_hash v = hash \<and> v_used_at v = None \<and> HasVerifiedFactor uid d)
        in if \<not> failureBudget env spender limits d then (Inl ErrTooManyAttempts, d)
           else if \<not> exists_where hit (mfa_recovery_codes d) then (Inl ErrInvalidCode, recordFailure env spender d)
           else (Inr (), d\<lparr>mfa_recovery_codes := update_where hit (\<lambda>v. v\<lparr>v_used_at := Some (sql_now env)\<rparr>) (mfa_recovery_codes d)\<rparr>))"

definition ResetMFA :: "int \<Rightarrow> db \<Rightarrow> unit outcome" where
  "ResetMFA uid d =
     (if uid \<notin> set (user_ids d) then (Inl ErrNotFound, d)
      else
        let d1 = delete_factors (\<lambda>f. m_user_id f = uid) d;
            d2 = d1\<lparr>mfa_recovery_codes := delete_where (\<lambda>v. v_user_id v = uid) (mfa_recovery_codes d1)\<rparr>;
            d3 = d2\<lparr>mfa_failures := delete_where (\<lambda>x. x_user_id x = uid) (mfa_failures d2)\<rparr>
        in (Inr (), revoke_where (\<lambda>r. r_user_id r = uid) d3))"

section \<open>Integrity is kept\<close>

lemma wf_mfa_cong:
  assumes "wf_db d" "wf_mfa d'" "users d' = users d" "refresh_tokens d' = refresh_tokens d"
    "email_verification_tokens d' = email_verification_tokens d" "password_reset_tokens d' = password_reset_tokens d"
    "identities d' = identities d" "flow_states d' = flow_states d" "auth_codes d' = auth_codes d"
    "email_otps d' = email_otps d" "email_change_tokens d' = email_change_tokens d" "api_keys d' = api_keys d"
    "role_changes d' = role_changes d" "next_user d' = next_user d" "next_verification d' = next_verification d"
    "next_reset d' = next_reset d" "next_identity d' = next_identity d" "next_otp d' = next_otp d"
    "next_key d' = next_key d"
  shows "wf_db d'"
  using assms by (simp add: wf_db_def wf_users_def wf_sessions_def wf_links_def wf_identities_def wf_flows_def
      wf_otps_def wf_keys_def user_ids_def)

lemma user_ids_delete_factors [simp]: "user_ids (delete_factors P d) = user_ids d"
  by (simp add: user_ids_def)

lemma wf_add_factor:
  assumes "wf_db d" "m_user_id f \<in> set (user_ids d)" "m_id f \<notin> m_id ` set (mfa_factors d)"
    "(m_user_id f, m_friendly_name f) \<notin> (\<lambda>f. (m_user_id f, m_friendly_name f)) ` set (mfa_factors d)"
    "m_status f = FactorUnverified"
  shows "wf_db (d\<lparr>mfa_factors := mfa_factors d @ [f]\<rparr>)"
proof -
  have "wf_mfa (d\<lparr>mfa_factors := mfa_factors d @ [f]\<rparr>)"
    using assms by (auto simp: wf_db_def wf_mfa_def user_ids_def unique_on_append elim!: refers_more)
  then show ?thesis by (rule wf_mfa_cong [OF assms(1)]) simp_all
qed

lemma wf_CreateFactor:
  assumes "wf_db d"
  shows "wf_db (snd (CreateFactor env factor limits d))"
proof -
  let ?d1 = "delete_factors (\<lambda>f. m_user_id f = nf_UserID factor \<and> stale_factor env limits f) d"
  have "wf_db ?d1" using assms by (rule wf_delete_factors)
  note add = wf_add_factor [OF this, simplified]
  show ?thesis
    using assms by (auto simp: CreateFactor_def Let_def exists_where_iff intro!: add)
qed

lemma wf_CreateChallenge:
  assumes "wf_db d"
  shows "wf_db (snd (CreateChallenge uuid env uid factorID challengeID ip expiresAt d))"
proof -
  have tab: "wf_db (d\<lparr>mfa_challenges := t\<rparr>)"
    if "unique_on h_id t" "refers (\<lambda>c. Some (h_factor_id c)) (map m_id (mfa_factors d)) t" for t
    using assms that by (auto simp: wf_db_def wf_defs)
  have "unique_on h_id (delete_where P (mfa_challenges d))"
    "refers (\<lambda>c. Some (h_factor_id c)) (map m_id (mfa_factors d)) (delete_where P (mfa_challenges d))" for P
    using assms by (auto simp: wf_db_def wf_mfa_def)
  then show ?thesis
    using assms by (auto simp: CreateChallenge_def Let_def unique_on_append exists_where_iff split: option.split intro!: tab)
qed

lemma wf_recordFailure:
  assumes "wf_db d" "sp_userID spender \<in> set (user_ids d)"
    "\<forall>i. sp_factorID spender = Some i \<longrightarrow> i \<in> m_id ` set (mfa_factors d)"
  shows "wf_db (recordFailure env spender d)"
proof -
  have "wf_mfa (recordFailure env spender d)"
    using assms by (auto simp: wf_db_def wf_mfa_def recordFailure_def user_ids_def)
  then show ?thesis by (rule wf_mfa_cong [OF assms(1)]) (simp_all add: recordFailure_def)
qed

lemma wf_update_factors:
  assumes "\<And>f. m_id (g f) = m_id f" "\<And>f. m_user_id (g f) = m_user_id f" "\<And>f. m_friendly_name (g f) = m_friendly_name f"
    "\<And>f. m_status (g f) = FactorVerified"
  shows "wf_db d \<Longrightarrow> wf_db (d\<lparr>mfa_factors := update_where P g (mfa_factors d)\<rparr>)"
  using assms by (simp add: wf_db_def wf_defs unique_on_update refers_update map_update_where ball_update_where)

lemma wf_delete_challenges: "wf_db d \<Longrightarrow> wf_db (d\<lparr>mfa_challenges := delete_where P (mfa_challenges d)\<rparr>)"
  by (auto simp: wf_db_def wf_defs)

lemma wf_delete_recovery: "wf_db d \<Longrightarrow> wf_db (d\<lparr>mfa_recovery_codes := delete_where P (mfa_recovery_codes d)\<rparr>)"
  by (auto simp: wf_db_def wf_defs)

lemma wf_delete_failures: "wf_db d \<Longrightarrow> wf_db (d\<lparr>mfa_failures := delete_where P (mfa_failures d)\<rparr>)"
  by (auto simp: wf_db_def wf_defs)

lemma wf_acceptFactor:
  assumes "wf_db d"
  shows "wf_db (snd (acceptFactor uuid env attempt fid factor step d))"
proof -
  let ?d1 = "d\<lparr>mfa_factors := update_where (\<lambda>f. m_id f = fid)
      (\<lambda>f. f\<lparr>m_status := FactorVerified, m_last_used_step := Some step, m_updated_at := sql_now env\<rparr>) (mfa_factors d)\<rparr>"
  have "wf_db ?d1" using assms by (simp add: wf_update_factors)
  from wf_delete_challenges [OF this] show ?thesis
    using assms by (auto simp: acceptFactor_def Let_def intro: wf_delete_factors split: option.split)
qed

lemma lockFactor_Inr:
  "lockFactor env attempt fid limits d = Inr secret \<Longrightarrow>
     \<exists>f \<in> set (mfa_factors d). m_id f = fid \<and> m_user_id f = fa_UserID attempt \<and> \<not> stale_factor env limits f \<and>
       secret = \<lparr>sc_Factor = scanFactor f, sc_SecretSealed = m_secret_enc f, sc_LastUsedStep = coalesce (m_last_used_step f) 0\<rparr>"
  by (auto simp: lockFactor_def split: option.splits if_splits dest!: find_Some_mem)

lemma wf_VerifyFactor:
  assumes "wf_db d"
  shows "wf_db (snd (VerifyFactor uuid env attempt limits check d))"
proof -
  have "wf_db (recordFailure env \<lparr>sp_userID = fa_UserID attempt, sp_familyID = fa_FamilyID attempt,
      sp_factorID = Some fid, sp_callerAAL2 = fa_CallerAAL2 attempt\<rparr> d)"
    if "lockFactor env attempt fid limits d = Inr secret" "fa_UserID attempt \<in> set (user_ids d)" for fid secret
    using assms that lockFactor_Inr [OF that(1)] by (intro wf_recordFailure) auto
  then show ?thesis
    using assms by (auto simp: VerifyFactor_def Let_def wf_acceptFactor split: option.split sum.split prod.split)
qed

lemma wf_DeleteFactor: "wf_db d \<Longrightarrow> wf_db (snd (DeleteFactor uuid uid factorID d))"
  using wf_delete_recovery [OF wf_delete_factors]
  by (auto simp: DeleteFactor_def Let_def split: option.split)

lemma wf_store_codes:
  assumes "wf_db d" "uid \<in> set (user_ids d)" "store_codes uid hashes d = Inr d'"
  shows "wf_db d'"
proof -
  let ?old = "delete_where (\<lambda>v. v_user_id v = uid) (mfa_recovery_codes d)"
  let ?new = "map (\<lambda>h. \<lparr>v_user_id = uid, v_code_hash = h, v_used_at = None\<rparr>) hashes"
  have d': "d' = d\<lparr>mfa_recovery_codes := ?old @ ?new\<rparr>" and dist: "distinct hashes"
    using assms(3) by (auto simp: store_codes_def split: if_splits)
  have "unique_on (\<lambda>v. (v_user_id v, v_code_hash v)) ?old"
    using assms(1) by (auto simp: wf_db_def wf_mfa_def)
  then have "unique_on (\<lambda>v. (v_user_id v, v_code_hash v)) (?old @ ?new)"
    using dist by (auto simp: unique_on_def distinct_map inj_on_def)
  moreover have "refers (\<lambda>v. Some (v_user_id v)) (user_ids d) (?old @ ?new)"
    using assms(1,2) by (auto simp: wf_db_def wf_mfa_def refers_iff)
  ultimately have "wf_mfa d'" using assms(1) by (simp add: d' wf_db_def wf_mfa_def user_ids_def)
  then show ?thesis by (rule wf_mfa_cong [OF assms(1)]) (simp_all add: d')
qed

lemma wf_ReplaceRecoveryCodes: "wf_db d \<Longrightarrow> wf_db (snd (ReplaceRecoveryCodes uid hashes d))"
  by (auto simp: ReplaceRecoveryCodes_def dest: wf_store_codes split: sum.split)

lemma wf_AddRecoveryCodesIfNone: "wf_db d \<Longrightarrow> wf_db (snd (AddRecoveryCodesIfNone uid hashes d))"
  by (auto simp: AddRecoveryCodesIfNone_def dest: wf_store_codes split: sum.split)

lemma wf_RedeemRecoveryCode:
  assumes "wf_db d"
  shows "wf_db (snd (RedeemRecoveryCode env uid familyID hash limits d))"
proof -
  have "wf_db (d\<lparr>mfa_recovery_codes := update_where P (\<lambda>v. v\<lparr>v_used_at := t\<rparr>) (mfa_recovery_codes d)\<rparr>)" for P t
    using assms by (simp add: wf_db_def wf_defs unique_on_update refers_update)
  then show ?thesis using assms by (auto simp: RedeemRecoveryCode_def Let_def intro!: wf_recordFailure)
qed

lemma wf_ResetMFA: "wf_db d \<Longrightarrow> wf_db (snd (ResetMFA uid d))"
  using wf_delete_failures [OF wf_delete_recovery [OF wf_delete_factors]]
  by (simp add: ResetMFA_def Let_def)

section \<open>Recovery codes are spent once\<close>

definition redeem_recovery :: "sql_env \<times> string \<times> MFALimits \<Rightarrow> int \<times> string \<Rightarrow> db \<Rightarrow> unit option \<times> db" where
  "redeem_recovery e code d =
     (case e of (env, familyID, limits) \<Rightarrow> handed (RedeemRecoveryCode env (fst code) familyID (snd code) limits d))"

definition recovery_spent :: "int \<times> string \<Rightarrow> db \<Rightarrow> bool" where
  "recovery_spent code d \<longleftrightarrow> (\<forall>v \<in> set (mfa_recovery_codes d).
     v_user_id v = fst code \<and> v_code_hash v = snd code \<longrightarrow> v_used_at v \<noteq> None)"

lemma recovery_spent_kept:
  "recovery_spent code d \<Longrightarrow> recovery_spent code (snd (RedeemRecoveryCode env uid familyID hash limits d))"
  by (simp add: recovery_spent_def RedeemRecoveryCode_def Let_def recordFailure_def ball_update_where)

interpretation recovery_once: single_use redeem_recovery recovery_spent wf_db
proof
  fix d :: db and e :: "sql_env \<times> string \<times> MFALimits" and c c' :: "int \<times> string"
  obtain env familyID limits where e: "e = (env, familyID, limits)" by (cases e)
  show "wf_db (snd (redeem_recovery e c d))" if "wf_db d"
    using wf_RedeemRecoveryCode [OF that] by (simp add: redeem_recovery_def e)
  show "fst (redeem_recovery e c d) = None" if "recovery_spent c d"
    using that by (auto simp: redeem_recovery_def e recovery_spent_def RedeemRecoveryCode_def Let_def exists_where_iff)
  show "recovery_spent c (snd (redeem_recovery e c' d))" if "recovery_spent c d"
    using recovery_spent_kept [OF that] by (simp add: redeem_recovery_def e)
  show "recovery_spent c (snd (redeem_recovery e c d))" if "wf_db d" "fst (redeem_recovery e c d) \<noteq> None"
    using that(2)
    by (auto simp: redeem_recovery_def e recovery_spent_def RedeemRecoveryCode_def Let_def ball_update_where
        exists_where_iff split: if_splits)
qed

section \<open>Facts about verification\<close>

lemma count_new_failure:
  "count_where P (mfa_failures (recordFailure env spender d)) \<le> count_where P (mfa_failures d) + 1"
  by (simp add: recordFailure_def add_mono count_where_delete_le count_where_def [of P "[_]"])

text \<open>The steps of a verification that went through.\<close>

lemma VerifyFactor_Inr:
  assumes "VerifyFactor uuid env attempt limits check d = (Inr v, d')"
  obtains fid f step where "uuid (fa_FactorID attempt) = Some fid" "f \<in> set (mfa_factors d)" "m_id f = fid"
    "m_user_id f = fa_UserID attempt" "\<not> stale_factor env limits f" "liveChallenge uuid env attempt fid d"
    "m_status f = FactorVerified \<or> fa_CallerAAL2 attempt \<or>
       (\<forall>x \<in> set (mfa_factors d). m_user_id x = fa_UserID attempt \<and> m_id x \<noteq> fid \<longrightarrow> m_status x \<noteq> FactorVerified)"
    "check \<lparr>sc_Factor = scanFactor f, sc_SecretSealed = m_secret_enc f, sc_LastUsedStep = coalesce (m_last_used_step f) 0\<rparr> = Inr (step, True)"
    "acceptFactor uuid env attempt fid (scanFactor f) step d = (Inr v, d')"
proof -
  from assms obtain fid where fid: "uuid (fa_FactorID attempt) = Some fid"
    by (auto simp: VerifyFactor_def split: option.splits)
  from assms fid obtain secret where secret: "lockFactor env attempt fid limits d = Inr secret"
    by (auto simp: VerifyFactor_def split: if_splits sum.splits)
  from lockFactor_Inr [OF secret] obtain f where f: "f \<in> set (mfa_factors d)" "m_id f = fid"
    "m_user_id f = fa_UserID attempt" "\<not> stale_factor env limits f"
    "secret = \<lparr>sc_Factor = scanFactor f, sc_SecretSealed = m_secret_enc f, sc_LastUsedStep = coalesce (m_last_used_step f) 0\<rparr>"
    by blast
  have guard: "m_status f = FactorVerified \<or> fa_CallerAAL2 attempt \<or>
      (\<forall>x \<in> set (mfa_factors d). m_user_id x = fa_UserID attempt \<and> m_id x \<noteq> fid \<longrightarrow> m_status x \<noteq> FactorVerified)"
  proof -
    from secret obtain g where g: "List.find (\<lambda>f. m_id f = fid \<and> m_user_id f = fa_UserID attempt) (mfa_factors d) = Some g"
      and "m_status g = FactorVerified \<or> fa_CallerAAL2 attempt \<or>
        (\<forall>x \<in> set (mfa_factors d). m_user_id x = fa_UserID attempt \<and> m_id x \<noteq> fid \<longrightarrow> m_status x \<noteq> FactorVerified)"
      and "secret = \<lparr>sc_Factor = scanFactor g, sc_SecretSealed = m_secret_enc g, sc_LastUsedStep = coalesce (m_last_used_step g) 0\<rparr>"
      by (auto simp: lockFactor_def exists_where_iff split: option.splits if_splits)
    moreover from this have "m_status f = m_status g" using f(5) by (simp add: scanFactor_def)
    ultimately show ?thesis by simp
  qed
  from assms fid secret f obtain step where
    "liveChallenge uuid env attempt fid d" "check secret = Inr (step, True)"
    "acceptFactor uuid env attempt fid (sc_Factor secret) step d = (Inr v, d')"
    by (auto simp: VerifyFactor_def Let_def split: if_splits sum.splits prod.splits)
  then show thesis using that fid f guard by simp
qed

lemma acceptFactor_Inr:
  assumes "wf_db d" "f \<in> set (mfa_factors d)" "m_id f = fid" "m_user_id f = fa_UserID attempt"
    and "acceptFactor uuid env attempt fid (scanFactor f) step d = (Inr v, d')"
  shows "f\<lparr>m_status := FactorVerified, m_last_used_step := Some step, m_updated_at := sql_now env\<rparr> \<in> set (mfa_factors d')"
    "\<forall>x \<in> set (mfa_factors d). m_user_id x \<noteq> fa_UserID attempt \<longrightarrow> x \<in> set (mfa_factors d')"
    "\<forall>cid. uuid (fa_ChallengeID attempt) = Some cid \<longrightarrow> (\<forall>c \<in> set (mfa_challenges d'). h_id c = cid \<longrightarrow> h_factor_id c \<noteq> fid)"
    "FirstForAccount v \<Longrightarrow> \<forall>x \<in> set (mfa_factors d'). m_user_id x = fa_UserID attempt \<longrightarrow> m_id x = fid"
proof -
  let ?acc = "\<lambda>f. f\<lparr>m_status := FactorVerified, m_last_used_step := Some step, m_updated_at := sql_now env\<rparr>"
  let ?t = "update_where (\<lambda>f. m_id f = fid) ?acc (mfa_factors d)"
  have status: "FactorVerified \<noteq> FactorUnverified" by (simp add: FactorVerified_def FactorUnverified_def)
  have tab: "mfa_factors d' = (if FirstForAccount v
      then delete_where (\<lambda>f. m_user_id f = fa_UserID attempt \<and> m_status f = FactorUnverified) ?t else ?t)"
    using assms(5) by (auto simp: acceptFactor_def Let_def split: option.splits)
  have mem: "?acc f \<in> set ?t" using assms(2,3) by (auto simp: set_update_where image_iff intro!: bexI [of _ f])
  then show "?acc f \<in> set (mfa_factors d')" using status by (simp add: tab)
  have other: "x \<in> set ?t" if "x \<in> set (mfa_factors d)" "m_id x \<noteq> fid" for x
    using that by (auto simp: set_update_where image_iff intro!: bexI [of _ x])
  have ids: "m_id x = fid \<Longrightarrow> x = f" if "x \<in> set (mfa_factors d)" for x
    using that assms(1-3) by (auto simp: wf_db_def wf_mfa_def dest: unique_on_eq)
  show "\<forall>x \<in> set (mfa_factors d). m_user_id x \<noteq> fa_UserID attempt \<longrightarrow> x \<in> set (mfa_factors d')"
    using other ids assms(4) by (auto simp: tab)
  show "\<forall>cid. uuid (fa_ChallengeID attempt) = Some cid \<longrightarrow> (\<forall>c \<in> set (mfa_challenges d'). h_id c = cid \<longrightarrow> h_factor_id c \<noteq> fid)"
    using assms(5) by (auto simp: acceptFactor_def Let_def delete_factors_def split: option.splits if_splits)
  show "\<forall>x \<in> set (mfa_factors d'). m_user_id x = fa_UserID attempt \<longrightarrow> m_id x = fid" if first: "FirstForAccount v"
  proof (intro ballI impI)
    fix x
    assume x: "x \<in> set (mfa_factors d')" "m_user_id x = fa_UserID attempt"
    show "m_id x = fid"
    proof (rule ccontr)
      assume ne: "m_id x \<noteq> fid"
      then have "x \<in> set (mfa_factors d)" "m_status x \<noteq> FactorUnverified"
        using x first by (auto simp: tab set_update_where split: if_splits)
      moreover have "\<forall>y \<in> set (mfa_factors d). m_user_id y = fa_UserID attempt \<and> m_id y \<noteq> fid \<longrightarrow> m_status y \<noteq> FactorVerified"
        using assms(5) first by (auto simp: acceptFactor_def Let_def exists_where_iff split: option.splits)
      moreover have "m_status x = FactorVerified \<or> m_status x = FactorUnverified"
        using \<open>x \<in> set (mfa_factors d)\<close> assms(1) by (auto simp: wf_db_def wf_mfa_def)
      ultimately show False using x(2) ne by blast
    qed
  qed
qed

section \<open>Properties\<close>

text \<open>A recovery code is accepted at most once, over any sequence of attempts from any session.\<close>

theorem recovery_code_single_use:
  assumes "wf_db d"
  shows "granted qs (fst (serve (\<lambda>(e, code). redeem_recovery e code) qs d)) code \<le> 1"
  using recovery_once.granted_at_most_once [OF assms] .

definition sample_limits :: MFALimits where
  "sample_limits = \<lparr>MaxFactors = 10, MaxFailures = 5, FailureWindow = 300, MaxDailyFailures = 20,
     MaxAccountDailyFailures = 50, StaleUnverified = 86400\<rparr>"

definition sample_factor :: factor_row where
  "sample_factor = \<lparr>m_id = ''f1'', m_user_id = 1, m_friendly_name = ''phone'', m_secret_enc = ''enc'',
     m_status = FactorVerified, m_last_used_step = Some 2, m_created_at = 50, m_updated_at = 50\<rparr>"

definition sample_mfa_db :: db where
  "sample_mfa_db = sample_db\<lparr>mfa_factors := [sample_factor],
     mfa_challenges := [\<lparr>h_id = ''c1'', h_factor_id = ''f1'', h_ip = [], h_expires_at = 500\<rparr>],
     mfa_recovery_codes := [\<lparr>v_user_id = 1, v_code_hash = ''rc'', v_used_at = None\<rparr>]\<rparr>"

definition sample_attempt :: FactorAttempt where
  "sample_attempt = \<lparr>fa_UserID = 1, fa_FactorID = ''f1'', fa_ChallengeID = ''c1'', fa_FamilyID = ''f1'', fa_CallerAAL2 = False\<rparr>"

lemma wf_sample_mfa_db: "wf_db sample_mfa_db"
  by (simp add: sample_mfa_db_def sample_factor_def sample_defs wf_db_def wf_defs unique_on_def unique_some_def)

theorem recovery_code_single_use_witness:
  "wf_db sample_mfa_db \<and>
   granted [((sample_env, ''f1'', sample_limits), (1 :: int, ''rc'')), ((sample_env, ''f1'', sample_limits), (1, ''rc''))]
     (fst (serve (\<lambda>(e, code). redeem_recovery e code)
        [((sample_env, ''f1'', sample_limits), (1, ''rc'')), ((sample_env, ''f1'', sample_limits), (1, ''rc''))] sample_mfa_db)) (1, ''rc'') \<le> 1"
  by (rule conjI [OF wf_sample_mfa_db recovery_code_single_use [OF wf_sample_mfa_db]])



text \<open>C3: A granted second factor. The accepted factor was the account's own, not abandoned, and its code
  passed the check against the stored secret; when another factor already protects the account, an unproven
  one is only accepted from a session at the second level. Afterwards the factor is verified and records the
  step spent, the challenge is gone, other accounts' factors are as they were, and the account's first
  verification leaves no other factor of its own.\<close>

theorem verified_factor_effect:
  assumes "wf_db d" and "VerifyFactor uuid env attempt limits check d = (Inr v, d')"
  shows "\<exists>f step. uuid (fa_FactorID attempt) = Some (m_id f) \<and> f \<in> set (mfa_factors d) \<and>
      m_user_id f = fa_UserID attempt \<and> \<not> stale_factor env limits f \<and>
      (m_status f = FactorVerified \<or> fa_CallerAAL2 attempt \<or>
        (\<forall>x \<in> set (mfa_factors d). m_user_id x = fa_UserID attempt \<and> m_id x \<noteq> m_id f \<longrightarrow> m_status x \<noteq> FactorVerified)) \<and>
      check \<lparr>sc_Factor = scanFactor f, sc_SecretSealed = m_secret_enc f,
        sc_LastUsedStep = coalesce (m_last_used_step f) 0\<rparr> = Inr (step, True) \<and>
      f\<lparr>m_status := FactorVerified, m_last_used_step := Some step, m_updated_at := sql_now env\<rparr> \<in> set (mfa_factors d') \<and>
      (\<forall>x \<in> set (mfa_factors d). m_user_id x \<noteq> fa_UserID attempt \<longrightarrow> x \<in> set (mfa_factors d')) \<and>
      \<not> liveChallenge uuid env attempt (m_id f) d' \<and>
      (FirstForAccount v \<longrightarrow> (\<forall>x \<in> set (mfa_factors d'). m_user_id x = fa_UserID attempt \<longrightarrow> m_id x = m_id f))"
proof -
  obtain fid f step where
    fid: "uuid (fa_FactorID attempt) = Some fid" and f: "f \<in> set (mfa_factors d)" "m_id f = fid" "m_user_id f = fa_UserID attempt"
    and guard: "\<not> stale_factor env limits f" "liveChallenge uuid env attempt fid d" "m_status f = FactorVerified \<or> fa_CallerAAL2 attempt \<or>
       (\<forall>x \<in> set (mfa_factors d). m_user_id x = fa_UserID attempt \<and> m_id x \<noteq> fid \<longrightarrow> m_status x \<noteq> FactorVerified)"
    and check: "check \<lparr>sc_Factor = scanFactor f, sc_SecretSealed = m_secret_enc f,
        sc_LastUsedStep = coalesce (m_last_used_step f) 0\<rparr> = Inr (step, True)"
    and acc: "acceptFactor uuid env attempt fid (scanFactor f) step d = (Inr v, d')"
    by (rule VerifyFactor_Inr [OF assms(2)])
  note eff = acceptFactor_Inr [OF assms(1) f acc]
  have "\<not> liveChallenge uuid env attempt fid d'"
    using eff(3) by (auto simp: liveChallenge_def exists_where_iff split: option.split)
  then show ?thesis
    using fid f guard check eff(1,2,4) by (intro exI [of _ f] exI [of _ step]) simp
qed

theorem verified_factor_effect_witness:
  "\<exists>v d'. wf_db sample_mfa_db \<and>
     VerifyFactor Some sample_env sample_attempt sample_limits (\<lambda>s. Inr (3, True)) sample_mfa_db = (Inr v, d') \<and>
     \<not> liveChallenge Some sample_env sample_attempt ''f1'' d'"
proof -
  let ?r = "VerifyFactor Some sample_env sample_attempt sample_limits (\<lambda>s. Inr (3, True)) sample_mfa_db"
  have "isl (fst ?r) = False" by code_simp
  then obtain v where v: "fst ?r = Inr v" by (cases "fst ?r") auto
  then have r: "?r = (Inr v, snd ?r)" by (metis prod.collapse)
  from verified_factor_effect [OF wf_sample_mfa_db r] have "\<not> liveChallenge Some sample_env sample_attempt ''f1'' (snd ?r)"
    by (elim exE conjE) (simp add: sample_attempt_def)
  then show ?thesis using r wf_sample_mfa_db by blast
qed

text \<open>Enrolment is capped and cannot shadow: an enrolled factor is the account's own, unproven, under an
  id and a name no other factor of the account carries; the account holds at most the configured number of
  factors afterwards. A refused enrolment changes nothing.\<close>

theorem factor_enrolment_capped:
  assumes "wf_db d" and "CreateFactor env factor limits d = (r, d')"
  shows "wf_db d' \<and> (isl r \<longrightarrow> d' = d) \<and>
     (\<not> isl r \<longrightarrow>
        count_where (\<lambda>f. m_user_id f = nf_UserID factor) (mfa_factors d') \<le> MaxFactors limits \<and>
        HasVerifiedFactor (nf_UserID factor) d' = HasVerifiedFactor (nf_UserID factor) d \<and>
        count_where (\<lambda>f. m_user_id f = nf_UserID factor \<and> m_friendly_name f = nf_FriendlyName factor) (mfa_factors d') = 1)"
proof -
  have status: "FactorVerified \<noteq> FactorUnverified" by (simp add: FactorVerified_def FactorUnverified_def)
  have "wf_db d'" using wf_CreateFactor [OF assms(1), of env factor limits] assms(2) by simp
  moreover have "isl r \<longrightarrow> d' = d"
    using assms(2) by (auto simp: CreateFactor_def Let_def split: if_splits)
  moreover have "\<not> isl r \<longrightarrow>
        count_where (\<lambda>f. m_user_id f = nf_UserID factor) (mfa_factors d') \<le> MaxFactors limits \<and>
        HasVerifiedFactor (nf_UserID factor) d' = HasVerifiedFactor (nf_UserID factor) d \<and>
        count_where (\<lambda>f. m_user_id f = nf_UserID factor \<and> m_friendly_name f = nf_FriendlyName factor) (mfa_factors d') = 1"
    using assms(2) status
    by (auto simp: CreateFactor_def Let_def HasVerifiedFactor_def exists_where_iff stale_factor_def count_where_def filter_empty_conv split: if_splits)
  ultimately show ?thesis by blast
qed

theorem factor_enrolment_capped_witness:
  "let factor = \<lparr>nf_ID = ''f2'', nf_UserID = 1, nf_FriendlyName = ''tablet'', nf_SecretSealed = ''s''\<rparr>;
       d' = snd (CreateFactor sample_env factor sample_limits sample_mfa_db)
   in count_where (\<lambda>f. m_user_id f = 1) (mfa_factors d') \<le> 10 \<and> count_where (\<lambda>f. m_user_id f = 1 \<and> m_friendly_name f = ''tablet'') (mfa_factors d') = 1"
proof -
  let ?factor = "\<lparr>nf_ID = ''f2'', nf_UserID = 1, nf_FriendlyName = ''tablet'', nf_SecretSealed = ''s''\<rparr>"
  let ?r = "CreateFactor sample_env ?factor sample_limits sample_mfa_db"
  have "\<not> isl (fst ?r)" by code_simp
  then show ?thesis
    using factor_enrolment_capped [OF wf_sample_mfa_db prod.collapse [symmetric], of sample_env ?factor sample_limits]
    by (simp add: Let_def sample_limits_def)
qed

end
