(* ===== verification/PgGuests.thy ===== *)
theory PgGuests
  imports PgSessions
begin

text \<open>
  Guest accounts (\<open>internal/store/pgstore/guests.go\<close>): creation within the sign-up limits, the claim on a
  cleanup round, and the deletion of guests that went idle. A guest an app table references is kept.
\<close>

section \<open>Creation\<close>

record GuestLimits =
  gl_PerClientHour :: int
  gl_PerProjectDay :: int

definition guest_row :: "sql_env \<Rightarrow> db \<Rightarrow> user_row" where
  "guest_row env d = \<lparr>u_id = next_user d, u_email = None, u_password = None, u_full_name = [], u_role = GuestRole,
     u_allowed_roles = None, u_enabled = True, u_email_verified = False, u_email_verified_at = None, u_is_guest = True,
     u_user_metadata = None, u_app_metadata = None, u_created_at = sql_now env, u_last_login_at = Some (sql_now env)\<rparr>"

definition CreateGuest :: "sql_env \<Rightarrow> string \<Rightarrow> GuestLimits \<Rightarrow> db \<Rightarrow> account outcome" where
  "CreateGuest env client limits d =
     (if guest_lock d = None then (Inl ErrMissingLock, d)
      else
        let rows = filter (\<lambda>s. s_created_at s > sql_now env - day) (guest_sign_ups d);
            fromClient = count_where (\<lambda>s. s_ip s = client \<and> s_created_at s > sql_now env - hour) rows;
            today = count_where (\<lambda>_. True) rows
        in if fromClient \<ge> gl_PerClientHour limits \<or> today \<ge> gl_PerProjectDay limits then (Inl ErrRateLimited, d)
           else
             let kept = delete_where (\<lambda>s. s_created_at s < sql_now env - day) (guest_sign_ups d);
                 d1 = d\<lparr>guest_sign_ups := kept @ [\<lparr>s_ip = client, s_created_at = sql_now env\<rparr>]\<rparr>
             in (Inr (account_of (guest_row env d1)), insert_user (guest_row env d1) d1))"

section \<open>Cleanup\<close>

definition ClaimGuestCleanup :: "sql_env \<Rightarrow> duration \<Rightarrow> db \<Rightarrow> bool \<times> db" where
  "ClaimGuestCleanup env every d =
     (case guest_lock d of
        None \<Rightarrow> (False, d)
      | Some cleaned \<Rightarrow>
          if (case cleaned of None \<Rightarrow> True | Some at_time \<Rightarrow> at_time \<le> sql_now env - every)
          then (True, d\<lparr>guest_lock := Some (Some (sql_now env))\<rparr>)
          else (False, d))"

text \<open>A guest that neither signed in nor refreshed since the cutoff.\<close>

definition idle_guest :: "db \<Rightarrow> time \<Rightarrow> user_row \<Rightarrow> bool" where
  "idle_guest d cutoff u =
     (u_is_guest u \<and> coalesce (u_last_login_at u) (u_created_at u) < cutoff \<and>
      \<not> exists_where (\<lambda>r. r_user_id r = u_id u \<and> r_created_at r \<ge> cutoff) (refresh_tokens d))"

definition guestPage :: nat where
  "guestPage = 200"

definition inactiveGuestsQuery :: "time \<Rightarrow> int \<Rightarrow> nat \<Rightarrow> db \<Rightarrow> int list" where
  "inactiveGuestsQuery cutoff after page d =
     take page (sort (map u_id (filter (\<lambda>u. after < u_id u \<and> u_created_at u < cutoff \<and> idle_guest d cutoff u) (users d))))"

definition deleteInactiveGuest :: "sql_env \<Rightarrow> int \<Rightarrow> time \<Rightarrow> db \<Rightarrow> bool \<times> db" where
  "deleteInactiveGuest env i cutoff d =
     (if \<not> exists_where (\<lambda>u. u_id u = i \<and> idle_guest d cutoff u) (users d) then (False, d)
      else case delete_users env [i] d of
          (Inl _, d') \<Rightarrow> (False, d')
        | (Inr n, d') \<Rightarrow> (n = 1, d'))"

text \<open>The inner loop over one page, then the loop over pages.\<close>

fun sweepPage :: "sql_env \<Rightarrow> time \<Rightarrow> int \<Rightarrow> int list \<Rightarrow> int \<Rightarrow> int \<Rightarrow> db \<Rightarrow> int \<times> int \<times> db" where
  "sweepPage env cutoff limit [] deleted after d = (deleted, after, d)"
| "sweepPage env cutoff limit (i # ids) deleted after d =
     (let (removed, d') = deleteInactiveGuest env i cutoff d;
          deleted' = (if removed then deleted + 1 else deleted)
      in if deleted' \<ge> limit then (deleted', i, d')
         else sweepPage env cutoff limit ids deleted' i d')"

text \<open>What a sweep may do: remove idle guests no app table references, and nothing else.\<close>

definition swept :: "sql_env \<Rightarrow> time \<Rightarrow> db \<Rightarrow> db \<Rightarrow> bool" where
  "swept env cutoff d d' \<longleftrightarrow>
     (\<exists>gone. users d' = delete_where (\<lambda>u. gone (u_id u)) (users d) \<and>
        refresh_tokens d' = delete_where (\<lambda>r. gone (r_user_id r)) (refresh_tokens d) \<and>
        (\<forall>u \<in> set (users d). gone (u_id u) \<longrightarrow> idle_guest d cutoff u \<and> \<not> app_referenced env (u_id u)))"

lemma swept_refl: "swept env cutoff d d"
  unfolding swept_def by (rule exI [of _ "\<lambda>_. False"]) (simp add: delete_where_def)

lemma idle_guest_swept:
  assumes "refresh_tokens d' = delete_where (\<lambda>r. gone (r_user_id r)) (refresh_tokens d)" "\<not> gone (u_id u)"
  shows "idle_guest d' cutoff u = idle_guest d cutoff u"
  using assms by (auto simp: idle_guest_def exists_where_iff)

lemma swept_idle:
  assumes "swept env cutoff d d'" "u \<in> set (users d')"
  shows "u \<in> set (users d) \<and> idle_guest d' cutoff u = idle_guest d cutoff u"
proof -
  from assms(1) obtain gone where "users d' = delete_where (\<lambda>u. gone (u_id u)) (users d)"
    "refresh_tokens d' = delete_where (\<lambda>r. gone (r_user_id r)) (refresh_tokens d)"
    by (auto simp: swept_def)
  then show ?thesis using assms(2) idle_guest_swept [of d' gone d u cutoff] by auto
qed

lemma swept_trans:
  assumes "swept env cutoff d d1" "swept env cutoff d1 d2"
  shows "swept env cutoff d d2"
proof -
  from assms(1) obtain g where g: "users d1 = delete_where (\<lambda>u. g (u_id u)) (users d)"
    "refresh_tokens d1 = delete_where (\<lambda>r. g (r_user_id r)) (refresh_tokens d)"
    "\<forall>u \<in> set (users d). g (u_id u) \<longrightarrow> idle_guest d cutoff u \<and> \<not> app_referenced env (u_id u)"
    by (auto simp: swept_def)
  from assms(2) obtain h where h: "users d2 = delete_where (\<lambda>u. h (u_id u)) (users d1)"
    "refresh_tokens d2 = delete_where (\<lambda>r. h (r_user_id r)) (refresh_tokens d1)"
    "\<forall>u \<in> set (users d1). h (u_id u) \<longrightarrow> idle_guest d1 cutoff u \<and> \<not> app_referenced env (u_id u)"
    by (auto simp: swept_def)
  have "idle_guest d cutoff u \<and> \<not> app_referenced env (u_id u)"
    if "u \<in> set (users d)" "g (u_id u) \<or> h (u_id u)" for u
  proof (cases "g (u_id u)")
    case True then show ?thesis using g(3) that(1) by blast
  next
    case False
    then have "u \<in> set (users d1)" using that(1) g(1) by simp
    with h(3) that(2) False idle_guest_swept [of d1 g d u cutoff, OF g(2)] show ?thesis by blast
  qed
  moreover have "users d2 = delete_where (\<lambda>u. g (u_id u) \<or> h (u_id u)) (users d)"
    "refresh_tokens d2 = delete_where (\<lambda>r. g (r_user_id r) \<or> h (r_user_id r)) (refresh_tokens d)"
    by (simp_all add: g h delete_where_def)
  ultimately show ?thesis unfolding swept_def by (intro exI [of _ "\<lambda>i. g i \<or> h i"]) simp
qed

lemma deleteInactiveGuest_effect:
  assumes "wf_db d" "deleteInactiveGuest env i cutoff d = (b, d')"
  shows "wf_db d'" "swept env cutoff d d'"
    "int (length (users d')) = int (length (users d)) - (if b then 1 else 0)"
    "\<forall>u \<in> set (users d'). u_id u = i \<and> idle_guest d' cutoff u \<longrightarrow> app_referenced env i"
proof -
  have ids: "unique_on u_id (users d)" using assms(1) by (simp add: wf_db_def wf_users_def)
  show wf: "wf_db d'"
    using assms delete_users_wf [OF assms(1), of env "[i]"]
    by (auto simp: deleteInactiveGuest_def split: if_splits prod.splits sum.splits)
  consider (none) "\<forall>u \<in> set (users d). u_id u = i \<longrightarrow> \<not> idle_guest d cutoff u"
    | (hit) u where "u \<in> set (users d)" "u_id u = i" "idle_guest d cutoff u"
    by blast
  then have "swept env cutoff d d' \<and> int (length (users d')) = int (length (users d)) - (if b then 1 else 0) \<and>
      (\<forall>u \<in> set (users d'). u_id u = i \<and> idle_guest d' cutoff u \<longrightarrow> app_referenced env i)"
  proof cases
    case none
    then have "\<not> exists_where (\<lambda>u. u_id u = i \<and> idle_guest d cutoff u) (users d)" by (auto simp: exists_where_iff)
    then have "b = False \<and> d' = d" using assms(2) by (simp add: deleteInactiveGuest_def)
    with none show ?thesis by (auto simp: swept_refl)
  next
    case hit
    then have ex: "exists_where (\<lambda>u. u_id u = i \<and> idle_guest d cutoff u) (users d)" by (auto simp: exists_where_iff)
    have same: "\<forall>v \<in> set (users d). u_id v = i \<longrightarrow> v = u" using ids hit by (auto dest: unique_on_eq)
    have one: "length (filter (\<lambda>u. u_id u = i) (users d)) = 1"
      using ids hit(1,2) by (rule unique_on_count_one)
    show ?thesis
    proof (cases "app_referenced env i")
      case True
      then have "list_ex (\<lambda>u. app_referenced env (u_id u)) (filter (\<lambda>u. u_id u \<in> set [i]) (users d))"
        using hit by (auto simp: list_ex_iff)
      then have "delete_users env [i] d = (Inl ErrUserReferenced, d)" by (simp add: delete_users_def Let_def)
      then have "b = False \<and> d' = d" using assms(2) ex by (simp add: deleteInactiveGuest_def)
      with True show ?thesis by (auto simp: swept_refl)
    next
      case False
      then have "delete_users env [i] d = (Inr 1, cascade_users (\<lambda>j. j = i) d)"
        using one by (auto simp: delete_users_def Let_def list_ex_iff)
      then have bd: "b = True" "d' = cascade_users (\<lambda>j. j = i) d"
        using assms(2) ex by (simp_all add: deleteInactiveGuest_def)
      have "length (users d') + 1 = length (users d)"
        using one sum_length_filter_compl [of "\<lambda>u. u_id u = i" "users d"]
        by (simp add: bd cascade_users_fields delete_where_def)
      moreover have "swept env cutoff d d'"
        unfolding swept_def using same hit(3) False
        by (intro exI [of _ "\<lambda>j. j = i"]) (auto simp: bd cascade_users_fields)
      ultimately show ?thesis by (auto simp: bd cascade_users_fields)
    qed
  qed
  then show "swept env cutoff d d'"
    "int (length (users d')) = int (length (users d)) - (if b then 1 else 0)"
    "\<forall>u \<in> set (users d'). u_id u = i \<and> idle_guest d' cutoff u \<longrightarrow> app_referenced env i"
    by blast+
qed

text \<open>One page: the pages' cursor moves into the page, the count is the number of accounts removed,
  and a page the limit did not cut short leaves only referenced guests among its ids.\<close>

lemma sweepPage_effect:
  assumes "wf_db d" "sweepPage env cutoff limit ids deleted after d = (n, a, d')"
  shows "wf_db d' \<and> swept env cutoff d d' \<and> n - deleted = int (length (users d)) - int (length (users d')) \<and>
    deleted \<le> n \<and> (deleted < limit \<longrightarrow> n \<le> limit) \<and> a = (if ids = [] then after else a) \<and> (ids \<noteq> [] \<longrightarrow> a \<in> set ids) \<and>
    (n < limit \<longrightarrow> a = last (after # ids) \<and>
       (\<forall>u \<in> set (users d'). u_id u \<in> set ids \<and> idle_guest d' cutoff u \<longrightarrow> app_referenced env (u_id u)))"
  using assms
proof (induction ids arbitrary: deleted after d)
  case Nil
  then show ?case by (simp add: swept_refl)
next
  case (Cons i ids)
  obtain b d1 where del: "deleteInactiveGuest env i cutoff d = (b, d1)" by (cases "deleteInactiveGuest env i cutoff d")
  note eff = deleteInactiveGuest_effect [OF Cons.prems(1) del]
  let ?n = "if b then deleted + 1 else deleted"
  show ?case
  proof (cases "?n \<ge> limit")
    case True
    then have "n = ?n \<and> a = i \<and> d' = d1" using Cons.prems(2) del by (auto simp: Let_def)
    then show ?thesis using eff True by auto
  next
    case False
    then have rest: "sweepPage env cutoff limit ids ?n i d1 = (n, a, d')"
      using Cons.prems(2) del by (auto simp: Let_def)
    note IH = Cons.IH [OF eff(1) rest]
    have sw: "swept env cutoff d d'" using IH eff(2) swept_trans by blast
    have "app_referenced env (u_id u)"
      if "n < limit" "u \<in> set (users d')" "u_id u \<in> set (i # ids)" "idle_guest d' cutoff u" for u
    proof (cases "u_id u = i")
      case True
      have "u \<in> set (users d1)" "idle_guest d1 cutoff u" using swept_idle [of env cutoff d1 d' u] IH that by auto
      with eff(4) True show ?thesis by auto
    next
      case False
      with IH that show ?thesis by auto
    qed
    moreover have "ids = [] \<Longrightarrow> a = i" using rest by simp
    moreover have "n - deleted = int (length (users d)) - int (length (users d'))" "deleted \<le> n"
      using IH eff(3) by (auto split: if_splits)
    moreover have "deleted < limit \<longrightarrow> n \<le> limit" using IH False by auto
    ultimately show ?thesis using IH sw by auto
  qed
qed

lemma sweepPage_users:
  assumes "sweepPage env cutoff limit ids deleted after d = (n, a, d')"
  shows "\<exists>P. users d' = delete_where P (users d)" "ids \<noteq> [] \<Longrightarrow> a \<in> set ids"
proof -
  have del: "\<exists>P. users (snd (deleteInactiveGuest env i cutoff d)) = delete_where P (users d)" for i d
  proof -
    have "users d = delete_where (\<lambda>_. False) (users d)" by (simp add: delete_where_def)
    then show ?thesis
      by (auto simp: deleteInactiveGuest_def delete_users_def Let_def cascade_users_fields split: prod.split sum.split if_splits)
  qed
  show "\<exists>P. users d' = delete_where P (users d)" using assms
  proof (induction ids arbitrary: deleted after d)
    case Nil
    then show ?case by (intro exI [of _ "\<lambda>_. False"]) (simp add: delete_where_def)
  next
    case (Cons i ids)
    obtain b d1 where d1: "deleteInactiveGuest env i cutoff d = (b, d1)" by (cases "deleteInactiveGuest env i cutoff d")
    from del [of i d] d1 obtain P where P: "users d1 = delete_where P (users d)" by auto
    from Cons d1 have "d' = d1 \<or> (\<exists>Q. users d' = delete_where Q (users d1))"
      by (auto simp: Let_def split: if_splits)
    then show ?case
    proof
      assume "\<exists>Q. users d' = delete_where Q (users d1)"
      then obtain Q where "users d' = delete_where Q (users d1)" ..
      then show ?thesis by (intro exI [of _ "\<lambda>u. P u \<or> Q u"]) (simp add: P delete_where_def)
    qed (use P in blast)
  qed
  show "a \<in> set ids" if "ids \<noteq> []"
    using assms that
  proof (induction ids arbitrary: deleted after d)
    case (Cons i ids)
    then show ?case by (cases "ids = []") (auto simp: Let_def split: prod.splits if_splits)
  qed simp
qed

text \<open>Each page moves the cursor past an account that was ahead of it, so the loop ends.\<close>

lemma page_progress:
  assumes "inactiveGuestsQuery cutoff after page d = i # ids"
    and "sweepPage env cutoff limit (i # ids) deleted after d = (n, a, d')"
  shows "length (filter (\<lambda>u. a < u_id u) (users d')) < length (filter (\<lambda>u. after < u_id u) (users d))"
proof -
  from sweepPage_users [OF assms(2)] obtain P where P: "users d' = delete_where P (users d)" and a: "a \<in> set (i # ids)"
    by auto
  have "a \<in> set (inactiveGuestsQuery cutoff after page d)" using a assms(1) by simp
  then obtain u where u: "u \<in> set (users d)" "u_id u = a" "after < a"
    by (auto simp: inactiveGuestsQuery_def dest!: in_set_takeD)
  have "length (filter Q (delete_where P us)) \<le> length (filter Q us)" for Q us
    by (induction us) (auto simp: delete_where_def)
  then have "length (filter (\<lambda>u. a < u_id u) (users d')) \<le> length (filter (\<lambda>u. a < u_id u) (users d))"
    by (simp add: P)
  also have "\<dots> < length (filter (\<lambda>u. after < u_id u) (users d))"
    using u by (intro length_filter_strict [of u]) auto
  finally show ?thesis .
qed

lemma page_progress_case:
  "inactiveGuestsQuery cutoff after page d = i # ids \<Longrightarrow>
   (case sweepPage env cutoff limit (i # ids) deleted after d of
      (n, a, d') \<Rightarrow> length (filter (\<lambda>u. a < u_id u) (users d'))) < length (filter (\<lambda>u. after < u_id u) (users d))"
  using page_progress by (cases "sweepPage env cutoff limit (i # ids) deleted after d") simp

function guestLoop :: "sql_env \<Rightarrow> time \<Rightarrow> int \<Rightarrow> int \<Rightarrow> int \<Rightarrow> db \<Rightarrow> int \<times> db" where
  "guestLoop env cutoff limit deleted after d =
     (if deleted \<ge> limit then (deleted, d)
      else case inactiveGuestsQuery cutoff after guestPage d of
          [] \<Rightarrow> (deleted, d)
        | i # ids \<Rightarrow>
            (case sweepPage env cutoff limit (i # ids) deleted after d of
               (deleted', after', d') \<Rightarrow> guestLoop env cutoff limit deleted' after' d'))"
  by pat_completeness auto
termination
  by (relation "measure (\<lambda>(env, cutoff, limit, deleted, after, d). length (filter (\<lambda>u. after < u_id u) (users d)))")
    (simp, simp only: in_measure split_conv page_progress_case)

declare guestLoop.simps [simp del]

definition DeleteInactiveGuests :: "sql_env \<Rightarrow> time \<Rightarrow> int \<Rightarrow> db \<Rightarrow> int \<times> db" where
  "DeleteInactiveGuests env cutoff limit d = guestLoop env cutoff limit 0 0 d"

section \<open>Integrity is kept\<close>

lemma wf_CreateGuest: "wf_db d \<Longrightarrow> wf_db (snd (CreateGuest env client limits d))"
proof -
  assume wf: "wf_db d"
  have "wf_db (d\<lparr>guest_sign_ups := t\<rparr>)" for t using wf by (simp add: wf_db_def wf_defs)
  then have "wf_db (insert_user (guest_row env (d\<lparr>guest_sign_ups := t\<rparr>)) (d\<lparr>guest_sign_ups := t\<rparr>))" for t
    by (rule wf_insert_user) (simp_all add: guest_row_def)
  with wf show ?thesis by (simp add: CreateGuest_def Let_def)
qed

lemma wf_ClaimGuestCleanup: "wf_db d \<Longrightarrow> wf_db (snd (ClaimGuestCleanup env every d))"
  by (auto simp: ClaimGuestCleanup_def wf_db_def wf_defs split: option.split)

section \<open>Properties\<close>

text \<open>Everything with an id up to the cursor has been dealt with.\<close>

definition behind :: "sql_env \<Rightarrow> time \<Rightarrow> int \<Rightarrow> db \<Rightarrow> bool" where
  "behind env cutoff after d \<longleftrightarrow>
     (\<forall>u \<in> set (users d). u_id u \<le> after \<and> u_created_at u < cutoff \<and> idle_guest d cutoff u \<longrightarrow> app_referenced env (u_id u))"

lemma sorted_take_last:
  assumes "sorted xs" "take n xs \<noteq> []" "x \<in> set xs" "x \<le> last (take n xs)"
  shows "x \<in> set (take n xs) \<or> (\<exists>y \<in> set (take n xs). x = y)"
proof (rule ccontr)
  assume no: "\<not> ?thesis"
  then have "x \<in> set (drop n xs)" using assms(3) by (metis Un_iff append_take_drop_id set_append)
  moreover have "last (take n xs) \<in> set (take n xs)" using assms(2) by simp
  ultimately have "last (take n xs) \<le> x" using assms(1) by (metis append_take_drop_id sorted_append)
  then show False using no assms(2,4) by (metis dual_order.antisym last_in_set)
qed

lemma page_complete:
  assumes "inactiveGuestsQuery cutoff after page d = ids" "ids \<noteq> []" "u \<in> set (users d)"
    "after < u_id u" "u_id u \<le> last ids" "u_created_at u < cutoff" "idle_guest d cutoff u"
  shows "u_id u \<in> set ids"
proof -
  let ?all = "sort (map u_id (filter (\<lambda>u. after < u_id u \<and> u_created_at u < cutoff \<and> idle_guest d cutoff u) (users d)))"
  have "u_id u \<in> set ?all" using assms(3-7) by auto
  with sorted_take_last [of ?all page "u_id u"] assms(1,2,5) show ?thesis
    by (auto simp: inactiveGuestsQuery_def)
qed

lemma behind_page:
  assumes "behind env cutoff after d" "wf_db d" "inactiveGuestsQuery cutoff after page d = ids" "ids \<noteq> []"
    and sw: "sweepPage env cutoff limit ids deleted after d = (n, a, d')" and "n < limit"
  shows "behind env cutoff a d'"
  unfolding behind_def
proof (intro ballI impI; elim conjE)
  fix u assume u: "u \<in> set (users d')" "u_id u \<le> a" "u_created_at u < cutoff" "idle_guest d' cutoff u"
  note eff = sweepPage_effect [OF assms(2) sw]
  have old: "u \<in> set (users d)" "idle_guest d cutoff u" using swept_idle [of env cutoff d d' u] eff u by auto
  show "app_referenced env (u_id u)"
  proof (cases "u_id u \<le> after")
    case True
    then show ?thesis using assms(1) old u by (auto simp: behind_def)
  next
    case False
    have "a = last ids" using eff assms(4,6) by simp
    then have "u_id u \<in> set ids" using page_complete [OF assms(3,4) old(1)] False u old(2) by simp
    then show ?thesis using eff assms(6) u by blast
  qed
qed

text \<open>A page that comes back empty leaves no idle guest beyond the cursor.\<close>

lemma behind_empty_page:
  assumes "behind env cutoff after d" "inactiveGuestsQuery cutoff after guestPage d = []"
    and "u \<in> set (users d)" "u_created_at u < cutoff" "idle_guest d cutoff u"
  shows "app_referenced env (u_id u)"
proof (cases "u_id u \<le> after")
  case True
  then show ?thesis using assms by (auto simp: behind_def)
next
  case False
  let ?all = "map u_id (filter (\<lambda>u. after < u_id u \<and> u_created_at u < cutoff \<and> idle_guest d cutoff u) (users d))"
  have "sort ?all = []" using assms(2) by (simp add: inactiveGuestsQuery_def guestPage_def)
  then have "set ?all = {}" by (metis set_sort list.set(1))
  moreover have "u_id u \<in> set ?all" using assms False by auto
  ultimately show ?thesis by (simp only: empty_iff)
qed

lemma guestLoop_effect:
  assumes "wf_db d" "behind env cutoff after d" "guestLoop env cutoff limit deleted after d = (n, d')"
  shows "wf_db d' \<and> swept env cutoff d d' \<and> n - deleted = int (length (users d)) - int (length (users d')) \<and>
     (deleted \<le> limit \<longrightarrow> n \<le> limit) \<and>
     (n < limit \<longrightarrow> (\<forall>u \<in> set (users d'). u_created_at u < cutoff \<and> idle_guest d' cutoff u \<longrightarrow> app_referenced env (u_id u)))"
  using assms
proof (induction env cutoff limit deleted after d rule: guestLoop.induct)
  case (1 env cutoff limit deleted after d)
  show ?case
  proof (cases "deleted \<ge> limit")
    case True
    then have "n = deleted \<and> d' = d" using 1 by (simp add: guestLoop.simps [of _ _ _ _ _ d])
    then show ?thesis using 1(2) True by (auto simp: swept_refl)
  next
    case more: False
    show ?thesis
    proof (cases "inactiveGuestsQuery cutoff after guestPage d")
      case Nil
      then have "n = deleted \<and> d' = d" using 1 more by (simp add: guestLoop.simps [of _ _ _ _ _ d])
      moreover have "app_referenced env (u_id u)"
        if "u \<in> set (users d)" "u_created_at u < cutoff" "idle_guest d cutoff u" for u
        using 1(3) Nil that by (rule behind_empty_page)
      ultimately show ?thesis using 1(2) more by (auto simp: swept_refl)
    next
      case (Cons i ids)
      obtain m a d1 where sw: "sweepPage env cutoff limit (i # ids) deleted after d = (m, a, d1)"
        by (cases "sweepPage env cutoff limit (i # ids) deleted after d")
      have rest: "guestLoop env cutoff limit m a d1 = (n, d')"
        using 1(4) more by (simp add: guestLoop.simps [of _ _ _ _ _ d] Cons sw del: sweepPage.simps)
      note eff = sweepPage_effect [OF 1(2) sw]
      show ?thesis
      proof (cases "m < limit")
        case True
        have "behind env cutoff a d1" by (rule behind_page [OF 1(3,2) Cons _ sw True]) simp
        then have IH: "wf_db d' \<and> swept env cutoff d1 d' \<and> n - m = int (length (users d1)) - int (length (users d')) \<and>
            (m \<le> limit \<longrightarrow> n \<le> limit) \<and>
            (n < limit \<longrightarrow> (\<forall>u \<in> set (users d'). u_created_at u < cutoff \<and> idle_guest d' cutoff u \<longrightarrow> app_referenced env (u_id u)))"
          using 1(1) [OF more Cons sw [symmetric] refl] eff rest by blast
        moreover have "swept env cutoff d d'" using swept_trans eff IH by blast
        ultimately show ?thesis using eff True by auto
      next
        case False
        then have "n = m \<and> d' = d1" using rest by (simp add: guestLoop.simps [of _ _ _ _ _ d1])
        then show ?thesis using eff False more by auto
      qed
    qed
  qed
qed

text \<open>C35: A cleanup round ends and deletes exactly what it counts: at most the limit, only guests that
  neither signed in nor refreshed since the cutoff and that no app table references, and every other account
  stays as it was. When it stops below the limit, every idle guest left over is one an app table references.\<close>

theorem guest_cleanup_exact:
  assumes "wf_db d" "DeleteInactiveGuests env cutoff limit d = (n, d')" "0 \<le> limit"
  shows "wf_db d' \<and> 0 \<le> n \<and> n \<le> limit \<and> n = int (length (users d)) - int (length (users d')) \<and>
     set (users d') \<subseteq> set (users d) \<and>
     (\<forall>u \<in> set (users d). u \<notin> set (users d') \<longrightarrow> idle_guest d cutoff u \<and> \<not> app_referenced env (u_id u)) \<and>
     (n < limit \<longrightarrow> (\<forall>u \<in> set (users d'). u_created_at u < cutoff \<and> idle_guest d cutoff u \<longrightarrow> app_referenced env (u_id u)))"
proof -
  have "behind env cutoff 0 d" using assms(1) by (auto simp: behind_def wf_db_def wf_users_def)
  note eff = guestLoop_effect [OF assms(1) this assms(2) [unfolded DeleteInactiveGuests_def]]
  then obtain gone where g: "users d' = delete_where (\<lambda>u. gone (u_id u)) (users d)"
    "\<forall>u \<in> set (users d). gone (u_id u) \<longrightarrow> idle_guest d cutoff u \<and> \<not> app_referenced env (u_id u)"
    by (auto simp: swept_def)
  have "length (users d') \<le> length (users d)" by (simp add: g(1) delete_where_def)
  moreover have "idle_guest d' cutoff u = idle_guest d cutoff u" if "u \<in> set (users d')" for u
    using swept_idle [OF _ that] eff by blast
  ultimately show ?thesis using eff g assms(3) by auto
qed

definition sample_guest_db :: db where
  "sample_guest_db = insert_user ((guest_row sample_env sample_db)\<lparr>u_created_at := 10, u_last_login_at := Some 10\<rparr>) sample_db"

lemma wf_sample_guest_db: "wf_db sample_guest_db"
  unfolding sample_guest_db_def by (rule wf_insert_user [OF wf_sample_db]) (simp_all add: guest_row_def)

theorem guest_cleanup_exact_witness:
  "wf_db sample_guest_db \<and> fst (DeleteInactiveGuests sample_env 50 10 sample_guest_db) = 1 \<and>
   set (users (snd (DeleteInactiveGuests sample_env 50 10 sample_guest_db))) \<subseteq> set (users sample_guest_db)"
proof -
  let ?r = "DeleteInactiveGuests sample_env 50 10 sample_guest_db"
  have "fst ?r = 1" by code_simp
  then show ?thesis
    using guest_cleanup_exact [OF wf_sample_guest_db prod.collapse [symmetric], of 10 sample_env 50] wf_sample_guest_db
    by auto
qed

text \<open>Guest sign-ups stay within their limits however they are spread over clients and replicas: right after
  a guest is created its client has at most the hourly number of sign-ups in the last hour and the project at most
  the daily number in the last day. The guest is a new account with no address, no password and the guest role,
  and a refused sign-up changes nothing.\<close>

theorem guest_sign_ups_capped:
  assumes "wf_db d" "CreateGuest env client limits d = (r, d')"
  shows "wf_db d' \<and> (isl r \<longrightarrow> d' = d) \<and>
    (\<forall>a. r = Inr a \<longrightarrow>
       count_where (\<lambda>s. s_ip s = client \<and> s_created_at s > sql_now env - hour) (guest_sign_ups d') \<le> gl_PerClientHour limits \<and>
       count_where (\<lambda>s. s_created_at s > sql_now env - day) (guest_sign_ups d') \<le> gl_PerProjectDay limits \<and>
       user_by_id d (a_ID a) = None \<and> a_IsGuest a \<and> a_Role a = GuestRole \<and> a_Enabled a \<and>
       (\<exists>u. user_by_id d' (a_ID a) = Some u \<and> account_of u = a \<and> u_email u = None \<and> u_password u = None))"
proof (cases "isl r")
  case True
  then have "d' = d" using assms(2) by (auto simp: CreateGuest_def Let_def split: if_splits)
  then show ?thesis using True assms(1) by auto
next
  case False
  let ?kept = "delete_where (\<lambda>s. s_created_at s < sql_now env - day) (guest_sign_ups d)"
  let ?d1 = "d\<lparr>guest_sign_ups := ?kept @ [\<lparr>s_ip = client, s_created_at = sql_now env\<rparr>]\<rparr>"
  have r: "r = Inr (account_of (guest_row env ?d1))" and d': "d' = insert_user (guest_row env ?d1) ?d1"
    and lim: "count_where (\<lambda>s. s_created_at s > sql_now env - day \<and> s_ip s = client \<and> s_created_at s > sql_now env - hour) (guest_sign_ups d) < gl_PerClientHour limits"
      "count_where (\<lambda>s. s_created_at s > sql_now env - day) (guest_sign_ups d) < gl_PerProjectDay limits"
    using assms(2) False by (auto simp: CreateGuest_def Let_def count_where_filter not_le split: if_splits)
  have "(\<lambda>s. s_created_at s > sql_now env - day \<and> s_ip s = client \<and> s_created_at s > sql_now env - hour)
      = (\<lambda>s. s_ip s = client \<and> s_created_at s > sql_now env - hour)" by auto
  note lim' = lim [unfolded this]
  have "guest_sign_ups d' = ?kept @ [\<lparr>s_ip = client, s_created_at = sql_now env\<rparr>]" by (simp add: d' insert_user_def)
  then have "count_where (\<lambda>s. s_ip s = client \<and> s_created_at s > sql_now env - hour) (guest_sign_ups d') \<le> gl_PerClientHour limits"
    "count_where (\<lambda>s. s_created_at s > sql_now env - day) (guest_sign_ups d') \<le> gl_PerProjectDay limits"
    using lim' [THEN order.strict_trans1 [OF count_where_delete_le]]
    by (simp_all add: count_where_def [of _ "[_]"] add1_zle_eq)
  moreover have "wf_db d'" using wf_CreateGuest [OF assms(1), of env client limits] assms(2) by simp
  moreover have "next_user d \<notin> set (user_ids d)" using assms(1) by (auto simp: wf_db_def wf_users_def user_ids_def)
  moreover from this have "List.find (\<lambda>u. u_id u = next_user d) (users d) = None"
    by (simp add: user_by_id_None [symmetric] user_by_id_def)
  then have "user_by_id d' (next_user d) = Some (guest_row env ?d1)"
    by (simp add: d' insert_user_def user_by_id_def guest_row_def find_append)
  ultimately show ?thesis
    by (auto simp: r account_of_def guest_row_def user_by_id_None)
qed

theorem guest_sign_ups_capped_witness:
  "let r = CreateGuest sample_env ''10.0.0.1'' \<lparr>gl_PerClientHour = 2, gl_PerProjectDay = 5\<rparr> sample_db
   in wf_db sample_db \<and> \<not> isl (fst r) \<and> wf_db (snd r) \<and>
      count_where (\<lambda>s. s_created_at s > sql_now sample_env - day) (guest_sign_ups (snd r)) \<le> 5"
proof -
  let ?l = "\<lparr>gl_PerClientHour = 2, gl_PerProjectDay = 5\<rparr>"
  let ?r = "CreateGuest sample_env ''10.0.0.1'' ?l sample_db"
  have ok: "\<not> isl (fst ?r)" by code_simp
  then obtain a where "fst ?r = Inr a" by (cases "fst ?r") auto
  with guest_sign_ups_capped [OF wf_sample_db prod.collapse [symmetric], of sample_env "''10.0.0.1''" ?l] ok wf_sample_db
  show ?thesis by (simp add: Let_def)
qed

end
