(* ===== verification/Roles.thy ===== *)
theory Roles
  imports Prelude
begin

text \<open>
  The roles an account may hold and switch between (\<open>internal/auth/role.go\<close>). A stored or requested
  list is \<open>None\<close> where the code has \<open>nil\<close>.
\<close>

datatype role_error =
    ErrInvalidAccountRole | ErrInvalidRoleName | ErrReservedRole | ErrRoleNotAllowed | ErrTooManyAllowedRoles

definition RoleAnon :: string where "RoleAnon = ''anon''"
definition RoleService :: string where "RoleService = ''service''"

abbreviation (input) MaxAllowedRoles :: nat where "MaxAllowedRoles \<equiv> 20"

text \<open>\<open>^[a-z][a-z0-9_]{0,62}$\<close>.\<close>

definition roleNamePattern :: "string \<Rightarrow> bool" where
  "roleNamePattern role =
     (case role of
        [] \<Rightarrow> False
      | c # cs \<Rightarrow> is_lower c \<and> length cs \<le> 62 \<and> list_all (\<lambda>x. is_lower x \<or> is_digit x \<or> x = CHR ''_'') cs)"

definition reservedRoles :: "string list" where
  "reservedRoles = [RoleAnon, RoleService, ''postgres'', ''auth_admin'', ''excalibase_app'', ''cdc_watcher'',
     ''streaming_replica'', ''excalibase_docbrowser'', ''app'']"

definition reservedRolePrefixes :: "string list" where
  "reservedRolePrefixes = [''pg_'', ''excalibase_'']"

definition ValidateRoleName :: "string \<Rightarrow> role_error option" where
  "ValidateRoleName role =
     (if \<not> roleNamePattern role then Some ErrInvalidRoleName
      else if role \<in> set reservedRoles then Some ErrReservedRole
      else if list_ex (HasPrefix role) reservedRolePrefixes then Some ErrReservedRole
      else None)"

definition ValidateAccountRole :: "string \<Rightarrow> role_error option" where
  "ValidateAccountRole role = (if ValidateRoleName role \<noteq> None then Some ErrInvalidAccountRole else None)"

fun uniqueRoles :: "string list \<Rightarrow> string list \<Rightarrow> role_error + string list" where
  "uniqueRoles unique [] = Inr unique"
| "uniqueRoles unique (entry # entries) =
     (case ValidateRoleName entry of
        Some e \<Rightarrow> Inl e
      | None \<Rightarrow> uniqueRoles (if entry \<in> set unique then unique else unique @ [entry]) entries)"

definition NormalizeAllowedRoles :: "string \<Rightarrow> string list option \<Rightarrow> role_error + string list" where
  "NormalizeAllowedRoles role allowed =
     (case ValidateRoleName role of
        Some e \<Rightarrow> Inl e
      | None \<Rightarrow>
          (case allowed of
             None \<Rightarrow> Inr [role]
           | Some entries \<Rightarrow>
               (case uniqueRoles [] entries of
                  Inl e \<Rightarrow> Inl e
                | Inr unique \<Rightarrow>
                    if length unique > MaxAllowedRoles then Inl ErrTooManyAllowedRoles
                    else if role \<notin> set unique then Inl ErrRoleNotAllowed
                    else Inr unique)))"

definition AccountAllowedRoles :: "string \<Rightarrow> string list option \<Rightarrow> role_error + string list" where
  "AccountAllowedRoles role stored =
     (case ValidateAccountRole role of
        Some e \<Rightarrow> Inl e
      | None \<Rightarrow> (case NormalizeAllowedRoles role stored of Inl _ \<Rightarrow> Inl ErrInvalidAccountRole | Inr allowed \<Rightarrow> Inr allowed))"

section \<open>Facts\<close>

lemma uniqueRoles_Inr:
  "uniqueRoles unique entries = Inr result \<Longrightarrow> distinct unique \<Longrightarrow>
     distinct result \<and> set result = set unique \<union> set entries \<and> (\<forall>r \<in> set entries. ValidateRoleName r = None)"
proof (induction entries arbitrary: unique)
  case (Cons e es)
  then have ok: "ValidateRoleName e = None" by (auto split: option.splits)
  let ?u = "if e \<in> set unique then unique else unique @ [e]"
  have "uniqueRoles ?u es = Inr result" "distinct ?u" using Cons.prems ok by auto
  from Cons.IH [OF this] ok show ?case by (auto split: if_splits)
qed simp

lemma uniqueRoles_distinct:
  "distinct (unique @ entries) \<Longrightarrow> \<forall>r \<in> set entries. ValidateRoleName r = None \<Longrightarrow>
     uniqueRoles unique entries = Inr (unique @ entries)"
  by (induction entries arbitrary: unique) auto

lemma uniqueRoles_total:
  "\<forall>r \<in> set entries. ValidateRoleName r = None \<Longrightarrow> \<exists>result. uniqueRoles unique entries = Inr result"
  by (induction entries arbitrary: unique) auto

lemma Normalize_Inr:
  assumes "NormalizeAllowedRoles role allowed = Inr result"
  shows "role \<in> set result \<and> distinct result \<and> length result \<le> MaxAllowedRoles \<and>
    (\<forall>r \<in> set result. ValidateRoleName r = None) \<and> set result = (case allowed of None \<Rightarrow> {role} | Some entries \<Rightarrow> set entries)"
proof -
  have role: "ValidateRoleName role = None" using assms by (auto simp: NormalizeAllowedRoles_def split: option.splits)
  show ?thesis
  proof (cases allowed)
    case None
    then show ?thesis using assms role by (auto simp: NormalizeAllowedRoles_def)
  next
    case (Some entries)
    then have u: "uniqueRoles [] entries = Inr result" "length result \<le> MaxAllowedRoles" "role \<in> set result"
      using assms role by (auto simp: NormalizeAllowedRoles_def split: sum.splits if_splits)
    from uniqueRoles_Inr [OF u(1)] u(2,3) Some show ?thesis by simp
  qed
qed

lemma AccountAllowedRoles_Inr:
  "AccountAllowedRoles role stored = Inr allowed \<Longrightarrow> NormalizeAllowedRoles role stored = Inr allowed"
  by (auto simp: AccountAllowedRoles_def split: option.splits sum.splits)

text \<open>A name that passes cannot be the engine's or the platform's.\<close>

lemma valid_not_reserved:
  assumes "ValidateRoleName role = None"
  shows "role \<notin> {RoleAnon, RoleService, ''postgres'', ''app''} \<and> \<not> HasPrefix role ''pg_'' \<and> \<not> HasPrefix role ''excalibase_''"
  using assms by (auto simp: ValidateRoleName_def reservedRoles_def reservedRolePrefixes_def split: if_splits)

section \<open>Properties\<close>

text \<open>The allowed roles of an account are exactly those requested, each once, the default among
  them, at most twenty, and none of them reserved; normalising the result again changes nothing, so what
  is stored is what later sign-ins read. The request is refused only for a bad name, a default outside
  the list or too many roles.\<close>

theorem allowed_roles_normalised:
  shows "case NormalizeAllowedRoles role allowed of
      Inr result \<Rightarrow> role \<in> set result \<and> distinct result \<and> length result \<le> MaxAllowedRoles \<and>
        set result = (case allowed of None \<Rightarrow> {role} | Some entries \<Rightarrow> set entries) \<and>
        (\<forall>r \<in> set result. r \<notin> {RoleAnon, RoleService, ''postgres'', ''app''} \<and> \<not> HasPrefix r ''pg_'' \<and> \<not> HasPrefix r ''excalibase_'') \<and>
        NormalizeAllowedRoles role (Some result) = Inr result \<and> AccountAllowedRoles role (Some result) = Inr result
    | Inl e \<Rightarrow> ValidateRoleName role = Some e \<or>
        (\<exists>entries. allowed = Some entries \<and>
           ((\<exists>r \<in> set entries. ValidateRoleName r \<noteq> None) \<or> card (set entries) > MaxAllowedRoles \<or> role \<notin> set entries))"
proof (cases "NormalizeAllowedRoles role allowed")
  case (Inr result)
  note n = Normalize_Inr [OF Inr]
  have role: "ValidateRoleName role = None" using n by blast
  have again: "NormalizeAllowedRoles role (Some result) = Inr result"
  proof -
    have "role \<in> set result" "length result \<le> MaxAllowedRoles" "distinct ([] @ result)"
      "\<forall>r \<in> set result. ValidateRoleName r = None" using n by auto
    moreover from uniqueRoles_distinct [OF this(3,4)] have "uniqueRoles [] result = Inr result" by simp
    ultimately show ?thesis using role by (simp add: NormalizeAllowedRoles_def)
  qed
  then have "AccountAllowedRoles role (Some result) = Inr result"
    using role by (simp add: AccountAllowedRoles_def ValidateAccountRole_def)
  moreover have "\<forall>r \<in> set result. r \<notin> {RoleAnon, RoleService, ''postgres'', ''app''} \<and>
      \<not> HasPrefix r ''pg_'' \<and> \<not> HasPrefix r ''excalibase_''"
    using n valid_not_reserved by blast
  ultimately show ?thesis unfolding Inr sum.case using n again by blast
next
  case (Inl e)
  show ?thesis
  proof (cases "ValidateRoleName role = None")
    case False
    then show ?thesis using Inl by (auto simp: NormalizeAllowedRoles_def)
  next
    case True
    then obtain entries where entries: "allowed = Some entries"
      using Inl by (auto simp: NormalizeAllowedRoles_def split: option.splits)
    have "card (set entries) > MaxAllowedRoles \<or> role \<notin> set entries" if ok: "\<forall>r \<in> set entries. ValidateRoleName r = None"
    proof -
      obtain unique where u: "uniqueRoles [] entries = Inr unique" using uniqueRoles_total [OF ok] by blast
      from uniqueRoles_Inr [OF u] have "distinct unique" "set unique = set entries" by auto
      then have "length unique = card (set entries)" by (metis distinct_card)
      then show ?thesis
        using Inl True entries u \<open>set unique = set entries\<close> by (auto simp: NormalizeAllowedRoles_def split: if_splits)
    qed
    then show ?thesis using Inl entries by auto
  qed
qed

theorem allowed_roles_normalised_witness:
  "NormalizeAllowedRoles ''editor'' (Some [''editor'', ''viewer'', ''editor'']) = Inr [''editor'', ''viewer''] \<and>
   NormalizeAllowedRoles ''editor'' (Some [''editor'', ''viewer'']) = Inr [''editor'', ''viewer'']"
proof -
  have n: "NormalizeAllowedRoles ''editor'' (Some [''editor'', ''viewer'', ''editor'']) = Inr [''editor'', ''viewer'']"
    by code_simp
  from allowed_roles_normalised [of "''editor''" "Some [''editor'', ''viewer'', ''editor'']"] n show ?thesis by simp
qed

end
