(* ===== verification/Secrets.thy ===== *)
theory Secrets
  imports Interfaces
begin

text \<open>
  Codes, keys and challenges: the TOTP codes of \<open>internal/mfa/totp.go\<close>, sealing and recovery codes of
  \<open>internal/mfa/keys.go\<close>, emailed codes of \<open>internal/emailotp/emailotp.go\<close> and PKCE of
  \<open>internal/oauth/pkce.go\<close>. HMAC, SHA-256, AES-GCM and the random source are arguments; bytes are
  characters, integers are unbounded with the widths the code uses written out as remainders.
\<close>

section \<open>Decimal text\<close>

definition digit :: "nat \<Rightarrow> char" where
  "digit n = char_of (48 + n)"

fun decimal :: "nat \<Rightarrow> string" where
  "decimal n = (if n < 10 then [digit n] else decimal (n div 10) @ [digit (n mod 10)])"

declare decimal.simps [simp del]

text \<open>\<open>strconv.FormatInt(i, 10)\<close> and \<open>fmt.Sprintf("%06d", n)\<close>.\<close>

definition FormatInt :: "int \<Rightarrow> string" where
  "FormatInt i = (if i < 0 then CHR ''-'' # decimal (nat (- i)) else decimal (nat i))"

definition padded :: "nat \<Rightarrow> nat \<Rightarrow> string" where
  "padded width n = replicate (width - length (decimal n)) (CHR ''0'') @ decimal n"

section \<open>Time-based codes\<close>

abbreviation (input) Skew :: int where "Skew \<equiv> 1"

text \<open>\<open>moment.Unix()\<close> floors to seconds; the division by the period truncates towards zero.\<close>

definition StepAt :: "time \<Rightarrow> int" where
  "StepAt moment =
     (let unix = moment div second in if unix < 0 then - ((- unix) div 30) else unix div 30)"

definition put_uint64 :: "int \<Rightarrow> string" where
  "put_uint64 step = map (\<lambda>k. char_of (nat (step mod 2 ^ 64) div 256 ^ k mod 256)) [7, 6, 5, 4, 3, 2, 1, 0]"

definition be_uint32 :: "string \<Rightarrow> nat" where
  "be_uint32 bytes = foldl (\<lambda>acc b. (acc * 256 + of_char b) mod 2 ^ 32) 0 bytes"

definition Code :: "(string \<Rightarrow> string \<Rightarrow> string) \<Rightarrow> string \<Rightarrow> int \<Rightarrow> string" where
  "Code hmac_sha1 secret step =
     (let sum = hmac_sha1 secret (put_uint64 step);
          offset = of_char (last sum) mod 16;
          value = be_uint32 (take 4 (drop offset sum)) mod 2 ^ 31
      in padded 6 (value mod 1000000))"

definition sixDigits :: "string \<Rightarrow> bool" where
  "sixDigits code = (length code = 6 \<and> list_all is_digit code)"

text \<open>The loop over the window, keeping the newest step that matches.\<close>

fun match_steps :: "(int \<Rightarrow> string) \<Rightarrow> string \<Rightarrow> int \<Rightarrow> int list \<Rightarrow> int \<times> bool \<Rightarrow> int \<times> bool" where
  "match_steps code_at code lastUsed [] acc = acc"
| "match_steps code_at code lastUsed (step # steps) (matched, found) =
     (let hit = (code_at step = code \<and> step > lastUsed)
      in match_steps code_at code lastUsed steps (if hit then step else matched, found \<or> hit))"

definition Match :: "(string \<Rightarrow> string \<Rightarrow> string) \<Rightarrow> string \<Rightarrow> string \<Rightarrow> time \<Rightarrow> int \<Rightarrow> int \<times> bool" where
  "Match hmac_sha1 secret typed now lastUsed =
     (let code = filter (\<lambda>c. c \<noteq> CHR '' '') typed in
      if \<not> sixDigits code then (0, False)
      else
        let current = StepAt now
        in match_steps (Code hmac_sha1 secret) code lastUsed [current - Skew, current, current + Skew] (0, False))"

section \<open>Sealing\<close>

record aead =
  aead_seal :: "string \<Rightarrow> string \<Rightarrow> string \<Rightarrow> string"
  aead_open :: "string \<Rightarrow> string \<Rightarrow> string \<Rightarrow> string option"
  NonceSize :: nat
  Overhead :: nat

definition sealVersion :: char where "sealVersion = CHR 0x01"

definition additionalData :: "int \<Rightarrow> string \<Rightarrow> string" where
  "additionalData userID factorID = ''excalibase-mfa|v'' @ FormatInt 1 @ ''|'' @ FormatInt userID @ ''|'' @ factorID"

definition Seal :: "aead \<Rightarrow> string \<Rightarrow> string \<Rightarrow> int \<Rightarrow> string \<Rightarrow> string" where
  "Seal k nonce secret userID factorID =
     sealVersion # nonce @ aead_seal k nonce secret (additionalData userID factorID)"

definition Open :: "aead \<Rightarrow> string \<Rightarrow> int \<Rightarrow> string \<Rightarrow> string option" where
  "Open k sealed userID factorID =
     (if length sealed < 1 + NonceSize k + Overhead k \<or> hd sealed \<noteq> sealVersion then None
      else
        let nonce = take (NonceSize k) (tl sealed); ciphertext = drop (NonceSize k) (tl sealed)
        in aead_open k nonce ciphertext (additionalData userID factorID))"

section \<open>Recovery codes\<close>

abbreviation (input) RecoveryCodeCount :: nat where "RecoveryCodeCount \<equiv> 10"
abbreviation (input) recoveryCodeChars :: nat where "recoveryCodeChars \<equiv> 10"

definition recoveryAlphabet :: string where
  "recoveryAlphabet = ''abcdefghijkmnpqrstuvwxyz23456789''"

definition recovery_char :: "char \<Rightarrow> char" where
  "recovery_char value = recoveryAlphabet ! (of_char value mod length recoveryAlphabet)"

definition code_of :: "string \<Rightarrow> string" where
  "code_of raw = map recovery_char (take 5 raw) @ CHR ''-'' # map recovery_char (drop 5 raw)"

text \<open>The loop draws until it has \<open>count\<close> distinct codes; \<open>None\<close> when the draws given do not suffice.\<close>

fun newCodes :: "nat \<Rightarrow> string list \<Rightarrow> string list \<Rightarrow> string list option" where
  "newCodes count codes draws =
     (if length codes \<ge> count then Some codes
      else case draws of
        [] \<Rightarrow> None
      | raw # rest \<Rightarrow>
          newCodes count (if code_of raw \<in> set codes then codes else codes @ [code_of raw]) rest)"

declare newCodes.simps [simp del]

definition NewRecoveryCodes :: "nat \<Rightarrow> string list \<Rightarrow> string list option" where
  "NewRecoveryCodes count draws = newCodes count [] draws"

definition normalize_code :: "string \<Rightarrow> string" where
  "normalize_code typed = filter (\<lambda>c. c \<noteq> CHR ''-'' \<and> c \<noteq> CHR '' '') (ToLower typed)"

text \<open>\<open>strings.Trim(s, alphabet)\<close> leaves nothing exactly when every character is in the alphabet.\<close>

definition HashRecoveryCode :: "(string \<Rightarrow> string) \<Rightarrow> string \<Rightarrow> string \<times> bool" where
  "HashRecoveryCode mac typed =
     (let normalized = normalize_code typed in
      if length normalized \<noteq> recoveryCodeChars \<or> \<not> list_all (\<lambda>c. c \<in> set recoveryAlphabet) normalized
      then ([], False) else (mac normalized, True))"

section \<open>Emailed codes\<close>

abbreviation (input) CodeLength :: nat where "CodeLength \<equiv> 8"

definition NewCode :: "nat \<Rightarrow> string" where
  "NewCode n = padded CodeLength (n mod 100000000)"

definition CodeMAC :: "(string \<Rightarrow> string \<Rightarrow> string) \<Rightarrow> string \<Rightarrow> string \<Rightarrow> string \<Rightarrow> string \<Rightarrow> string" where
  "CodeMAC hmac_sha256_hex key projectID email code =
     hmac_sha256_hex key (projectID @ CHR 0x00 # ToLower email @ CHR 0x00 # code)"

definition CodeMatches :: "(string \<Rightarrow> string \<Rightarrow> string) \<Rightarrow> string \<Rightarrow> string \<Rightarrow> string \<Rightarrow> string \<Rightarrow> string \<Rightarrow> bool" where
  "CodeMatches hmac_sha256_hex key projectID email code stored =
     (CodeMAC hmac_sha256_hex key projectID email code = stored)"

section \<open>PKCE\<close>

definition isUnreserved :: "char \<Rightarrow> bool" where
  "isUnreserved r = (is_lower r \<or> is_upper r \<or> is_digit r \<or>
     r = CHR ''-'' \<or> r = CHR ''.'' \<or> r = CHR ''_'' \<or> r = CHR ''~'')"

definition validPKCEValue :: "string \<Rightarrow> bool" where
  "validPKCEValue value = (\<not> (length value < 43 \<or> length value > 128) \<and> list_all isUnreserved value)"

definition S256 :: "(string \<Rightarrow> string) \<Rightarrow> (string \<Rightarrow> string) \<Rightarrow> string \<Rightarrow> string" where
  "S256 sha256 base64url verifier = base64url (sha256 verifier)"

definition ValidChallenge :: "string \<Rightarrow> bool" where
  "ValidChallenge challenge = validPKCEValue challenge"

definition VerifierMatches :: "(string \<Rightarrow> string) \<Rightarrow> (string \<Rightarrow> string) \<Rightarrow> string \<Rightarrow> string \<Rightarrow> bool" where
  "VerifierMatches sha256 base64url verifier challenge =
     (validPKCEValue verifier \<and> S256 sha256 base64url verifier = challenge)"

section \<open>Facts about decimal text\<close>

lemma is_digit_digit: "n < 10 \<Longrightarrow> is_digit (digit n)"
  by (simp add: is_digit_def digit_def)

lemma decimal_digits: "list_all is_digit (decimal n)"
  by (induction n rule: decimal.induct) (subst decimal.simps, simp add: is_digit_digit)

lemma decimal_no: "\<not> is_digit c \<Longrightarrow> c \<notin> set (decimal n)"
  using decimal_digits [of n] by (auto simp: list_all_iff)

lemma decimal_not_Nil [simp]: "decimal n \<noteq> []"
  by (subst decimal.simps) simp

lemma decimal_value: "foldl (\<lambda>acc c. acc * 10 + (of_char c - 48)) 0 (decimal n) = n"
proof (induction n rule: decimal.induct)
  case (1 n)
  show ?case
  proof (cases "n < 10")
    case True
    then show ?thesis by (subst decimal.simps) (simp add: digit_def)
  next
    case False
    then show ?thesis using 1 by (subst decimal.simps) (simp add: digit_def)
  qed
qed

lemma decimal_inj: "decimal m = decimal n \<Longrightarrow> m = n"
  using decimal_value by metis

lemma length_decimal: "n < 10 ^ k \<Longrightarrow> 0 < k \<Longrightarrow> length (decimal n) \<le> k"
proof (induction k arbitrary: n)
  case (Suc k)
  show ?case
  proof (cases "n < 10")
    case True
    then show ?thesis by (subst decimal.simps) simp
  next
    case False
    then have k: "0 < k" using Suc.prems by (cases k) auto
    have "n div 10 < 10 ^ k" using Suc.prems by (simp add: less_mult_imp_div_less)
    then show ?thesis using Suc.IH [OF _ k] False by (subst decimal.simps) simp
  qed
qed simp

lemma padded_digits: "n < 10 ^ width \<Longrightarrow> 0 < width \<Longrightarrow> length (padded width n) = width \<and> list_all is_digit (padded width n)"
  using length_decimal [of n width] decimal_digits [of n]
  by (auto simp: padded_def list_all_iff is_digit_def)

lemma FormatInt_inj: "FormatInt i = FormatInt j \<Longrightarrow> i = j"
proof -
  have nodash: "CHR ''-'' \<notin> set (decimal n)" for n
    by (rule decimal_no) (simp add: is_digit_def)
  assume "FormatInt i = FormatInt j"
  then show ?thesis
    using nodash by (auto simp: FormatInt_def split: if_splits dest!: decimal_inj)
      (metis list.set_intros(1))+
qed

lemma FormatInt_no_bar: "CHR ''|'' \<notin> set (FormatInt i)"
  by (simp add: FormatInt_def decimal_no is_digit_def)

lemma append_bar_inj:
  assumes "c \<notin> set x" "c \<notin> set y" "x @ c # s = y @ c # t"
  shows "x = y \<and> s = t"
  using assms by (induction x arbitrary: y) (auto simp: Cons_eq_append_conv)

lemma additionalData_inj:
  "additionalData i f = additionalData j g \<longleftrightarrow> i = j \<and> f = g"
  using append_bar_inj [OF FormatInt_no_bar FormatInt_no_bar, of i f j g]
  by (auto simp: additionalData_def dest: FormatInt_inj)

section \<open>Facts about codes\<close>

lemma match_steps_spec:
  "match_steps code_at code lastUsed steps (matched, found) = (m, f) \<Longrightarrow>
     f = (found \<or> (\<exists>s \<in> set steps. code_at s = code \<and> s > lastUsed)) \<and>
     (if \<exists>s \<in> set steps. code_at s = code \<and> s > lastUsed
      then m \<in> set steps \<and> code_at m = code \<and> m > lastUsed else m = matched)"
proof (induction steps arbitrary: matched found)
  case (Cons s steps)
  let ?hit = "code_at s = code \<and> s > lastUsed"
  from Cons.prems have "match_steps code_at code lastUsed steps (if ?hit then s else matched, found \<or> ?hit) = (m, f)"
    by (simp add: Let_def)
  from Cons.IH [OF this] show ?case by (auto split: if_splits)
qed simp

lemma alphabet_char: "c \<in> set recoveryAlphabet \<Longrightarrow> lower_char c = c \<and> c \<noteq> CHR ''-'' \<and> c \<noteq> CHR '' ''"
  by (auto simp: recoveryAlphabet_def lower_char_def is_upper_def)

lemma recovery_char_mem: "recovery_char c \<in> set recoveryAlphabet"
  unfolding recovery_char_def by (rule nth_mem) (simp add: recoveryAlphabet_def)

lemma normalize_code_of: "normalize_code (code_of raw) = map recovery_char raw"
proof -
  have "map lower_char (map recovery_char xs) = map recovery_char xs" for xs
    using alphabet_char recovery_char_mem by (simp add: map_idI)
  moreover have "filter (\<lambda>c. c \<noteq> CHR ''-'' \<and> c \<noteq> CHR '' '') (map recovery_char xs) = map recovery_char xs" for xs
    using alphabet_char recovery_char_mem by (auto intro!: filter_True)
  moreover have "lower_char (CHR ''-'') = CHR ''-''" by (simp add: lower_char_def is_upper_def)
  ultimately have "normalize_code (code_of raw) = map recovery_char (take 5 raw) @ map recovery_char (drop 5 raw)"
    by (simp add: normalize_code_def code_of_def ToLower_def del: map_map)
  then show ?thesis by (simp flip: map_append)
qed

lemma newCodes_Some:
  "newCodes count codes draws = Some result \<Longrightarrow> distinct codes \<Longrightarrow> length codes \<le> count \<Longrightarrow>
     length result = count \<and> distinct result \<and> set result \<subseteq> set codes \<union> code_of ` set draws"
proof (induction count codes draws rule: newCodes.induct)
  case (1 count codes draws)
  show ?case
  proof (cases "length codes \<ge> count")
    case True
    then show ?thesis using 1(2-4) by (subst (asm) newCodes.simps) auto
  next
    case False
    then obtain raw rest where draws: "draws = raw # rest"
      using 1(2) by (cases draws) (auto simp: newCodes.simps)
    let ?codes = "if code_of raw \<in> set codes then codes else codes @ [code_of raw]"
    have "newCodes count ?codes rest = Some result" using 1(2) False draws by (subst (asm) newCodes.simps) simp
    from 1(1) [OF False draws this] 1(3) False show ?thesis
      by (cases "code_of raw \<in> set codes") (auto simp: draws)
  qed
qed

lemma newCodes_total:
  "count \<le> card (set codes \<union> code_of ` set draws) \<Longrightarrow> distinct codes \<Longrightarrow> \<exists>result. newCodes count codes draws = Some result"
proof (induction count codes draws rule: newCodes.induct)
  case (1 count codes draws)
  show ?case
  proof (cases "length codes \<ge> count")
    case True
    then show ?thesis by (subst newCodes.simps) simp
  next
    case False
    then obtain raw rest where draws: "draws = raw # rest"
      using 1(2,3) by (cases draws) (auto simp: distinct_card)
    let ?codes = "if code_of raw \<in> set codes then codes else codes @ [code_of raw]"
    have eq: "set ?codes \<union> code_of ` set rest = set codes \<union> code_of ` set draws" by (auto simp: draws)
    have "\<exists>result. newCodes count ?codes rest = Some result"
      by (rule 1(1) [OF False draws]) (use 1(2,3) eq in auto)
    then show ?thesis using False draws by (subst newCodes.simps) simp
  qed
qed

section \<open>Properties\<close>

text \<open>A time-based code is read within the window and once. A code is accepted exactly when, blanks
  removed, it is six digits and is the code of a step no more than one away from now and newer than the
  last step spent; the step reported is such a step.\<close>

theorem totp_match_exact:
  assumes "Match hmac_sha1 secret typed now lastUsed = (step, matched)"
  shows "(let code = filter (\<lambda>c. c \<noteq> CHR '' '') typed;
              fits = (\<lambda>s. \<bar>s - StepAt now\<bar> \<le> Skew \<and> s > lastUsed \<and> Code hmac_sha1 secret s = code)
          in matched = (sixDigits code \<and> (\<exists>s. fits s)) \<and> (matched \<longrightarrow> fits step))"
proof (cases "sixDigits (filter (\<lambda>c. c \<noteq> CHR '' '') typed)")
  case True
  let ?cur = "StepAt now" and ?code = "filter (\<lambda>c. c \<noteq> CHR '' '') typed"
  have m: "match_steps (Code hmac_sha1 secret) ?code lastUsed [?cur - Skew, ?cur, ?cur + Skew] (0, False) = (step, matched)"
    using assms True by (simp add: Match_def Let_def)
  have window: "s \<in> set [?cur - Skew, ?cur, ?cur + Skew] \<longleftrightarrow> \<bar>s - ?cur\<bar> \<le> Skew" for s by auto
  show ?thesis
    using match_steps_spec [OF m] True unfolding window Let_def Bex_def
    by (cases "\<exists>s. \<bar>s - ?cur\<bar> \<le> Skew \<and> Code hmac_sha1 secret s = ?code \<and> s > lastUsed") auto
next
  case False
  then show ?thesis using assms by (simp add: Match_def Let_def)
qed

lemma sample_code: "Code (\<lambda>_ _. replicate 20 (CHR 0x00)) secret step = ''000000''"
proof -
  have "be_uint32 (replicate n (CHR 0x00)) = 0" for n
    by (induction n) (simp_all add: be_uint32_def)
  then have "Code (\<lambda>_ _. replicate 20 (CHR 0x00)) secret step = padded 6 0"
    unfolding Code_def Let_def by simp
  also have "\<dots> = ''000000''" by (simp add: padded_def decimal.simps digit_def) code_simp
  finally show ?thesis .
qed

theorem totp_match_exact_witness:
  "Match (\<lambda>_ _. replicate 20 (CHR 0x00)) ''k'' ''000 000'' (60 * second) 1 = (3, True) \<and>
   \<bar>3 - StepAt (60 * second)\<bar> \<le> Skew"
proof -
  have m: "Match (\<lambda>_ _. replicate 20 (CHR 0x00)) ''k'' ''000 000'' (60 * second) 1 = (3, True)"
    by (simp add: Match_def sixDigits_def is_digit_def StepAt_def sample_code)
  from totp_match_exact [OF m] m show ?thesis unfolding Let_def by blast
qed

text \<open>Computing a code never reads past the digest and always yields six digits: the truncation
  offset leaves four bytes within the twenty of an HMAC-SHA1.\<close>

theorem totp_code_six_digits:
  assumes "length (hmac_sha1 secret (put_uint64 step)) = 20"
  shows "of_char (last (hmac_sha1 secret (put_uint64 step))) mod 16 + 4 \<le> length (hmac_sha1 secret (put_uint64 step)) \<and>
    sixDigits (Code hmac_sha1 secret step)"
proof -
  have "of_char (last (hmac_sha1 secret (put_uint64 step))) mod 16 < (16 :: nat)" by simp
  moreover have "sixDigits (Code hmac_sha1 secret step)"
    using padded_digits [of "be_uint32 b mod 2 ^ 31 mod 1000000" 6 for b]
    by (simp add: sixDigits_def Code_def Let_def)
  ultimately show ?thesis using assms by linarith
qed

theorem totp_code_six_digits_witness:
  "sixDigits (Code (\<lambda>_ _. replicate 20 (CHR 0xFF)) ''k'' 7)"
  using totp_code_six_digits [of "\<lambda>_ _. replicate 20 (CHR 0xFF)" "''k''" 7] by simp

text \<open>A sealed secret opens for the account and factor it was sealed for, and for no other: copied
  onto another account or factor it does not open. This rests on what an AEAD promises: what it sealed
  opens under the same associated data and fails under any other.\<close>

theorem sealed_secret_bound_to_factor:
  assumes opens: "\<And>nonce text ad. aead_open k nonce (aead_seal k nonce text ad) ad = Some text"
    and binds: "\<And>nonce text ad ad'. ad \<noteq> ad' \<Longrightarrow> aead_open k nonce (aead_seal k nonce text ad) ad' = None"
    and overhead: "\<And>nonce text ad. Overhead k \<le> length (aead_seal k nonce text ad)"
    and "length nonce = NonceSize k"
  shows "Open k (Seal k nonce secret userID factorID) userID' factorID' =
    (if userID' = userID \<and> factorID' = factorID then Some secret else None)"
proof -
  have "Open k (Seal k nonce secret userID factorID) userID' factorID' =
      aead_open k nonce (aead_seal k nonce secret (additionalData userID factorID)) (additionalData userID' factorID')"
    using assms(4) overhead [of nonce secret "additionalData userID factorID"] by (simp add: Open_def Seal_def)
  then show ?thesis
    using opens binds additionalData_inj [of userID factorID userID' factorID'] by auto
qed

text \<open>A cipher that keeps the associated data next to the text, as a stand-in with the promised laws.\<close>

definition framed :: "string \<Rightarrow> string" where
  "framed ad = decimal (length ad) @ CHR ''|'' # ad"

definition sample_aead :: aead where
  "sample_aead = \<lparr>aead_seal = (\<lambda>_ text ad. framed ad @ text),
     aead_open = (\<lambda>_ c ad. if HasPrefix c (framed ad) then Some (drop (length (framed ad)) c) else None),
     NonceSize = 2, Overhead = 0\<rparr>"

lemma framed_prefix: "HasPrefix (framed ad @ text) (framed ad') \<Longrightarrow> ad = ad'"
proof -
  assume "HasPrefix (framed ad @ text) (framed ad')"
  then obtain rest where "framed ad @ text = framed ad' @ rest" by (auto simp: HasPrefix_iff)
  then have "decimal (length ad) @ CHR ''|'' # (ad @ text) = decimal (length ad') @ CHR ''|'' # (ad' @ rest)"
    by (simp add: framed_def)
  from append_bar_inj [OF decimal_no decimal_no this] have "length ad = length ad'" "ad @ text = ad' @ rest"
    by (auto simp: is_digit_def dest: decimal_inj)
  then show "ad = ad'" by simp
qed

theorem sealed_secret_bound_to_factor_witness:
  "Open sample_aead (Seal sample_aead ''nn'' ''secret'' 7 ''f1'') 7 ''f1'' = Some ''secret'' \<and>
   Open sample_aead (Seal sample_aead ''nn'' ''secret'' 7 ''f1'') 8 ''f1'' = None"
proof -
  have laws: "aead_open sample_aead n (aead_seal sample_aead n t a) a = Some t"
    "a \<noteq> a' \<Longrightarrow> aead_open sample_aead n (aead_seal sample_aead n t a) a' = None" for n t a a'
    using framed_prefix [of a t a'] by (auto simp: sample_aead_def)
  note bound = sealed_secret_bound_to_factor [of sample_aead "''nn''" "''secret''" 7 "''f1''", OF laws(1) laws(2)]
  show ?thesis using bound [of 7 "''f1''"] bound [of 8 "''f1''"] by (simp add: sample_aead_def)
qed

text \<open>A set of recovery codes is complete, distinct and usable. Once the draws have produced enough
  different codes the set is made; it has exactly the number asked for, all different, each shaped as
  five symbols, a dash and five symbols; and typing a code in any case, with or without blanks and
  dashes, gives the digest of the code itself.\<close>

theorem recovery_codes_complete_and_usable:
  assumes "\<forall>raw \<in> set draws. length raw = recoveryCodeChars" "count \<le> card (code_of ` set draws)"
  shows "\<exists>codes. NewRecoveryCodes count draws = Some codes \<and> length codes = count \<and> distinct codes \<and>
    (\<forall>code \<in> set codes. length code = 11 \<and> code ! 5 = CHR ''-'' \<and>
       snd (HashRecoveryCode mac code) \<and>
       (\<forall>typed. normalize_code typed = normalize_code code \<longrightarrow> HashRecoveryCode mac typed = HashRecoveryCode mac code))"
proof -
  obtain codes where codes: "newCodes count [] draws = Some codes"
    using newCodes_total [of count "[]" draws] assms(2) by auto
  have c: "length codes = count" "distinct codes" "set codes \<subseteq> code_of ` set draws"
    using newCodes_Some [OF codes] by auto
  have "length code = 11 \<and> code ! 5 = CHR ''-'' \<and> snd (HashRecoveryCode mac code)" if mem: "code \<in> set codes" for code
  proof -
    obtain raw where raw: "code = code_of raw" "length raw = recoveryCodeChars"
      using mem c(3) assms(1) by blast
    moreover have "snd (HashRecoveryCode mac (code_of raw))"
      using raw(2) recovery_char_mem by (auto simp: HashRecoveryCode_def normalize_code_of list_all_iff)
    ultimately show ?thesis by (simp add: code_of_def nth_append)
  qed
  then show ?thesis
    using codes c by (auto simp: NewRecoveryCodes_def HashRecoveryCode_def)
qed

theorem recovery_codes_complete_and_usable_witness:
  "\<exists>codes. NewRecoveryCodes 2 [''aaaaaaaaaa'', ''aaaaaaaaaa'', ''bbbbbbbbbb''] = Some codes \<and> length codes = 2 \<and> distinct codes"
proof -
  have "code_of ''aaaaaaaaaa'' \<noteq> code_of ''bbbbbbbbbb''" by code_simp
  then have "2 \<le> card (code_of ` set [''aaaaaaaaaa'', ''aaaaaaaaaa'', ''bbbbbbbbbb''])" by simp
  from recovery_codes_complete_and_usable [OF _ this, of id] show ?thesis by auto
qed

end
