(* ===== verification/Jwt.thy ===== *)
theory Jwt
  imports Store "HOL-Library.Log_Nat"
begin

text \<open>
  Access tokens (\<open>internal/auth/jwt.go\<close>): the claims a token carries, how they are signed and read
  back, and the claims a \<open>custom_access_token\<close> hook may add (\<open>internal/hooks/claims.go\<close>).

  A JSON object is the list of its members. The ES256 library signs such an object and hands back,
  for an unexpired token of its own, the object as JSON decodes it; both are fields of a record.
\<close>

section \<open>JSON values\<close>

datatype jv = JNull | JBool bool | JNum rat | JStr string | JArr "jv list" | JObj "(string \<times> jv) list"

type_synonym object = "(string \<times> jv) list"

text \<open>An integer as a \<open>float64\<close>: 53 significant bits, ties to even.\<close>

definition float64 :: "int \<Rightarrow> int" where
  "float64 i =
     (let n = nat \<bar>i\<bar>; e = floorlog 2 n - 53; q = n div 2 ^ e; r = n mod 2 ^ e;
          q' = (if 2 * r > 2 ^ e \<or> 2 * r = 2 ^ e \<and> odd q then q + 1 else q)
      in sgn i * int (q' * 2 ^ e))"

lemma float64_exact:
  assumes "\<bar>i\<bar> < 2 ^ 53"
  shows "float64 i = i"
proof -
  have "nat \<bar>i\<bar> < 2 ^ 53" using assms by simp
  then have "floorlog 2 (nat \<bar>i\<bar>) \<le> 53" by (rule floorlog_leI) simp_all
  then have "floorlog 2 (nat \<bar>i\<bar>) - 53 = 0" by simp
  then show ?thesis by (simp add: float64_def Let_def sgn_if)
qed

text \<open>A value marshalled and unmarshalled again: the integers auth writes come back as floats.\<close>

fun json_trip :: "jv \<Rightarrow> jv" where
  "json_trip (JNum r) = (if of_int \<lfloor>r\<rfloor> = r then JNum (of_int (float64 \<lfloor>r\<rfloor>)) else JNum r)"
| "json_trip (JArr vs) = JArr (map json_trip vs)"
| "json_trip v = v"

definition object_trip :: "object \<Rightarrow> object" where
  "object_trip mc = map (\<lambda>(n, v). (n, json_trip v)) mc"

text \<open>Type assertions with the zero value on failure; \<open>int64\<close> of a float truncates.\<close>

definition string_claim :: "object \<Rightarrow> string \<Rightarrow> string" where
  "string_claim mc n = (case map_of mc n of Some (JStr s) \<Rightarrow> s | _ \<Rightarrow> [])"

definition bool_claim :: "object \<Rightarrow> string \<Rightarrow> bool option" where
  "bool_claim mc n = (case map_of mc n of Some (JBool b) \<Rightarrow> Some b | _ \<Rightarrow> None)"

definition int_claim :: "object \<Rightarrow> string \<Rightarrow> int" where
  "int_claim mc n = (case map_of mc n of Some (JNum r) \<Rightarrow> (if r \<ge> 0 then \<lfloor>r\<rfloor> else \<lceil>r\<rceil>) | _ \<Rightarrow> 0)"

definition strings_of :: "jv list \<Rightarrow> string list" where
  "strings_of vs = List.map_filter (\<lambda>v. case v of JStr s \<Rightarrow> Some s | _ \<Rightarrow> None) vs"

definition stringsClaim :: "object \<Rightarrow> string \<Rightarrow> string list" where
  "stringsClaim mc n = (case map_of mc n of Some (JArr vs) \<Rightarrow> strings_of vs | _ \<Rightarrow> [])"

definition audienceClaim :: "object \<Rightarrow> string \<Rightarrow> string list" where
  "audienceClaim mc n =
     (case map_of mc n of Some (JStr s) \<Rightarrow> [s] | Some (JArr vs) \<Rightarrow> strings_of vs | _ \<Rightarrow> [])"

section \<open>Claims\<close>

definition TokenUseAccess :: string where "TokenUseAccess = ''access''"
definition TokenUseKeyAdmin :: string where "TokenUseKeyAdmin = ''key_admin''"
definition TokenUseUserAdmin :: string where "TokenUseUserAdmin = ''user_admin''"

definition KeyAdminAudience :: "string \<Rightarrow> string" where
  "KeyAdminAudience projectID = ''excalibase-auth:'' @ projectID"

definition MaxKeyAdminLifetime :: duration where
  "MaxKeyAdminLifetime = 60 * second"

record Claims =
  c_Sub :: string
  c_UserID :: int
  c_ProjectID :: string
  c_OrgSlug :: string
  c_ProjectName :: string
  c_OrgName :: string
  c_Role :: string
  c_AllowedRoles :: "string list"
  c_Scope :: string
  c_KeyID :: int
  c_Audience :: "string list"
  c_TokenUse :: string
  c_EmailVerified :: bool
  c_Actor :: string
  c_AuthTime :: int
  c_Email :: string
  c_IsGuest :: "bool option"
  c_Custom :: object
  c_AAL :: string
  c_AMR :: "string list"
  c_IssuedAt :: int
  c_ExpiresAt :: int

definition IsAccess :: "Claims \<Rightarrow> bool" where
  "IsAccess c = (c_TokenUse c = [] \<or> c_TokenUse c = TokenUseAccess)"

record JWTService =
  issuer :: string
  audPrefix :: string
  expSeconds :: int

definition DefaultAudiencePrefix :: string where
  "DefaultAudiencePrefix = ''excalibase:''"

definition SetAudiencePrefix :: "string \<Rightarrow> JWTService \<Rightarrow> JWTService" where
  "SetAudiencePrefix prefix s = (if prefix \<noteq> [] then s\<lparr>audPrefix := prefix\<rparr> else s)"

definition AudienceFor :: "JWTService \<Rightarrow> string \<Rightarrow> string" where
  "AudienceFor s projectID = audPrefix s @ projectID"

definition claimsMap :: "JWTService \<Rightarrow> Claims \<Rightarrow> object" where
  "claimsMap s c =
     [(''sub'', JStr (c_Sub c)), (''projectId'', JStr (c_ProjectID c)), (''orgSlug'', JStr (c_OrgSlug c)),
      (''projectName'', JStr (c_ProjectName c)), (''orgName'', JStr (c_OrgName c)), (''role'', JStr (c_Role c)),
      (''allowed_roles'', JArr (map JStr (c_AllowedRoles c))), (''iss'', JStr (issuer s)),
      (''aud'', JArr [JStr (AudienceFor s (c_ProjectID c))]), (''token_use'', JStr TokenUseAccess),
      (''email_verified'', JBool (c_EmailVerified c))] @
     (if c_UserID c \<noteq> 0 then [(''userId'', JNum (of_int (c_UserID c)))] else []) @
     (if c_Scope c \<noteq> [] then [(''scope'', JStr (c_Scope c))] else []) @
     (if c_KeyID c \<noteq> 0 then [(''keyId'', JNum (of_int (c_KeyID c)))] else []) @
     (if c_Email c \<noteq> [] then [(''email'', JStr (c_Email c))] else []) @
     (case c_IsGuest c of None \<Rightarrow> [] | Some g \<Rightarrow> [(''is_guest'', JBool g)]) @
     (if c_AAL c \<noteq> []
      then (''aal'', JStr (c_AAL c)) # (if c_AMR c \<noteq> [] then [(''amr'', JArr (map JStr (c_AMR c)))] else [])
      else [])"

definition PublicClaims :: "JWTService \<Rightarrow> Claims \<Rightarrow> object" where
  "PublicClaims s c = claimsMap s c"

text \<open>\<open>time.Unix()\<close>: whole seconds.\<close>

definition Unix :: "time \<Rightarrow> int" where
  "Unix t = t div second"

definition signed_claims :: "JWTService \<Rightarrow> time \<Rightarrow> Claims \<Rightarrow> object" where
  "signed_claims s now c =
     (let mc = claimsMap s c @
            [(''iat'', JNum (of_int (Unix now))), (''exp'', JNum (of_int (Unix (now + expSeconds s * second))))] @
            (if c_AuthTime c \<noteq> 0 then [(''auth_time'', JNum (of_int (c_AuthTime c)))] else [])
      in mc @ filter (\<lambda>(n, v). n \<notin> set (map fst mc)) (c_Custom c))"

record jwt_lib =
  es256_sign :: "object \<Rightarrow> string option"
  es256_parse :: "time \<Rightarrow> string \<Rightarrow> object option"

definition Sign :: "jwt_lib \<Rightarrow> JWTService \<Rightarrow> time \<Rightarrow> Claims \<Rightarrow> string option" where
  "Sign lib s now c = es256_sign lib (signed_claims s now c)"

definition Verify :: "jwt_lib \<Rightarrow> JWTService \<Rightarrow> time \<Rightarrow> string \<Rightarrow> Claims option" where
  "Verify lib s now tok =
     (case es256_parse lib now tok of
        None \<Rightarrow> None
      | Some mc \<Rightarrow>
          if issuer s \<noteq> [] \<and> string_claim mc ''iss'' \<noteq> issuer s then None
          else Some \<lparr>c_Sub = string_claim mc ''sub'', c_UserID = int_claim mc ''userId'',
            c_ProjectID = string_claim mc ''projectId'', c_OrgSlug = string_claim mc ''orgSlug'',
            c_ProjectName = string_claim mc ''projectName'', c_OrgName = string_claim mc ''orgName'',
            c_Role = string_claim mc ''role'', c_AllowedRoles = stringsClaim mc ''allowed_roles'',
            c_Scope = string_claim mc ''scope'', c_KeyID = int_claim mc ''keyId'',
            c_Audience = audienceClaim mc ''aud'', c_TokenUse = string_claim mc ''token_use'',
            c_EmailVerified = (bool_claim mc ''email_verified'' = Some True), c_Actor = string_claim mc ''actor'',
            c_AuthTime = int_claim mc ''auth_time'', c_Email = string_claim mc ''email'',
            c_IsGuest = bool_claim mc ''is_guest'', c_Custom = [], c_AAL = string_claim mc ''aal'',
            c_AMR = stringsClaim mc ''amr'', c_IssuedAt = int_claim mc ''iat'', c_ExpiresAt = int_claim mc ''exp''\<rparr>)"

section \<open>What a hook may change\<close>

definition MaxCustomClaims :: nat where "MaxCustomClaims = 32"
definition MaxCustomBytes :: nat where "MaxCustomBytes = 4 * 1024"
definition MaxClaimStringBytes :: nat where "MaxClaimStringBytes = 1024"
definition MaxClaimArrayLength :: nat where "MaxClaimArrayLength = 32"

text \<open>\<open>^[a-z][a-z0-9_]{0,62}$\<close>.\<close>

definition claimName :: "string \<Rightarrow> bool" where
  "claimName n = (case n of [] \<Rightarrow> False
     | c # cs \<Rightarrow> is_lower c \<and> length cs \<le> 62 \<and> list_all (\<lambda>x. is_lower x \<or> is_digit x \<or> x = CHR ''_'') cs)"

definition reservedClaims :: "string list" where
  "reservedClaims =
     [''sub'', ''iss'', ''aud'', ''exp'', ''iat'', ''nbf'', ''jti'', ''token_use'', ''scope'',
      ''projectid'', ''project_id'', ''userid'', ''user_id'', ''role'', ''allowed_roles'',
      ''keyid'', ''key_id'', ''email'', ''email_verified'', ''is_guest'', ''orgslug'', ''projectname'',
      ''orgname'', ''actor'', ''auth_time'', ''amr'', ''aal'', ''session_id'', ''sid'', ''azp'']"

definition forbiddenRoles :: "string list" where
  "forbiddenRoles = [''service'', ''anon'']"

text \<open>A decoded JSON number is never NaN or infinite.\<close>

fun scalarClaim :: "jv \<Rightarrow> bool" where
  "scalarClaim (JStr s) = (length s \<le> MaxClaimStringBytes)"
| "scalarClaim (JBool _) = True"
| "scalarClaim (JNum _) = True"
| "scalarClaim _ = False"

definition checkCustomClaim :: "string \<Rightarrow> jv \<Rightarrow> bool" where
  "checkCustomClaim n v =
     (ToLower n \<notin> set reservedClaims \<and> claimName n \<and>
      (case v of
         JArr elements \<Rightarrow> length elements \<le> MaxClaimArrayLength \<and> list_all scalarClaim elements
       | _ \<Rightarrow> scalarClaim v))"

record AccessClaims =
  ac_Role :: string
  ac_Custom :: object

text \<open>One turn of the loop over the answer's members; \<open>fixed\<close> are the claims as they were sent.\<close>

definition apply_member :: "object \<Rightarrow> string list \<Rightarrow> string \<times> jv \<Rightarrow> AccessClaims option \<Rightarrow> AccessClaims option" where
  "apply_member fixed allowedRoles m result =
     (case (result, m) of
        (None, _) \<Rightarrow> None
      | (Some res, (n, v)) \<Rightarrow>
          if n = ''role''
          then (case v of
              JStr role \<Rightarrow> if role \<in> set forbiddenRoles \<or> role \<notin> set allowedRoles then None else Some (res\<lparr>ac_Role := role\<rparr>)
            | _ \<Rightarrow> None)
          else (case map_of fixed n of
              Some sent \<Rightarrow> if sent = v then Some res else None
            | None \<Rightarrow> if checkCustomClaim n v then Some (res\<lparr>ac_Custom := ac_Custom res @ [(n, v)]\<rparr>) else None))"

definition checkCustomBounds :: "(object \<Rightarrow> nat option) \<Rightarrow> object \<Rightarrow> bool" where
  "checkCustomBounds encoded_length custom =
     (length custom \<le> MaxCustomClaims \<and>
      (case encoded_length custom of None \<Rightarrow> False | Some n \<Rightarrow> n \<le> MaxCustomBytes))"

definition ApplyAccessClaims :: "(object \<Rightarrow> nat option) \<Rightarrow> object \<Rightarrow> object \<Rightarrow> string list \<Rightarrow> AccessClaims option" where
  "ApplyAccessClaims encoded_length sent answer allowedRoles =
     (let fixed = object_trip sent;
          start = \<lparr>ac_Role = string_claim fixed ''role'', ac_Custom = []\<rparr>
      in case fold (apply_member fixed allowedRoles) answer (Some start) of
           None \<Rightarrow> None
         | Some res \<Rightarrow> if checkCustomBounds encoded_length (ac_Custom res) then Some res else None)"

section \<open>Reading back what was signed\<close>

text \<open>The claims \<open>Verify\<close> reads, and the claims auth itself writes into a token.\<close>

definition read_claims :: "string list" where
  "read_claims =
     [''iss'', ''sub'', ''userId'', ''projectId'', ''orgSlug'', ''projectName'', ''orgName'', ''role'', ''allowed_roles'',
      ''scope'', ''keyId'', ''aud'', ''token_use'', ''email_verified'', ''actor'', ''auth_time'', ''email'', ''is_guest'',
      ''aal'', ''amr'', ''iat'', ''exp'']"

definition own_claims :: "JWTService \<Rightarrow> time \<Rightarrow> Claims \<Rightarrow> object" where
  "own_claims s now c = signed_claims s now (c\<lparr>c_Custom := []\<rparr>)"

lemma read_claims_reserved: "k \<in> set read_claims \<Longrightarrow> ToLower k \<in> set reservedClaims"
proof -
  have "list_all (\<lambda>k. ToLower k \<in> set reservedClaims) read_claims" by code_simp
  then show "k \<in> set read_claims \<Longrightarrow> ToLower k \<in> set reservedClaims" by (simp only: list_all_iff)
qed

lemma map_of_app: "map_of (xs @ ys) k = (case map_of xs k of None \<Rightarrow> map_of ys k | Some v \<Rightarrow> Some v)"
  by (simp add: map_add_def split: option.split)

lemma map_of_trip: "map_of (object_trip mc) k = map_option json_trip (map_of mc k)"
  by (induction mc) (auto simp: object_trip_def)

lemma own_claims_eq:
  "own_claims s now c = claimsMap s c @
     [(''iat'', JNum (of_int (Unix now))), (''exp'', JNum (of_int (Unix (now + expSeconds s * second))))] @
     (if c_AuthTime c \<noteq> 0 then [(''auth_time'', JNum (of_int (c_AuthTime c)))] else [])"
proof -
  have "claimsMap s (c\<lparr>c_Custom := []\<rparr>) = claimsMap s c" by (simp add: claimsMap_def)
  then show ?thesis by (simp add: own_claims_def signed_claims_def Let_def)
qed

lemma signed_claims_split:
  "signed_claims s now c = own_claims s now c @ filter (\<lambda>(n, v). n \<notin> set (map fst (own_claims s now c))) (c_Custom c)"
  by (simp only: signed_claims_def Let_def own_claims_eq append_assoc)

lemma map_of_signed:
  assumes "k \<in> set read_claims" "\<forall>(n, v) \<in> set (c_Custom c). ToLower n \<notin> set reservedClaims"
  shows "map_of (signed_claims s now c) k = map_of (own_claims s now c) k"
proof -
  have "map_of (filter P (c_Custom c)) k = None" for P
    using read_claims_reserved [OF assms(1)] assms(2) by (fastforce simp: map_of_eq_None_iff)
  then show ?thesis by (simp add: signed_claims_split map_add_def split: option.split)
qed

lemma strings_of_JStr: "strings_of (map json_trip (map JStr xs)) = xs"
  by (induction xs) (simp_all add: strings_of_def List.map_filter_simps)

lemmas read_defs = string_claim_def bool_claim_def int_claim_def stringsClaim_def audienceClaim_def

text \<open>A member written only under a condition.\<close>

lemma map_of_optional:
  "map_of (if b then [(n, v)] else []) k = (if b \<and> n = k then Some v else None)"
  "map_of (if b then (n, v) # mc else []) k = (if b then (if n = k then Some v else map_of mc k) else None)"
  "map_of (case g of None \<Rightarrow> [] | Some x \<Rightarrow> [(n, JBool x)]) k = (if n = k then map_option JBool g else None)"
  by (simp_all split: option.split)

lemmas own_lookup = own_claims_eq claimsMap_def map_of_app map_of_optional

lemma own_fixed:
  "map_of (own_claims s now c) ''iss'' = Some (JStr (issuer s))"
  "map_of (own_claims s now c) ''sub'' = Some (JStr (c_Sub c))"
  "map_of (own_claims s now c) ''projectId'' = Some (JStr (c_ProjectID c))"
  "map_of (own_claims s now c) ''orgSlug'' = Some (JStr (c_OrgSlug c))"
  "map_of (own_claims s now c) ''projectName'' = Some (JStr (c_ProjectName c))"
  "map_of (own_claims s now c) ''orgName'' = Some (JStr (c_OrgName c))"
  "map_of (own_claims s now c) ''role'' = Some (JStr (c_Role c))"
  "map_of (own_claims s now c) ''allowed_roles'' = Some (JArr (map JStr (c_AllowedRoles c)))"
  "map_of (own_claims s now c) ''aud'' = Some (JArr [JStr (AudienceFor s (c_ProjectID c))])"
  "map_of (own_claims s now c) ''token_use'' = Some (JStr TokenUseAccess)"
  "map_of (own_claims s now c) ''email_verified'' = Some (JBool (c_EmailVerified c))"
  by (simp_all add: own_lookup)

lemma own_optional:
  "map_of (own_claims s now c) ''userId'' = (if c_UserID c = 0 then None else Some (JNum (of_int (c_UserID c))))"
  "map_of (own_claims s now c) ''scope'' = (if c_Scope c = [] then None else Some (JStr (c_Scope c)))"
  "map_of (own_claims s now c) ''keyId'' = (if c_KeyID c = 0 then None else Some (JNum (of_int (c_KeyID c))))"
  "map_of (own_claims s now c) ''email'' = (if c_Email c = [] then None else Some (JStr (c_Email c)))"
  "map_of (own_claims s now c) ''aal'' = (if c_AAL c = [] then None else Some (JStr (c_AAL c)))"
  "map_of (own_claims s now c) ''amr'' = (if c_AAL c = [] \<or> c_AMR c = [] then None else Some (JArr (map JStr (c_AMR c))))"
  "map_of (own_claims s now c) ''iat'' = Some (JNum (of_int (Unix now)))"
  "map_of (own_claims s now c) ''exp'' = Some (JNum (of_int (Unix (now + expSeconds s * second))))"
  "map_of (own_claims s now c) ''auth_time'' = (if c_AuthTime c = 0 then None else Some (JNum (of_int (c_AuthTime c))))"
  "map_of (own_claims s now c) ''actor'' = None"
  by (simp_all add: own_lookup del: map_of_append)

lemma own_guest: "map_of (own_claims s now c) ''is_guest'' = map_option JBool (c_IsGuest c)"
  by (cases "c_IsGuest c") (simp_all add: own_lookup del: map_of_append)

text \<open>Integers below \<open>2 ^ 53\<close> survive the trip through \<open>float64\<close>.\<close>

lemma int_trip: "\<bar>i\<bar> < 2 ^ 53 \<Longrightarrow> json_trip (JNum (of_int i)) = JNum (of_int i)"
  by (simp add: float64_exact)

definition read_back :: "JWTService \<Rightarrow> time \<Rightarrow> Claims \<Rightarrow> Claims" where
  "read_back s now c = c\<lparr>c_Audience := [AudienceFor s (c_ProjectID c)], c_TokenUse := TokenUseAccess, c_Actor := [],
     c_Custom := [], c_AMR := (if c_AAL c = [] then [] else c_AMR c), c_IssuedAt := Unix now,
     c_ExpiresAt := Unix (now + expSeconds s * second)\<rparr>"

definition exact_numbers :: "JWTService \<Rightarrow> time \<Rightarrow> Claims \<Rightarrow> bool" where
  "exact_numbers s now c \<longleftrightarrow> \<bar>c_UserID c\<bar> < 2 ^ 53 \<and> \<bar>c_KeyID c\<bar> < 2 ^ 53 \<and> \<bar>c_AuthTime c\<bar> < 2 ^ 53 \<and>
     \<bar>Unix now\<bar> < 2 ^ 53 \<and> \<bar>Unix (now + expSeconds s * second)\<bar> < 2 ^ 53"

lemma verified_claims:
  assumes custom: "\<forall>(n, v) \<in> set (c_Custom c). ToLower n \<notin> set reservedClaims"
    and num: "exact_numbers s now c"
    and parse: "es256_parse lib t tok = Some (object_trip (signed_claims s now c))"
  shows "Verify lib s t tok = Some (read_back s now c)"
proof -
  let ?mc = "object_trip (signed_claims s now c)"
  have get: "map_of ?mc k = map_option json_trip (map_of (own_claims s now c) k)" if "k \<in> set read_claims" for k
    by (simp only: map_of_trip map_of_signed [OF that custom])
  note look = get [simplified read_claims_def, simplified]
  note num' = num [unfolded exact_numbers_def]
  have str: "string_claim ?mc ''iss'' = issuer s" "string_claim ?mc ''sub'' = c_Sub c"
    "string_claim ?mc ''projectId'' = c_ProjectID c" "string_claim ?mc ''orgSlug'' = c_OrgSlug c"
    "string_claim ?mc ''projectName'' = c_ProjectName c" "string_claim ?mc ''orgName'' = c_OrgName c"
    "string_claim ?mc ''role'' = c_Role c" "string_claim ?mc ''scope'' = c_Scope c"
    "string_claim ?mc ''token_use'' = TokenUseAccess" "string_claim ?mc ''actor'' = []"
    "string_claim ?mc ''email'' = c_Email c" "string_claim ?mc ''aal'' = c_AAL c"
    by (simp_all add: string_claim_def get read_claims_def own_fixed own_optional own_guest)
  have nums: "int_claim ?mc ''userId'' = c_UserID c" "int_claim ?mc ''keyId'' = c_KeyID c"
    "int_claim ?mc ''auth_time'' = c_AuthTime c" "int_claim ?mc ''iat'' = Unix now"
    "int_claim ?mc ''exp'' = Unix (now + expSeconds s * second)"
    using num' by (simp_all add: int_claim_def get read_claims_def own_fixed own_optional own_guest float64_exact)
  have others: "bool_claim ?mc ''email_verified'' = Some (c_EmailVerified c)" "bool_claim ?mc ''is_guest'' = c_IsGuest c"
    "stringsClaim ?mc ''allowed_roles'' = c_AllowedRoles c"
    "stringsClaim ?mc ''amr'' = (if c_AAL c = [] then [] else c_AMR c)"
    "audienceClaim ?mc ''aud'' = [AudienceFor s (c_ProjectID c)]"
    using strings_of_JStr
    by (auto simp: bool_claim_def stringsClaim_def audienceClaim_def get read_claims_def own_fixed own_optional own_guest
        strings_of_def List.map_filter_simps split: option.split)
  show ?thesis
    by (simp add: Verify_def parse str nums others read_back_def)
qed

section \<open>What an accepted answer contains\<close>

definition answer_ok :: "object \<Rightarrow> string \<Rightarrow> string list \<Rightarrow> object \<Rightarrow> AccessClaims \<Rightarrow> bool" where
  "answer_ok fixed role allowedRoles seen res \<longleftrightarrow>
     (ac_Role res = role \<or> ac_Role res \<in> set allowedRoles \<and> ac_Role res \<notin> set forbiddenRoles) \<and>
     (\<forall>(n, v) \<in> set (ac_Custom res). (n, v) \<in> set seen \<and> map_of fixed n = None \<and> checkCustomClaim n v) \<and>
     (\<forall>(n, v) \<in> set seen. n \<noteq> ''role'' \<longrightarrow> map_of fixed n = None \<or> map_of fixed n = Some v)"

lemma apply_member_None [simp]: "fold (apply_member fixed allowed) xs None = None"
  by (induction xs) (simp_all add: apply_member_def)

lemma apply_member_ok:
  assumes "answer_ok fixed role allowed seen res" "apply_member fixed allowed m (Some res) = Some res'"
  shows "answer_ok fixed role allowed (seen @ [m]) res'"
proof (cases m)
  case (Pair n v)
  show ?thesis
  proof (cases "n = ''role''")
    case True
    then show ?thesis using assms Pair
      by (auto simp: apply_member_def answer_ok_def split: jv.splits if_splits)
  next
    case False
    then show ?thesis using assms Pair
      by (auto simp: apply_member_def answer_ok_def split: option.splits if_splits)
  qed
qed

lemma fold_apply_ok:
  assumes "fold (apply_member fixed allowed) xs (Some res) = Some res'" "answer_ok fixed role allowed seen res"
  shows "answer_ok fixed role allowed (seen @ xs) res'"
  using assms
proof (induction xs arbitrary: res seen)
  case (Cons m xs)
  from Cons.prems(1) obtain r where r: "apply_member fixed allowed m (Some res) = Some r"
    by (cases "apply_member fixed allowed m (Some res)") simp_all
  with Cons.prems Cons.IH [of r "seen @ [m]"] apply_member_ok [OF Cons.prems(2) r] show ?case by simp
qed simp

lemma ApplyAccessClaims_ok:
  assumes "ApplyAccessClaims enc sent answer allowed = Some res"
  shows "answer_ok (object_trip sent) (string_claim (object_trip sent) ''role'') allowed answer res"
    "checkCustomBounds enc (ac_Custom res)"
proof -
  let ?fixed = "object_trip sent"
  let ?start = "\<lparr>ac_Role = string_claim ?fixed ''role'', ac_Custom = []\<rparr>"
  from assms have f: "fold (apply_member ?fixed allowed) answer (Some ?start) = Some res" and "checkCustomBounds enc (ac_Custom res)"
    by (auto simp: ApplyAccessClaims_def Let_def split: option.splits if_splits)
  then show "checkCustomBounds enc (ac_Custom res)" by simp
  show "answer_ok ?fixed (string_claim ?fixed ''role'') allowed answer res"
    using fold_apply_ok [OF f, where seen = "[]" and role = "string_claim ?fixed ''role''"] by (simp add: answer_ok_def)
qed

lemma custom_not_reserved:
  assumes "ApplyAccessClaims enc sent answer allowed = Some res"
  shows "\<forall>(n, v) \<in> set (ac_Custom res). ToLower n \<notin> set reservedClaims"
  using ApplyAccessClaims_ok(1) [OF assms] by (auto simp: answer_ok_def checkCustomClaim_def)

lemma sent_role: "string_claim (object_trip (PublicClaims s c)) ''role'' = c_Role c"
  by (simp add: string_claim_def map_of_trip PublicClaims_def claimsMap_def)

section \<open>Properties\<close>

text \<open>C10: A token reads back as it was issued, whatever the project's hook added to it. When the hook's answer was
  accepted, the claims signed with the role and the extra claims it chose, and the token presented before it
  expires, verification returns exactly the claims auth issued: its own subject, account, project, scope, address,
  guest mark, sign-in time and assurance level, the service's audience and access use, no actor, and nothing of the
  hook's but the role it was allowed to pick. The signing library is assumed to hand back, before the expiry it
  signed, the object it signed as JSON decodes it.\<close>

theorem token_round_trip:
  assumes lib: "\<And>mc tok t. es256_sign lib mc = Some tok \<Longrightarrow> of_int (Unix t) < (case map_of mc ''exp'' of Some (JNum e) \<Rightarrow> e | _ \<Rightarrow> 0) \<Longrightarrow>
      es256_parse lib t tok = Some (object_trip mc)"
    and hook: "ApplyAccessClaims enc (PublicClaims s c) answer (c_AllowedRoles c) = Some res"
    and signed: "Sign lib s now (c\<lparr>c_Role := ac_Role res, c_Custom := ac_Custom res\<rparr>) = Some tok"
    and "exact_numbers s now c" and "Unix t < Unix (now + expSeconds s * second)"
  shows "Verify lib s t tok = Some (read_back s now (c\<lparr>c_Role := ac_Role res\<rparr>))"
proof -
  let ?c = "c\<lparr>c_Role := ac_Role res, c_Custom := ac_Custom res\<rparr>"
  have custom: "\<forall>(n, v) \<in> set (c_Custom ?c). ToLower n \<notin> set reservedClaims"
    using custom_not_reserved [OF hook] by simp
  have "map_of (signed_claims s now ?c) ''exp'' = Some (JNum (of_int (Unix (now + expSeconds s * second))))"
    using map_of_signed [OF _ custom, of "''exp''"] by (simp add: read_claims_def own_optional)
  then have "es256_parse lib t tok = Some (object_trip (signed_claims s now ?c))"
    using assms(5) by (intro lib) (simp_all add: signed [unfolded Sign_def])
  with verified_claims [OF custom] assms(4) have "Verify lib s t tok = Some (read_back s now ?c)"
    by (simp add: exact_numbers_def)
  then show ?thesis by (simp add: read_back_def)
qed

definition sample_claims :: Claims where
  "sample_claims = \<lparr>c_Sub = ''7'', c_UserID = 7, c_ProjectID = ''p'', c_OrgSlug = ''o'', c_ProjectName = ''blog'',
     c_OrgName = ''Acme'', c_Role = ''user'', c_AllowedRoles = [''user'', ''editor''], c_Scope = ''authenticated'', c_KeyID = 0,
     c_Audience = [], c_TokenUse = [], c_EmailVerified = True, c_Actor = [], c_AuthTime = 5, c_Email = ''a@b.c'',
     c_IsGuest = Some False, c_Custom = [], c_AAL = ''aal2'', c_AMR = [''password'', ''totp''], c_IssuedAt = 0, c_ExpiresAt = 0\<rparr>"

definition sample_service :: JWTService where
  "sample_service = \<lparr>issuer = ''auth'', audPrefix = DefaultAudiencePrefix, expSeconds = 60\<rparr>"

definition sample_answer :: object where
  "sample_answer = [(''role'', JStr ''editor''), (''userId'', JNum 7), (''team'', JStr ''blue'')]"

definition sample_signed :: object where
  "sample_signed = signed_claims sample_service 0 (sample_claims\<lparr>c_Role := ''editor'', c_Custom := [(''team'', JStr ''blue'')]\<rparr>)"

definition sample_jwt :: jwt_lib where
  "sample_jwt = \<lparr>es256_sign = (\<lambda>mc. if mc = sample_signed then Some ''t'' else None),
     es256_parse = (\<lambda>t tok. if tok = ''t'' \<and> Unix t < 60 then Some (object_trip sample_signed) else None)\<rparr>"

lemma sample_hook:
  "ApplyAccessClaims (\<lambda>_. Some 20) (PublicClaims sample_service sample_claims) sample_answer (c_AllowedRoles sample_claims) =
     Some \<lparr>ac_Role = ''editor'', ac_Custom = [(''team'', JStr ''blue'')]\<rparr>"
  by code_simp

lemma sample_exp: "map_of sample_signed ''exp'' = Some (JNum 60)"
  by code_simp

theorem token_round_trip_witness:
  "Verify sample_jwt sample_service 0 ''t'' = Some (read_back sample_service 0 (sample_claims\<lparr>c_Role := ''editor''\<rparr>))"
proof -
  have lib: "es256_parse sample_jwt t tok = Some (object_trip mc)"
    if "es256_sign sample_jwt mc = Some tok" "of_int (Unix t) < (case map_of mc ''exp'' of Some (JNum e) \<Rightarrow> e | _ \<Rightarrow> 0)" for mc tok t
    using that by (auto simp: sample_jwt_def sample_exp split: if_splits)
  have "Sign sample_jwt sample_service 0 (sample_claims\<lparr>c_Role := ''editor'', c_Custom := [(''team'', JStr ''blue'')]\<rparr>) = Some ''t''"
    by (simp add: Sign_def sample_jwt_def sample_signed_def)
  moreover have "exact_numbers sample_service 0 sample_claims"
    by (simp add: exact_numbers_def sample_service_def sample_claims_def Unix_def)
  ultimately show ?thesis
    using token_round_trip [OF lib sample_hook, of 0 "''t''" 0] by (simp add: Unix_def sample_service_def)
qed

text \<open>C9: A \<open>custom_access_token\<close> hook is confined. An accepted answer keeps the account's role or picks another of its
  allowed roles, never the service or anonymous one; it repeats every claim auth set unchanged; what it adds is taken
  from the answer, under names auth does not use or reserve, flat and small, at most thirty-two of them within four
  kilobytes.\<close>

theorem hook_claims_confined:
  assumes "ApplyAccessClaims enc (PublicClaims s c) answer (c_AllowedRoles c) = Some res"
  shows "(ac_Role res = c_Role c \<or> ac_Role res \<in> set (c_AllowedRoles c) \<and> ac_Role res \<notin> {''service'', ''anon''}) \<and>
    (\<forall>(n, v) \<in> set answer. n \<noteq> ''role'' \<longrightarrow> map_of (PublicClaims s c) n \<noteq> None \<longrightarrow>
       map_option json_trip (map_of (PublicClaims s c) n) = Some v) \<and>
    (\<forall>(n, v) \<in> set (ac_Custom res). (n, v) \<in> set answer \<and> map_of (PublicClaims s c) n = None \<and>
       ToLower n \<notin> set reservedClaims \<and> claimName n \<and> (scalarClaim v \<or> (\<exists>vs. v = JArr vs \<and> length vs \<le> 32 \<and> list_all scalarClaim vs))) \<and>
    length (ac_Custom res) \<le> 32 \<and> (\<exists>n. enc (ac_Custom res) = Some n \<and> n \<le> 4096)"
proof -
  note ok = ApplyAccessClaims_ok [OF assms]
  have "checkCustomClaim n v \<Longrightarrow> scalarClaim v \<or> (\<exists>vs. v = JArr vs \<and> length vs \<le> 32 \<and> list_all scalarClaim vs)" for n v
    by (cases v) (simp_all add: checkCustomClaim_def MaxClaimArrayLength_def)
  moreover have "checkCustomClaim n v \<Longrightarrow> ToLower n \<notin> set reservedClaims \<and> claimName n" for n v
    by (simp add: checkCustomClaim_def)
  ultimately show ?thesis
    using ok by (fastforce simp: answer_ok_def sent_role map_of_trip forbiddenRoles_def checkCustomBounds_def
        MaxCustomClaims_def MaxCustomBytes_def split: option.splits)
qed

theorem hook_claims_confined_witness:
  "\<exists>res. ApplyAccessClaims (\<lambda>_. Some 20) (PublicClaims sample_service sample_claims) sample_answer (c_AllowedRoles sample_claims) = Some res \<and>
     ac_Role res \<notin> {''service'', ''anon''} \<and> length (ac_Custom res) \<le> 32"
  using hook_claims_confined [OF sample_hook] sample_hook by simp

end
