(* ===== verification/HandlerCore.thy ===== *)
theory HandlerCore
  imports PgMfa PgGuests Roles Secrets Jwt
begin

text \<open>
  The request handlers' shared part (\<open>internal/handler\<close>: \<open>auth.go\<close>, \<open>refresh_token.go\<close>, \<open>auth_hooks.go\<close>,
  \<open>mfa_session.go\<close>; \<open>internal/pool/sign_in_settings.go\<close>; \<open>internal/domain\<close>): what a request reads from
  outside, the project's settings and hooks, and how a session is started, refreshed and exchanged.

  A request is a record of what the code obtains from elsewhere while it serves it: the clock, the answers of
  the control plane and of the project's hooks, the random token it draws, the hash functions and the signing
  library. The settings are read several times while a request runs; the record holds the one answer per kind of
  read, so a request sees the same settings throughout. Logging and metrics are not modelled. A fault is the error
  message of the source, paired with the HTTP status it is answered with.
\<close>

section \<open>What a request reads\<close>

type_synonym fault = string

definition errProjectDBUnavailable :: fault where "errProjectDBUnavailable = ''failed to connect to project database''"
definition errProjectHasNoDatabase :: fault where "errProjectHasNoDatabase = ''project has no database''"
definition errInvalidCredentials :: fault where "errInvalidCredentials = ''invalid email or password''"
definition errAccountDisabled :: fault where "errAccountDisabled = ''account is disabled''"
definition errInvalidRefreshToken :: fault where "errInvalidRefreshToken = ''invalid refresh token''"
definition errRefreshTokenRevoked :: fault where "errRefreshTokenRevoked = ''refresh token revoked''"
definition errRefreshTokenExpired :: fault where "errRefreshTokenExpired = ''refresh token expired''"
definition errTokenGeneration :: fault where "errTokenGeneration = ''failed to generate tokens''"
definition errMissingAPIKey :: fault where "errMissingAPIKey = ''api_key is required''"
definition errInvalidAPIKey :: fault where "errInvalidAPIKey = ''invalid or revoked api key''"
definition errUnsupportedGrant :: fault where "errUnsupportedGrant = ''unsupported grant_type''"
definition errHashingBusy :: fault where "errHashingBusy = ''server busy, retry shortly''"
definition errEmailAndNameRequired :: fault where "errEmailAndNameRequired = ''email and fullName are required''"
definition errCannotRegister :: fault where "errCannotRegister = ''cannot register with this email; sign in or reset the password''"
definition errRefreshTokenStore :: fault where "errRefreshTokenStore = ''failed to store refresh token''"
definition errAccountChanged :: fault where "errAccountChanged = ''account changed during refresh; retry''"
definition errHookFailed :: fault where "errHookFailed = ''auth_hook_failed''"
definition errSignupDenied :: fault where "errSignupDenied = ''signup_denied''"
definition errEmailNotVerified :: fault where "errEmailNotVerified = ''email_not_verified''"
definition errTokenNotRedeemable :: fault where "errTokenNotRedeemable = ''invalid_or_expired_token''"
definition errSettingsUnreadable :: fault where "errSettingsUnreadable = ''sign-in settings are unavailable, retry shortly''"
definition errSignupDisabled :: fault where "errSignupDisabled = ''signup_disabled''"
definition errInvalidGrant :: fault where "errInvalidGrant = ''invalid or expired code''"
definition errUserNotFound :: fault where "errUserNotFound = ''user_not_found''"
definition codeMethodOff :: fault where "codeMethodOff = ''method_not_enabled''"
definition codeRateLimited :: fault where "codeRateLimited = ''rate_limited''"
definition codeInvalidRequest :: fault where "codeInvalidRequest = ''invalid_request''"
definition codeInsufficientAAL :: fault where "codeInsufficientAAL = ''insufficient_aal''"

lemmas fault_defs = errProjectDBUnavailable_def errProjectHasNoDatabase_def errInvalidCredentials_def errAccountDisabled_def
  errInvalidRefreshToken_def errRefreshTokenRevoked_def errRefreshTokenExpired_def errTokenGeneration_def
  errMissingAPIKey_def errInvalidAPIKey_def errUnsupportedGrant_def errHashingBusy_def
  errEmailAndNameRequired_def errCannotRegister_def errRefreshTokenStore_def errAccountChanged_def
  errHookFailed_def errSignupDenied_def errEmailNotVerified_def errTokenNotRedeemable_def
  errSettingsUnreadable_def errSignupDisabled_def errInvalidGrant_def errUserNotFound_def
  codeMethodOff_def codeRateLimited_def codeInvalidRequest_def codeInsufficientAAL_def

fun role_message :: "role_error \<Rightarrow> fault" where
  "role_message ErrInvalidAccountRole = ''invalid_account_role''"
| "role_message ErrInvalidRoleName = ''invalid_role''"
| "role_message ErrReservedRole = ''reserved_role''"
| "role_message ErrRoleNotAllowed = ''role_not_in_allowed_roles''"
| "role_message ErrTooManyAllowedRoles = ''too_many_allowed_roles''"

type_synonym 'a answer = "(nat \<times> fault) + 'a"

datatype pool_error = ErrNoDatabase | ErrPool

record AuthHooks =
  CustomAccessToken :: string
  BeforeUserCreated :: string
  SendEmail :: string

record OAuthProvider =
  op_Provider :: string
  op_ClientID :: string
  op_CallbackURL :: string

record ProjectInfo =
  pi_ProjectName :: string
  pi_OrgName :: string
  pi_OrgSlug :: string
  pi_RequireEmailVerification :: bool
  pi_SiteURL :: string
  pi_RedirectURLs :: "string list"
  pi_AllowNewUsers :: "bool option"
  pi_OAuthProviders :: "OAuthProvider list"
  pi_EmailOTPEnabled :: bool
  pi_UserAPIEnabled :: bool
  pi_GuestSignInEnabled :: "bool option"
  pi_GuestCaptchaEnabled :: bool
  pi_StableSubject :: bool
  pi_MFAEnabled :: bool
  pi_AuthHooks :: "AuthHooks option"

definition NewUsersAllowed :: "ProjectInfo \<Rightarrow> bool" where
  "NewUsersAllowed info = (pi_AllowNewUsers info = None \<or> pi_AllowNewUsers info = Some True)"

definition GuestsOn :: "ProjectInfo \<Rightarrow> bool" where
  "GuestsOn info = (pi_GuestSignInEnabled info \<noteq> None)"

definition GuestSignInOn :: "ProjectInfo \<Rightarrow> bool" where
  "GuestSignInOn info = (pi_GuestSignInEnabled info = Some True)"

record newUser =
  nu_Method :: string
  nu_Provider :: string
  nu_Email :: string
  nu_IsGuest :: bool

text \<open>\<open>hash_busy\<close>: the bounded hasher was saturated or the request gone.\<close>

datatype hash_failure = hash_busy | hash_broken

text \<open>What the code reads of a parsed \<open>net/url.URL\<close>; parsing itself is the library's. \<open>url_with_query\<close> is \<open>String()\<close>
  after \<open>RawQuery\<close> was replaced.\<close>

record url =
  url_Scheme :: string
  url_Opaque :: string
  url_User :: bool
  url_Host :: string
  url_Hostname :: string
  url_Port :: string
  url_Path :: string
  url_EscapedPath :: string
  url_RawQuery :: string
  url_Fragment :: string
  url_String :: string
  url_with_query :: "string \<Rightarrow> string"

record Message =
  msg_ProjectID :: string
  msg_To :: string
  msg_Template :: string
  msg_Data :: "(string \<times> string) list"

text \<open>The project's second-factor key: its cipher and its keyed hash of recovery codes.\<close>

record mfa_keys =
  mk_aead :: aead
  mk_mac :: "string \<Rightarrow> string"

text \<open>\<open>net.ParseIP\<close>: an IPv4 address in canonical text, or an IPv6 address as its /64 in canonical text.\<close>

datatype ip_form = IPv4 string | IPv6 string

record oauth_identity =
  oi_Subject :: string
  oi_Email :: string
  oi_Name :: string

datatype identify_failure = identify_email_not_verified | identify_failed

record oauth_flow =
  fl_State :: string
  fl_Verifier :: string
  fl_Nonce :: string

record request =
  rq_sql :: sql_env
  rq_now :: time
  rq_project :: string
  rq_org :: string
  rq_ip :: string
  rq_claims :: "Claims option"
  rq_pool :: "pool_error option"
  rq_open :: bool
  rq_info :: "ProjectInfo option"
  rq_fresh :: "ProjectInfo option"
  rq_cached :: "ProjectInfo option"
  rq_token :: "string option"
  rq_uuid :: string
  rq_sha :: "string \<Rightarrow> string"
  rq_hash :: "string \<Rightarrow> hash_failure + string"
  rq_check :: "string \<Rightarrow> string \<Rightarrow> bool option"
  rq_jwt :: jwt_lib
  rq_hook_secret :: bool
  rq_access_hook :: "object \<Rightarrow> object option option"
  rq_user_hook :: "newUser \<Rightarrow> string option"
  rq_json_length :: "object \<Rightarrow> nat option"
  rq_url :: "string \<Rightarrow> url option"
  rq_relay :: "Message \<Rightarrow> bool"
  rq_mail_hook :: "Message \<Rightarrow> bool"
  rq_parse_ip :: "string \<Rightarrow> ip_form option"
  rq_parse_address :: "string \<Rightarrow> string option"
  rq_uuid_parse :: "string \<Rightarrow> string option"
  rq_mfa :: "mfa_keys option"
  rq_hmac_sha1 :: "string \<Rightarrow> string \<Rightarrow> string"
  rq_hmac_hex :: "string \<Rightarrow> string \<Rightarrow> string"
  rq_s256 :: "string \<Rightarrow> string"
  rq_nonce :: string
  rq_secret :: "string option"
  rq_draws :: "string list"
  rq_code_draw :: "nat option"
  rq_flow :: "oauth_flow option"
  rq_provider_secret :: "string \<Rightarrow> string option"
  rq_identify :: "string \<Rightarrow> string \<Rightarrow> string \<Rightarrow> string \<Rightarrow> identify_failure + oauth_identity"

record AuthHandler =
  jwtService :: JWTService
  refreshExp :: int
  hookClient :: bool
  siteURL :: string
  otpKey :: "string option"
  otpLimits :: OTPLimits
  emailChangeLimits :: EmailChangeLimits
  guestLimits :: GuestLimits
  guestInactiveAfter :: duration
  mfaLimits :: MFALimits
  oauthProviders :: "string list"

definition defaultOTPLimits :: OTPLimits where
  "defaultOTPLimits = \<lparr>ol_MinInterval = minute, ol_PerAddressHour = 5, ol_PerProjectDay = 500, ol_PerIPDay = 50,
     ol_LinksPerAccountDay = 10\<rparr>"

definition defaultEmailChangeLimits :: EmailChangeLimits where
  "defaultEmailChangeLimits = \<lparr>cl_MinInterval = minute, cl_PerAccountDay = 5, cl_PerProjectDay = 200,
     cl_PerGuestClientDay = 5, cl_GuestPerProjectDay = 100\<rparr>"

definition defaultGuestLimits :: GuestLimits where
  "defaultGuestLimits = \<lparr>gl_PerClientHour = 30, gl_PerProjectDay = 1000\<rparr>"

definition defaultMFALimits :: MFALimits where
  "defaultMFALimits = \<lparr>MaxFactors = 10, MaxFailures = 5, FailureWindow = 5 * minute, MaxDailyFailures = 10,
     MaxAccountDailyFailures = 20, StaleUnverified = 24 * hour\<rparr>"

text \<open>\<open>NewAuthHandler\<close> with the derived code key and the fallback site URL, both set once at start-up.\<close>

definition NewAuthHandler :: "JWTService \<Rightarrow> int \<Rightarrow> string option \<Rightarrow> string \<Rightarrow> bool \<Rightarrow> AuthHandler" where
  "NewAuthHandler jwt refresh key site hooked =
     \<lparr>jwtService = jwt, refreshExp = refresh, hookClient = hooked, siteURL = site, otpKey = key, otpLimits = defaultOTPLimits,
      emailChangeLimits = defaultEmailChangeLimits, guestLimits = defaultGuestLimits,
      guestInactiveAfter = 30 * 24 * hour, mfaLimits = defaultMFALimits, oauthProviders = [''google'', ''github'']\<rparr>"

definition poolFailure :: "pool_error \<Rightarrow> nat \<times> fault" where
  "poolFailure e = (if e = ErrNoDatabase then (409, errProjectHasNoDatabase) else (503, errProjectDBUnavailable))"

definition sessionFailure :: "fault \<Rightarrow> nat \<times> fault" where
  "sessionFailure e =
     (if e = errHookFailed then (503, errHookFailed) else if e = errSignupDenied then (403, errSignupDenied)
      else (500, errTokenGeneration))"

section \<open>Hooks\<close>

definition hookSettings :: "request \<Rightarrow> AuthHooks option" where
  "hookSettings r =
     (let none = \<lparr>CustomAccessToken = [], BeforeUserCreated = [], SendEmail = []\<rparr> in
      case rq_fresh r of
        None \<Rightarrow> (case rq_cached r of Some cached \<Rightarrow> if pi_AuthHooks cached \<noteq> None then None else Some none | None \<Rightarrow> Some none)
      | Some info \<Rightarrow> (case pi_AuthHooks info of None \<Rightarrow> Some none | Some hooks \<Rightarrow> Some hooks))"

text \<open>\<open>recordAudit\<close> and the audit row of a failed hook, written only where the project's pool is open.\<close>

definition recordAudit :: "request \<Rightarrow> int \<Rightarrow> string \<Rightarrow> string \<Rightarrow> string \<Rightarrow> db \<Rightarrow> db" where
  "recordAudit r userID event m ip d =
     RecordAudit (rq_sql r) \<lparr>ae_UserID = userID, ae_Event = event, ae_Method = m, ae_IP = ip\<rparr> d"

definition hookFailure :: "request \<Rightarrow> string \<Rightarrow> int \<Rightarrow> db \<Rightarrow> db" where
  "hookFailure r hook userID d = (if rq_open r then recordAudit r userID ''hook_failed'' hook [] d else d)"

definition hook_reachable :: "AuthHandler \<Rightarrow> request \<Rightarrow> bool" where
  "hook_reachable h r = (hookClient h \<and> rq_hook_secret r)"

definition applied_claims :: "Claims \<Rightarrow> AccessClaims \<Rightarrow> Claims" where
  "applied_claims claims applied = claims\<lparr>c_Role := ac_Role applied, c_Custom := ac_Custom applied\<rparr>"

definition withAccessHook :: "AuthHandler \<Rightarrow> request \<Rightarrow> Claims \<Rightarrow> db \<Rightarrow> (fault + Claims) \<times> db" where
  "withAccessHook h r claims d =
     (let failed = (Inl errHookFailed, hookFailure r ''custom_access_token'' (c_UserID claims) d) in
      case hookSettings r of
        None \<Rightarrow> failed
      | Some settings \<Rightarrow>
          if CustomAccessToken settings = [] then (Inr claims, d)
          else
            let sent = PublicClaims (jwtService h) claims in
            (case (if hook_reachable h r then rq_access_hook r sent else None) of
               Some (Some answer) \<Rightarrow>
                 (case ApplyAccessClaims (rq_json_length r) sent answer (c_AllowedRoles claims) of
                    None \<Rightarrow> failed
                  | Some applied \<Rightarrow> (Inr (applied_claims claims applied), d))
             | _ \<Rightarrow> failed))"

definition allowNewUser :: "AuthHandler \<Rightarrow> request \<Rightarrow> newUser \<Rightarrow> db \<Rightarrow> fault option \<times> db" where
  "allowNewUser h r user d =
     (let failed = (Some errHookFailed, hookFailure r ''before_user_created'' 0 d) in
      case hookSettings r of
        None \<Rightarrow> failed
      | Some settings \<Rightarrow>
          if BeforeUserCreated settings = [] then (None, d)
          else
            (case (if hook_reachable h r then rq_user_hook r user else None) of
               None \<Rightarrow> failed
             | Some decision \<Rightarrow>
                 if decision = ''allow'' then (None, d)
                 else if decision = ''deny'' then (Some errSignupDenied, d)
                 else failed))"

definition guestUpgradeAllowed :: "AuthHandler \<Rightarrow> request \<Rightarrow> int \<Rightarrow> string \<Rightarrow> string \<Rightarrow> db \<Rightarrow> fault option \<times> db" where
  "guestUpgradeAllowed h r userID provider address d =
     (case hookSettings r of
        None \<Rightarrow> (Some errHookFailed, hookFailure r ''before_user_created'' userID d)
      | Some settings \<Rightarrow>
          if BeforeUserCreated settings = [] then (None, d)
          else (case AccountByID userID d of
              Inl _ \<Rightarrow> (None, d)
            | Inr account \<Rightarrow>
                if \<not> a_IsGuest account then (None, d)
                else allowNewUser h r \<lparr>nu_Method = ''guest_upgrade'', nu_Provider = provider, nu_Email = address, nu_IsGuest = False\<rparr> d))"

section \<open>Claims\<close>

record accountRoles =
  ar_role :: string
  ar_allowed :: "string list option"

definition roles_of :: "account \<Rightarrow> accountRoles" where
  "roles_of account = \<lparr>ar_role = a_Role account, ar_allowed = a_AllowedRoles account\<rparr>"

definition validate_roles :: "accountRoles \<Rightarrow> role_error option" where
  "validate_roles roles = (case AccountAllowedRoles (ar_role roles) (ar_allowed roles) of Inl e \<Rightarrow> Some e | Inr _ \<Rightarrow> None)"

record UserInfo =
  ui_ID :: int
  ui_Email :: string
  ui_FullName :: string
  ui_IsGuest :: bool

definition userInfoOf :: "account \<Rightarrow> UserInfo" where
  "userInfoOf account = \<lparr>ui_ID = a_ID account, ui_Email = a_Email account, ui_FullName = a_FullName account, ui_IsGuest = a_IsGuest account\<rparr>"

record AuthResponse =
  AccessToken :: string
  RefreshToken :: string
  TokenType :: string
  ExpiresIn :: int
  RespUser :: "UserInfo option"

record projectLabels =
  l_orgSlug :: string
  l_projectName :: string
  l_orgName :: string
  l_stableSubject :: bool
  l_mfa :: bool

definition labelsFor :: "request \<Rightarrow> projectLabels" where
  "labelsFor r =
     (let own = \<lparr>l_orgSlug = rq_org r, l_projectName = rq_project r, l_orgName = rq_org r, l_stableSubject = False, l_mfa = False\<rparr> in
      case (case rq_info r of None \<Rightarrow> rq_cached r | Some info \<Rightarrow> Some info) of
        None \<Rightarrow> own
      | Some info \<Rightarrow>
          own\<lparr>l_stableSubject := pi_StableSubject info, l_mfa := pi_MFAEnabled info,
            l_projectName := (if pi_ProjectName info \<noteq> [] then pi_ProjectName info else l_projectName own),
            l_orgName := (if pi_OrgName info \<noteq> [] then pi_OrgName info else l_orgName own),
            l_orgSlug := (if pi_OrgSlug info \<noteq> [] then pi_OrgSlug info else l_orgSlug own)\<rparr>)"

definition empty_claims :: Claims where
  "empty_claims = \<lparr>c_Sub = [], c_UserID = 0, c_ProjectID = [], c_OrgSlug = [], c_ProjectName = [], c_OrgName = [], c_Role = [],
     c_AllowedRoles = [], c_Scope = [], c_KeyID = 0, c_Audience = [], c_TokenUse = [], c_EmailVerified = False, c_Actor = [],
     c_AuthTime = 0, c_Email = [], c_IsGuest = None, c_Custom = [], c_AAL = [], c_AMR = [], c_IssuedAt = 0, c_ExpiresAt = 0\<rparr>"

definition endUserClaims :: "string \<Rightarrow> projectLabels \<Rightarrow> UserInfo \<Rightarrow> accountRoles \<Rightarrow> bool \<Rightarrow> fault + Claims" where
  "endUserClaims projectID labels user roles emailVerified =
     (case AccountAllowedRoles (ar_role roles) (ar_allowed roles) of
        Inl e \<Rightarrow> Inl (role_message e)
      | Inr allowed \<Rightarrow>
          let stable = (l_stableSubject labels \<or> ui_IsGuest user)
          in Inr (empty_claims\<lparr>c_Sub := (if stable then FormatInt (ui_ID user) else ui_Email user), c_Email := ui_Email user,
               c_IsGuest := (if stable then Some (ui_IsGuest user) else None), c_UserID := ui_ID user, c_ProjectID := projectID,
               c_OrgSlug := l_orgSlug labels, c_ProjectName := l_projectName labels, c_OrgName := l_orgName labels,
               c_Role := ar_role roles, c_AllowedRoles := allowed, c_Scope := ''authenticated'', c_EmailVerified := emailVerified\<rparr>))"

definition apiKeyClaims :: "string \<Rightarrow> projectLabels \<Rightarrow> int \<Rightarrow> string \<Rightarrow> Claims option" where
  "apiKeyClaims projectID labels keyID keyType =
     (case (if keyType = ''publishable'' then Some (RoleAnon, ''public'')
            else if keyType = ''secret'' then Some (RoleService, ''service'') else None) of
        None \<Rightarrow> None
      | Some (role, scope) \<Rightarrow>
          Some (empty_claims\<lparr>c_Sub := ''apikey:'' @ FormatInt keyID, c_ProjectID := projectID, c_OrgSlug := l_orgSlug labels,
            c_ProjectName := l_projectName labels, c_OrgName := l_orgName labels, c_Role := role, c_AllowedRoles := [role],
            c_Scope := scope, c_KeyID := keyID\<rparr>))"

definition accessClaims :: "AuthHandler \<Rightarrow> request \<Rightarrow> UserInfo \<Rightarrow> accountRoles \<Rightarrow> bool \<Rightarrow> db \<Rightarrow> (fault + Claims) \<times> db" where
  "accessClaims h r user roles emailVerified d =
     (case endUserClaims (rq_project r) (labelsFor r) user roles emailVerified of
        Inl e \<Rightarrow> (Inl e, d)
      | Inr claims \<Rightarrow> withAccessHook h r claims d)"

section \<open>Sessions\<close>

definition claimAAL1 :: string where "claimAAL1 = ''aal1''"
definition claimAAL2 :: string where "claimAAL2 = ''aal2''"

definition assuranceClaims :: "RefreshSession \<Rightarrow> string \<times> string list" where
  "assuranceClaims session = (if LevelOf (AAL session) = AAL2 then claimAAL2 else claimAAL1, AMR session)"

definition carriedSession :: "RefreshSession \<Rightarrow> Claims option \<Rightarrow> RefreshSession" where
  "carriedSession session caller =
     (case caller of
        None \<Rightarrow> session
      | Some c \<Rightarrow>
          if c_AAL c = [] then session
          else session\<lparr>AAL := (if c_AAL c = claimAAL2 then AAL2 else AAL session),
                 AMR := (if c_AMR c \<noteq> [] then c_AMR c else AMR session)\<rparr>)"

definition newRefreshSession :: "AuthHandler \<Rightarrow> request \<Rightarrow> string \<Rightarrow> RefreshSession" where
  "newRefreshSession h r m =
     \<lparr>FamilyID = rq_uuid r, Expiry = rq_now r + refreshExp h * second, AuthTime = Some (rq_now r), AAL = AAL1, AMR = [m]\<rparr>"

definition storeRefreshToken :: "request \<Rightarrow> int \<Rightarrow> RefreshSession \<Rightarrow> db \<Rightarrow> string option \<times> db" where
  "storeRefreshToken r userID session d =
     (case rq_token r of
        None \<Rightarrow> (None, d)
      | Some plaintext \<Rightarrow>
          (case InsertRefreshToken (rq_sql r) (rq_sha r plaintext) userID session d of
             (Inl _, d1) \<Rightarrow> (None, d1)
           | (Inr _, d1) \<Rightarrow> (Some plaintext, d1)))"

definition session_claims :: "request \<Rightarrow> Claims \<Rightarrow> RefreshSession \<Rightarrow> Claims" where
  "session_claims r claims session =
     (let c = (case AuthTime session of None \<Rightarrow> claims | Some t \<Rightarrow> claims\<lparr>c_AuthTime := Unix t\<rparr>) in
      if l_mfa (labelsFor r) \<or> LevelOf (AAL session) = AAL2
      then c\<lparr>c_AAL := fst (assuranceClaims session), c_AMR := snd (assuranceClaims session)\<rparr> else c)"

definition signSession :: "AuthHandler \<Rightarrow> request \<Rightarrow> Claims \<Rightarrow> UserInfo \<Rightarrow> string \<Rightarrow> RefreshSession \<Rightarrow> AuthResponse option" where
  "signSession h r claims user refreshToken session =
     (case Sign (rq_jwt r) (jwtService h) (rq_now r) (session_claims r claims session) of
        None \<Rightarrow> None
      | Some accessToken \<Rightarrow> Some \<lparr>AccessToken = accessToken, RefreshToken = refreshToken, TokenType = ''Bearer'',
          ExpiresIn = expSeconds (jwtService h), RespUser = Some user\<rparr>)"

text \<open>The claims are built before the token is stored, so a failed hook stores nothing.\<close>

definition startSession :: "AuthHandler \<Rightarrow> request \<Rightarrow> UserInfo \<Rightarrow> accountRoles \<Rightarrow> bool \<Rightarrow> RefreshSession \<Rightarrow> db \<Rightarrow> (fault + AuthResponse) \<times> db" where
  "startSession h r user roles emailVerified session d =
     (case accessClaims h r user roles emailVerified d of
        (Inl e, d1) \<Rightarrow> (Inl e, d1)
      | (Inr claims, d1) \<Rightarrow>
          if rq_pool r \<noteq> None then (Inl errTokenGeneration, d1)
          else (case storeRefreshToken r (ui_ID user) session d1 of
              (None, d2) \<Rightarrow> (Inl errTokenGeneration, d2)
            | (Some refreshToken, d2) \<Rightarrow>
                (case signSession h r claims user refreshToken session of
                   None \<Rightarrow> (Inl errTokenGeneration, d2)
                 | Some resp \<Rightarrow> (Inr resp, d2))))"

definition generateAuthResponse :: "AuthHandler \<Rightarrow> request \<Rightarrow> UserInfo \<Rightarrow> accountRoles \<Rightarrow> bool \<Rightarrow> string \<Rightarrow> db \<Rightarrow> (fault + AuthResponse) \<times> db" where
  "generateAuthResponse h r user roles emailVerified m d =
     startSession h r user roles emailVerified (newRefreshSession h r m) d"

section \<open>Facts\<close>

text \<open>A call that wrote nothing but audit rows.\<close>

definition audit_only :: "db \<Rightarrow> db \<Rightarrow> bool" where
  "audit_only d d' \<longleftrightarrow> (\<exists>l. d' = d\<lparr>audit_log := l\<rparr>)"

lemma audit_only_refl [simp]: "audit_only d d"
  unfolding audit_only_def by (rule exI [of _ "audit_log d"]) simp

lemma audit_only_trans: "audit_only d d1 \<Longrightarrow> audit_only d1 d2 \<Longrightarrow> audit_only d d2"
  by (auto simp: audit_only_def)

lemma audit_only_recordAudit [simp]: "audit_only d (recordAudit r u e m ip d)"
  by (auto simp: audit_only_def recordAudit_def RecordAudit_def)

lemma audit_only_hookFailure [simp]: "audit_only d (hookFailure r hook u d)"
  by (simp add: hookFailure_def)

lemma audit_only_fields:
  assumes "audit_only d d'"
  shows "users d' = users d" "refresh_tokens d' = refresh_tokens d" "identities d' = identities d"
    "email_verification_tokens d' = email_verification_tokens d" "password_reset_tokens d' = password_reset_tokens d"
    "api_keys d' = api_keys d" "mfa_factors d' = mfa_factors d" "user_ids d' = user_ids d" "user_by_id d' i = user_by_id d i"
    "auth_codes d' = auth_codes d" "flow_states d' = flow_states d" "email_otps d' = email_otps d"
  using assms by (auto simp: audit_only_def user_ids_def user_by_id_def)

lemma wf_audit_only: "audit_only d d' \<Longrightarrow> wf_db d' = wf_db d"
  unfolding audit_only_def by (elim exE) (simp add: wf_db_def wf_defs)

lemma audit_only_withAccessHook: "audit_only d (snd (withAccessHook h r claims d))"
  by (auto simp: withAccessHook_def Let_def split: option.split)

lemma audit_only_accessClaims: "audit_only d (snd (accessClaims h r user roles ev d))"
  by (auto simp: accessClaims_def audit_only_withAccessHook split: sum.split)

lemma audit_only_allowNewUser: "audit_only d (snd (allowNewUser h r user d))"
  by (auto simp: allowNewUser_def Let_def split: option.split)

lemma audit_only_guestUpgrade: "audit_only d (snd (guestUpgradeAllowed h r u p a d))"
  by (auto simp: guestUpgradeAllowed_def audit_only_allowNewUser split: option.split sum.split)

text \<open>What access claims say, whatever the hook did to them.\<close>

lemma endUserClaims_Inr:
  assumes "endUserClaims p labels user roles ev = Inr claims"
  shows "c_UserID claims = ui_ID user" "c_ProjectID claims = p" "c_Scope claims = ''authenticated''" "c_KeyID claims = 0"
    "c_EmailVerified claims = ev" "c_Email claims = ui_Email user" "c_AAL claims = []" "c_AMR claims = []"
    "c_Actor claims = []" "c_AuthTime claims = 0" "AccountAllowedRoles (ar_role roles) (ar_allowed roles) = Inr (c_AllowedRoles claims)"
    "c_Role claims = ar_role roles"
  using assms by (auto simp: endUserClaims_def Let_def empty_claims_def split: sum.splits)

lemma withAccessHook_cases:
  assumes "fst (withAccessHook h r claims d) = Inr claims'"
  obtains (same) "claims' = claims"
    | (hook) answer applied where "claims' = applied_claims claims applied"
      "ApplyAccessClaims (rq_json_length r) (PublicClaims (jwtService h) claims) answer (c_AllowedRoles claims) = Some applied"
  using assms by (auto simp: withAccessHook_def Let_def split: option.splits if_splits)

lemma withAccessHook_Inr:
  assumes "fst (withAccessHook h r claims d) = Inr claims'"
  shows "c_UserID claims' = c_UserID claims" "c_ProjectID claims' = c_ProjectID claims" "c_Scope claims' = c_Scope claims"
    "c_KeyID claims' = c_KeyID claims" "c_EmailVerified claims' = c_EmailVerified claims" "c_Email claims' = c_Email claims"
    "c_AllowedRoles claims' = c_AllowedRoles claims"
    "c_Role claims' = c_Role claims \<or> c_Role claims' \<in> set (c_AllowedRoles claims) \<and> c_Role claims' \<notin> {''service'', ''anon''}"
  by (cases rule: withAccessHook_cases [OF assms], simp, frule ApplyAccessClaims_ok(1),
      auto simp: applied_claims_def answer_ok_def sent_role forbiddenRoles_def)+

text \<open>The claims of an end user: its own account and project, a role of its own, no service scope.\<close>

definition claims_of :: "request \<Rightarrow> UserInfo \<Rightarrow> accountRoles \<Rightarrow> bool \<Rightarrow> Claims \<Rightarrow> bool" where
  "claims_of r user roles ev c \<longleftrightarrow>
     c_UserID c = ui_ID user \<and> c_ProjectID c = rq_project r \<and> c_Scope c = ''authenticated'' \<and> c_KeyID c = 0 \<and>
     c_EmailVerified c = ev \<and> c_Email c = ui_Email user \<and>
     AccountAllowedRoles (ar_role roles) (ar_allowed roles) = Inr (c_AllowedRoles c) \<and>
     c_Role c \<in> set (c_AllowedRoles c) \<and> c_Role c \<notin> {RoleAnon, RoleService}"

lemma role_in_allowed:
  assumes "AccountAllowedRoles role stored = Inr allowed"
  shows "role \<in> set allowed" "role \<notin> {RoleAnon, RoleService}"
proof -
  from assms have n: "NormalizeAllowedRoles role stored = Inr allowed" and v: "ValidateRoleName role = None"
    by (auto simp: AccountAllowedRoles_def ValidateAccountRole_def split: option.splits sum.splits if_splits)
  show "role \<in> set allowed"
    using n v by (auto simp: NormalizeAllowedRoles_def split: option.splits sum.splits if_splits)
  show "role \<notin> {RoleAnon, RoleService}"
    using v by (auto simp: ValidateRoleName_def reservedRoles_def split: if_splits)
qed

lemma accessClaims_Inr:
  assumes "fst (accessClaims h r user roles ev d) = Inr c"
  shows "claims_of r user roles ev c"
proof -
  from assms obtain c0 where c0: "endUserClaims (rq_project r) (labelsFor r) user roles ev = Inr c0"
    and hook: "fst (withAccessHook h r c0 d) = Inr c"
    by (auto simp: accessClaims_def split: sum.splits)
  note e = endUserClaims_Inr [OF c0] and w = withAccessHook_Inr [OF hook]
  have "c_Role c \<in> set (c_AllowedRoles c0) \<and> c_Role c \<notin> {RoleAnon, RoleService}"
    using w(8) role_in_allowed [OF e(11)] e(12) by (auto simp: RoleAnon_def RoleService_def)
  then show ?thesis using e w by (simp add: claims_of_def)
qed

end
