(* ===== verification/HandlerSessions.thy ===== *)
theory HandlerSessions
  imports HandlerCore
begin

text \<open>
  The grants of \<open>/token\<close> and their legacy routes (\<open>internal/handler\<close>: \<open>auth.go\<close>, \<open>refresh_token.go\<close>,
  \<open>sign_out.go\<close>): password, refresh token and API key, validation of an access token, and signing out.
\<close>

section \<open>Password\<close>

definition requireEmailVerification :: "request \<Rightarrow> bool" where
  "requireEmailVerification r = (case rq_info r of None \<Rightarrow> False | Some info \<Rightarrow> pi_RequireEmailVerification info)"

definition noPasswordHash :: string where
  "noPasswordHash = ''$argon2id$v=19$m=19456,t=2,p=1$AAAAAAAAAAAAAAAAAAAAAA$AAAAAAAAAAAAAAAAAAAAAAAAAAAAAAAAAAAAAAAAAAA''"

definition checkPassword :: "request \<Rightarrow> string \<Rightarrow> string \<Rightarrow> bool option" where
  "checkPassword r password encoded =
     (if encoded = [] then map_option (\<lambda>_. False) (rq_check r password noPasswordHash)
      else rq_check r password encoded)"

definition exchangePassword :: "AuthHandler \<Rightarrow> request \<Rightarrow> string \<Rightarrow> string \<Rightarrow> db \<Rightarrow> AuthResponse answer \<times> db" where
  "exchangePassword h r email password d =
     (case rq_pool r of
        Some e \<Rightarrow> (Inl (poolFailure e), d)
      | None \<Rightarrow>
          (case AccountByEmail email d of
             Inl _ \<Rightarrow> (Inl (401, errInvalidCredentials), d)
           | Inr user \<Rightarrow>
               if \<not> a_Enabled user then (Inl (403, errAccountDisabled), d)
               else (case checkPassword r password (a_PasswordHash user) of
                   None \<Rightarrow> (Inl (503, errHashingBusy), d)
                 | Some matched \<Rightarrow>
                     if \<not> matched then (Inl (401, errInvalidCredentials), d)
                     else if \<not> a_EmailVerified user \<and> requireEmailVerification r then (Inl (403, errEmailNotVerified), d)
                     else (case validate_roles (roles_of user) of
                         Some e \<Rightarrow> (Inl (403, role_message e), d)
                       | None \<Rightarrow>
                           (case generateAuthResponse h r (userInfoOf user) (roles_of user) (a_EmailVerified user) ''password''
                                   (TouchLastLogin (rq_sql r) (a_ID user) d) of
                              (Inl e, d1) \<Rightarrow> (Inl (sessionFailure e), d1)
                            | (Inr resp, d1) \<Rightarrow> (Inr resp, d1))))))"

section \<open>Refresh\<close>

definition rejectDeadRefreshToken :: "string \<Rightarrow> db \<Rightarrow> (nat \<times> fault) \<times> db" where
  "rejectDeadRefreshToken hash d =
     (case RefreshTokenState hash d of
        Inl e \<Rightarrow> (if e = ErrNotFound then (401, errInvalidRefreshToken) else (500, errRefreshTokenStore), d)
      | Inr state \<Rightarrow>
          if \<not> st_Revoked state then ((401, errRefreshTokenExpired), d)
          else ((401, errRefreshTokenRevoked), RevokeRefreshFamily (st_FamilyID state) d))"

definition guestRefreshAllowed :: "request \<Rightarrow> (nat \<times> fault) option" where
  "guestRefreshAllowed r =
     (case rq_fresh r of
        None \<Rightarrow> Some (503, errSettingsUnreadable)
      | Some info \<Rightarrow> if GuestsOn info then None else Some (403, codeMethodOff))"

definition refreshAllowed :: "request \<Rightarrow> account \<Rightarrow> (nat \<times> fault) option" where
  "refreshAllowed r account =
     (if \<not> a_Enabled account then Some (403, errAccountDisabled)
      else case validate_roles (roles_of account) of
          Some e \<Rightarrow> Some (403, role_message e)
        | None \<Rightarrow>
            if a_IsGuest account then guestRefreshAllowed r
            else if \<not> a_EmailVerified account \<and> requireEmailVerification r then Some (403, errEmailNotVerified)
            else None)"

definition sameAccount :: "account \<Rightarrow> account \<Rightarrow> bool" where
  "sameAccount built locked =
     (a_ID built = a_ID locked \<and> a_Role built = a_Role locked \<and>
      coalesce (a_AllowedRoles built) [] = coalesce (a_AllowedRoles locked) [] \<and>
      a_Email built = a_Email locked \<and> a_EmailVerified built = a_EmailVerified locked \<and>
      a_IsGuest built = a_IsGuest locked \<and> a_Enabled built = a_Enabled locked)"

text \<open>The claims built ahead of a rotation, while the project has a hook; \<open>None\<close> where they are left to it.\<close>

definition refreshPreview :: "AuthHandler \<Rightarrow> request \<Rightarrow> string \<Rightarrow> db \<Rightarrow> (account \<times> Claims) option answer \<times> db" where
  "refreshPreview h r hash d =
     (case hookSettings r of
        None \<Rightarrow> (Inl (sessionFailure errHookFailed), hookFailure r ''custom_access_token'' 0 d)
      | Some settings \<Rightarrow>
          if CustomAccessToken settings = [] then (Inr None, d)
          else (case RefreshTokenState hash d of
              Inl _ \<Rightarrow> (Inr None, d)
            | Inr state \<Rightarrow>
                if st_Revoked state then (Inr None, d)
                else (case AccountByID (st_UserID state) d of
                    Inl _ \<Rightarrow> (Inr None, d)
                  | Inr account \<Rightarrow>
                      (case refreshAllowed r account of
                         Some refusal \<Rightarrow> (Inl refusal, d)
                       | None \<Rightarrow>
                           (case accessClaims h r (userInfoOf account) (roles_of account) (a_EmailVerified account) d of
                              (Inl e, d1) \<Rightarrow> (Inl (sessionFailure e), d1)
                            | (Inr claims, d1) \<Rightarrow> (Inr (Some (account, claims)), d1))))))"

text \<open>
  The check a rotation makes on the account it locked. Claims not built ahead are built here; the settings
  have no hook then, so nothing is called while the row is locked.
\<close>

definition refresh_check :: "AuthHandler \<Rightarrow> request \<Rightarrow> (account \<times> Claims) option \<Rightarrow> account \<Rightarrow> db \<Rightarrow> Claims answer" where
  "refresh_check h r preview account d =
     (case refreshAllowed r account of
        Some refusal \<Rightarrow> Inl refusal
      | None \<Rightarrow>
          (case preview of
             Some (built, claims) \<Rightarrow> if \<not> sameAccount built account then Inl (409, errAccountChanged) else Inr claims
           | None \<Rightarrow>
               (case fst (accessClaims h r (userInfoOf account) (roles_of account) (a_EmailVerified account) d) of
                  Inl e \<Rightarrow> Inl (sessionFailure e)
                | Inr claims \<Rightarrow> Inr claims)))"

definition exchangeRefreshToken :: "AuthHandler \<Rightarrow> request \<Rightarrow> string \<Rightarrow> db \<Rightarrow> AuthResponse answer \<times> db" where
  "exchangeRefreshToken h r refreshToken d =
     (case rq_pool r of
        Some e \<Rightarrow> (Inl (poolFailure e), d)
      | None \<Rightarrow>
          (case rq_token r of
             None \<Rightarrow> (Inl (500, errRefreshTokenStore), d)
           | Some successor \<Rightarrow>
               (case refreshPreview h r (rq_sha r refreshToken) d of
                  (Inl refusal, d1) \<Rightarrow> (Inl refusal, d1)
                | (Inr preview, d1) \<Rightarrow>
                    (case RotateRefreshToken (rq_sql r) (rq_sha r refreshToken) (rq_sha r successor)
                            (\<lambda>account. case refresh_check h r preview account d1 of
                               Inl (status, f) \<Rightarrow> Some (ErrRefused status f) | Inr _ \<Rightarrow> None) d1 of
                       (Inl e, d2) \<Rightarrow>
                         (case e of
                            ErrNotFound \<Rightarrow> (case rejectDeadRefreshToken (rq_sha r refreshToken) d2 of (f, d3) \<Rightarrow> (Inl f, d3))
                          | ErrNoAccount \<Rightarrow> (Inl (401, errInvalidRefreshToken), d2)
                          | ErrRefused status f \<Rightarrow> (Inl (status, f), d2)
                          | ErrUnavailable \<Rightarrow> (Inl (503, errProjectDBUnavailable), d2)
                          | _ \<Rightarrow> (Inl (500, errRefreshTokenStore), d2))
                     | (Inr (account, session), d2) \<Rightarrow>
                         (case refresh_check h r preview account d1 of
                            Inl f \<Rightarrow> (Inl f, d2)
                          | Inr claims \<Rightarrow>
                              (case signSession h r claims (userInfoOf account) successor session of
                                 None \<Rightarrow> (Inl (500, errTokenGeneration), d2)
                               | Some resp \<Rightarrow> (Inr resp, d2)))))))"

section \<open>API keys\<close>

definition generateAPIKeyAuthResponse :: "AuthHandler \<Rightarrow> request \<Rightarrow> int \<Rightarrow> string \<Rightarrow> AuthResponse option" where
  "generateAPIKeyAuthResponse h r keyID keyType =
     (case apiKeyClaims (rq_project r) (labelsFor r) keyID keyType of
        None \<Rightarrow> None
      | Some claims \<Rightarrow>
          (case Sign (rq_jwt r) (jwtService h) (rq_now r) claims of
             None \<Rightarrow> None
           | Some accessToken \<Rightarrow> Some \<lparr>AccessToken = accessToken, RefreshToken = [], TokenType = ''Bearer'',
               ExpiresIn = expSeconds (jwtService h), RespUser = None\<rparr>))"

definition exchangeAPIKey :: "AuthHandler \<Rightarrow> request \<Rightarrow> string \<Rightarrow> db \<Rightarrow> AuthResponse answer \<times> db" where
  "exchangeAPIKey h r apiKey d =
     (if apiKey = [] then (Inl (400, errMissingAPIKey), d)
      else case rq_pool r of
          Some e \<Rightarrow> (Inl (poolFailure e), d)
        | None \<Rightarrow>
            (case APIKeyByHash (rq_sha r apiKey) d of
               Inl _ \<Rightarrow> (Inl (401, errInvalidAPIKey), d)
             | Inr key \<Rightarrow>
                 if key_Type key = ''secret'' \<and> key_CreatedBy key \<noteq> None then (Inl (401, errInvalidAPIKey), d)
                 else
                   let d1 = TouchAPIKey (rq_sql r) (key_ID key) d in
                   (case generateAPIKeyAuthResponse h r (key_ID key) (key_Type key) of
                      None \<Rightarrow> (Inl (500, errTokenGeneration), d1)
                    | Some resp \<Rightarrow> (Inr resp, d1))))"

section \<open>Validation and sign-out\<close>

datatype validation = Invalid string | Valid string string string "string option" "int option"

definition Validate :: "AuthHandler \<Rightarrow> request \<Rightarrow> string \<Rightarrow> validation" where
  "Validate h r tok =
     (case Verify (rq_jwt r) (jwtService h) (rq_now r) tok of
        None \<Rightarrow> Invalid ''token''
      | Some claims \<Rightarrow>
          if \<not> IsAccess claims then Invalid ''not an access token''
          else if c_ProjectID claims \<noteq> rq_project r then Invalid ''token project mismatch''
          else Valid (c_Sub claims) (c_ProjectID claims) (c_Role claims)
            (nullif (c_Email claims) []) (nullif (c_UserID claims) 0))"

definition requireEndUser :: "request \<Rightarrow> Claims answer" where
  "requireEndUser r =
     (case rq_claims r of
        None \<Rightarrow> Inl (401, ''missing_token'')
      | Some claims \<Rightarrow>
          if c_ProjectID claims \<noteq> rq_project r then Inl (403, ''token_project_mismatch'')
          else if \<not> IsAccess claims \<or> c_UserID claims = 0 \<or> c_Scope claims \<noteq> ''authenticated'' then Inl (403, ''insufficient_scope'')
          else Inr claims)"

definition userAPISettings :: "request \<Rightarrow> ProjectInfo answer" where
  "userAPISettings r =
     (case rq_fresh r of
        None \<Rightarrow> Inl (503, errSettingsUnreadable)
      | Some info \<Rightarrow> if \<not> pi_UserAPIEnabled info then Inl (404, codeMethodOff) else Inr info)"

definition logoutLocal :: "request \<Rightarrow> string \<Rightarrow> db \<Rightarrow> unit answer \<times> db" where
  "logoutLocal r refreshToken d =
     (case rq_pool r of
        Some e \<Rightarrow> (Inl (poolFailure e), d)
      | None \<Rightarrow> (Inr (), RevokeRefreshToken (rq_sha r refreshToken) d))"

definition logoutScoped :: "request \<Rightarrow> Claims \<Rightarrow> string \<Rightarrow> string \<Rightarrow> db \<Rightarrow> unit answer \<times> db" where
  "logoutScoped r claims scope refreshToken d =
     (case rq_pool r of
        Some e \<Rightarrow> (Inl (poolFailure e), d)
      | None \<Rightarrow>
          if scope = ''global'' then (Inr (), RevokeUserRefreshTokens (rq_sql r) (c_UserID claims) d)
          else (case RefreshTokenState (rq_sha r refreshToken) d of
              Inl _ \<Rightarrow> (Inl (400, errInvalidRefreshToken), d)
            | Inr state \<Rightarrow>
                if st_Revoked state \<or> st_UserID state \<noteq> c_UserID claims then (Inl (400, errInvalidRefreshToken), d)
                else (Inr (), RevokeOtherSessions (c_UserID claims) (st_FamilyID state) d)))"

definition Logout :: "request \<Rightarrow> string \<Rightarrow> string \<Rightarrow> db \<Rightarrow> unit answer \<times> db" where
  "Logout r scope refreshToken d =
     (if scope = [] \<or> scope = ''local'' then logoutLocal r refreshToken d
      else if scope = ''others'' \<or> scope = ''global''
      then (case userAPISettings r of
          Inl f \<Rightarrow> (Inl f, d)
        | Inr _ \<Rightarrow>
            (case rq_claims r of
               None \<Rightarrow> (Inl (401, ''invalid or expired token''), d)
             | Some _ \<Rightarrow>
                 (case requireEndUser r of
                    Inl f \<Rightarrow> (Inl f, d)
                  | Inr claims \<Rightarrow> logoutScoped r claims scope refreshToken d)))
      else (Inl (400, ''invalid_scope''), d))"

section \<open>Facts\<close>

text \<open>A session that started: the claims were granted, and one row under the drawn token's hash was stored.\<close>

lemma startSession_Inr:
  assumes "startSession h r user roles ev session d = (Inr resp, d')"
  obtains claims d1 plaintext where "claims_of r user roles ev claims" "audit_only d d1" "rq_token r = Some plaintext"
    "InsertRefreshToken (rq_sql r) (rq_sha r plaintext) (ui_ID user) session d1 = (Inr (), d')"
    "Sign (rq_jwt r) (jwtService h) (rq_now r) (session_claims r claims session) = Some (AccessToken resp)"
    "RefreshToken resp = plaintext" "RespUser resp = Some user"
proof -
  obtain x d1 where acc: "accessClaims h r user roles ev d = (x, d1)" by (cases "accessClaims h r user roles ev d")
  with assms obtain claims where x: "x = Inr claims" by (cases x) (auto simp: startSession_def)
  obtain y d2 where st: "storeRefreshToken r (ui_ID user) session d1 = (y, d2)"
    by (cases "storeRefreshToken r (ui_ID user) session d1")
  from assms acc x st obtain plaintext where y: "y = Some plaintext"
    by (cases y) (auto simp: startSession_def split: if_splits)
  from assms acc x st y have sign: "signSession h r claims user plaintext session = Some resp" and d2: "d2 = d'"
    by (auto simp: startSession_def split: if_splits option.splits)
  from st y d2 have "rq_token r = Some plaintext"
    "InsertRefreshToken (rq_sql r) (rq_sha r plaintext) (ui_ID user) session d1 = (Inr (), d')"
    by (auto simp: storeRefreshToken_def split: option.splits prod.splits sum.splits)
  moreover have "claims_of r user roles ev claims" "audit_only d d1"
    using accessClaims_Inr [of h r user roles ev d claims] audit_only_accessClaims [of d h r user roles ev] acc x by simp_all
  moreover have "Sign (rq_jwt r) (jwtService h) (rq_now r) (session_claims r claims session) = Some (AccessToken resp)"
    "RefreshToken resp = plaintext" "RespUser resp = Some user"
    using sign by (auto simp: signSession_def split: option.splits)
  ultimately show thesis using that by blast
qed

lemma InsertRefreshToken_Inr:
  assumes "InsertRefreshToken env hash uid session d = (Inr (), d')"
  shows "d' = d\<lparr>refresh_tokens := refresh_tokens d @
        [\<lparr>r_token_hash = hash, r_family_id = FamilyID session, r_user_id = uid,
          r_expiry_date = Expiry session, r_last_auth_at = AuthTime session, r_aal = LevelOf (AAL session),
          r_amr = JoinAMR (AMR session), r_created_at = sql_now env, r_revoked = False\<rparr>]\<rparr>"
    "uid \<in> set (user_ids d)" "hash \<notin> r_token_hash ` set (refresh_tokens d)"
  using assms by (auto simp: InsertRefreshToken_def insertRefreshToken_def exists_where_iff split: if_splits)

lemma TouchLastLogin_fields [simp]:
  "refresh_tokens (TouchLastLogin env uid d) = refresh_tokens d"
  "user_ids (TouchLastLogin env uid d) = user_ids d"
  by (simp_all add: TouchLastLogin_def user_ids_update)

lemma AccountByEmail_Inr:
  "AccountByEmail email d = Inr a \<Longrightarrow> \<exists>u \<in> set (users d). u_email u = Some email \<and> a = account_of u"
  by (auto simp: AccountByEmail_def split: option.splits dest: find_Some_mem)

lemma RefreshTokenState_of:
  assumes "wf_db d" "x \<in> set (refresh_tokens d)"
  shows "RefreshTokenState (r_token_hash x) d = Inr \<lparr>st_Revoked = r_revoked x, st_FamilyID = r_family_id x, st_UserID = r_user_id x\<rparr>"
proof -
  have "List.find (\<lambda>r. r_token_hash r = r_token_hash x) (refresh_tokens d) = Some x"
    using assms by (auto simp: wf_db_def wf_sessions_def intro!: find_Some_unique)
  then show ?thesis by (simp add: RefreshTokenState_def)
qed

lemma rotate_spent:
  assumes "wf_db d" "x \<in> set (refresh_tokens d)" "r_revoked x"
  shows "RotateRefreshToken env (r_token_hash x) successor accept d = (Inl ErrNotFound, d)"
proof -
  have "\<forall>y \<in> set (refresh_tokens d). \<not> live_token env (r_token_hash x) y"
    using assms by (auto simp: live_token_def wf_db_def wf_sessions_def dest: unique_on_eq)
  then have "List.find (live_token env (r_token_hash x)) (refresh_tokens d) = None"
    by (simp add: find_None_iff)
  then show ?thesis by (simp add: RotateRefreshToken_def rotate_def)
qed

lemma refreshPreview_revoked:
  assumes "hookSettings r \<noteq> None" "RefreshTokenState hash d = Inr state" "st_Revoked state"
  shows "refreshPreview h r hash d = (Inr None, d)"
  using assms by (auto simp: refreshPreview_def)

lemma audit_only_refreshPreview: "audit_only d (snd (refreshPreview h r hash d))"
proof -
  have "audit_only d d1" if "accessClaims h r user roles ev d = (x, d1)" for user roles ev x d1
    using audit_only_accessClaims [of d h r user roles ev] that by simp
  then show ?thesis by (auto simp: refreshPreview_def split: option.splits sum.splits prod.splits if_splits)
qed

lemma RotateRefreshToken_Inr:
  assumes "RotateRefreshToken env presented successor accept d = (Inr (account, session), d')"
  obtains x u where "List.find (live_token env presented) (refresh_tokens d) = Some x" "user_by_id d (r_user_id x) = Some u"
    "account = (account_of u)\<lparr>a_PasswordHash := []\<rparr>" "accept account = None" "session = session_of x"
    "refresh_tokens d' = update_where (live_token env presented) (\<lambda>r. r\<lparr>r_revoked := True\<rparr>) (refresh_tokens d) @
        [\<lparr>r_token_hash = successor, r_family_id = r_family_id x, r_user_id = r_user_id x, r_expiry_date = r_expiry_date x,
          r_last_auth_at = r_last_auth_at x, r_aal = LevelOf (r_aal x), r_amr = JoinAMR (SplitAMR (r_amr x)),
          r_created_at = sql_now env, r_revoked = False\<rparr>]"
proof (rule rotate_Inr [OF assms [unfolded RotateRefreshToken_def]])
  fix x u
  assume *: "List.find (live_token env presented) (refresh_tokens d) = Some x" "user_by_id d (r_user_id x) = Some u"
    "account = (account_of u)\<lparr>a_PasswordHash := []\<rparr>"
    and shape: "(case accept account of None \<Rightarrow> Inr (session_of x) | Some e \<Rightarrow> Inl e) = Inr session"
    and d': "d' = d\<lparr>refresh_tokens :=
        update_where (live_token env presented) (\<lambda>r. r\<lparr>r_revoked := True\<rparr>) (refresh_tokens d) @
        [\<lparr>r_token_hash = successor, r_family_id = FamilyID session, r_user_id = r_user_id x,
          r_expiry_date = Expiry session, r_last_auth_at = r_last_auth_at x,
          r_aal = LevelOf (AAL session), r_amr = JoinAMR (AMR session),
          r_created_at = sql_now env, r_revoked = False\<rparr>]\<rparr>"
  have acc: "accept account = None" using shape by (cases "accept account") simp_all
  then have ses: "session = session_of x" using shape by simp
  show thesis by (rule that [OF * acc ses]) (simp add: d' ses session_of_def)
qed

text \<open>The steps of a refresh that went through.\<close>

lemma refreshPreview_Some:
  assumes "refreshPreview h r hash d = (Inr (Some (built, claims)), d1)"
  obtains state where "RefreshTokenState hash d = Inr state" "AccountByID (st_UserID state) d = Inr built"
    "claims_of r (userInfoOf built) (roles_of built) (a_EmailVerified built) claims"
proof -
  from assms obtain state where state: "RefreshTokenState hash d = Inr state"
    by (auto simp: refreshPreview_def split: option.splits sum.splits if_splits)
  from assms state have acc: "AccountByID (st_UserID state) d = Inr built"
    and "accessClaims h r (userInfoOf built) (roles_of built) (a_EmailVerified built) d = (Inr claims, d1)"
    by (auto simp: refreshPreview_def split: option.splits sum.splits if_splits prod.splits)
  then show thesis using that state accessClaims_Inr [of h r "userInfoOf built" "roles_of built" "a_EmailVerified built" d claims]
    by simp
qed

lemma exchangeRefreshToken_Inr:
  assumes "exchangeRefreshToken h r tok d = (Inr resp, d')"
  obtains successor preview d1 account session claims where "rq_token r = Some successor"
    "refreshPreview h r (rq_sha r tok) d = (Inr preview, d1)"
    "RotateRefreshToken (rq_sql r) (rq_sha r tok) (rq_sha r successor)
       (\<lambda>account. case refresh_check h r preview account d1 of Inl (status, f) \<Rightarrow> Some (ErrRefused status f) | Inr _ \<Rightarrow> None) d1
       = (Inr (account, session), d')"
    "refresh_check h r preview account d1 = Inr claims" "signSession h r claims (userInfoOf account) successor session = Some resp"
proof -
  from assms have pool: "rq_pool r = None" by (cases "rq_pool r") (simp_all add: exchangeRefreshToken_def)
  from assms pool obtain successor where tk: "rq_token r = Some successor"
    by (cases "rq_token r") (simp_all add: exchangeRefreshToken_def)
  obtain x d1 where pre: "refreshPreview h r (rq_sha r tok) d = (x, d1)" by (cases "refreshPreview h r (rq_sha r tok) d")
  from assms pool tk pre obtain preview where x: "x = Inr preview" by (cases x) (simp_all add: exchangeRefreshToken_def)
  let ?accept = "\<lambda>account. case refresh_check h r preview account d1 of Inl (status, f) \<Rightarrow> Some (ErrRefused status f) | Inr _ \<Rightarrow> None"
  obtain y d2 where rot: "RotateRefreshToken (rq_sql r) (rq_sha r tok) (rq_sha r successor) ?accept d1 = (y, d2)"
    by (cases "RotateRefreshToken (rq_sql r) (rq_sha r tok) (rq_sha r successor) ?accept d1")
  note step = assms [unfolded exchangeRefreshToken_def pool tk option.case pre x sum.case prod.case rot]
  from step obtain account session where y: "y = Inr (account, session)"
    by (cases y) (auto split: store_error.splits prod.splits)
  from step y obtain claims where claims: "refresh_check h r preview account d1 = Inr claims"
    by (cases "refresh_check h r preview account d1") simp_all
  from step y claims have "signSession h r claims (userInfoOf account) successor session = Some resp" "d2 = d'"
    by (auto split: option.splits)
  with tk pre x rot y claims show thesis using that by blast
qed

section \<open>Properties\<close>

text \<open>C7: Presenting a spent refresh token again ends the session it belongs to. Whatever else the request carries,
  the answer is the refusal of a revoked token, afterwards no token of that session is usable, and every token of
  another session, and every other table, is as it was.\<close>

theorem refresh_reuse_ends_session:
  assumes "wf_db d" "rq_pool r = None" "rq_token r = Some successor" "hookSettings r \<noteq> None"
    and "x \<in> set (refresh_tokens d)" "r_revoked x" "rq_sha r tok = r_token_hash x"
  shows "\<exists>t. exchangeRefreshToken h r tok d = (Inl (401, errRefreshTokenRevoked), d\<lparr>refresh_tokens := t\<rparr>) \<and>
     length t = length (refresh_tokens d) \<and>
     (\<forall>y \<in> set t. r_family_id y = r_family_id x \<longrightarrow> r_revoked y) \<and>
     filter (\<lambda>y. r_family_id y \<noteq> r_family_id x) t = filter (\<lambda>y. r_family_id y \<noteq> r_family_id x) (refresh_tokens d)"
proof -
  note state = RefreshTokenState_of [OF assms(1,5)]
  have pre: "refreshPreview h r (r_token_hash x) d = (Inr None, d)"
    by (rule refreshPreview_revoked [OF assms(4) state]) (simp add: assms(6))
  have "exchangeRefreshToken h r tok d = (Inl (401, errRefreshTokenRevoked), RevokeRefreshFamily (r_family_id x) d)"
    by (simp add: exchangeRefreshToken_def assms pre rotate_spent rejectDeadRefreshToken_def state)
  moreover have "filter (\<lambda>y. r_family_id y \<noteq> r_family_id x)
      (update_where (\<lambda>y. r_family_id y = r_family_id x \<and> \<not> r_revoked y) (\<lambda>y. y\<lparr>r_revoked := True\<rparr>) t) =
      filter (\<lambda>y. r_family_id y \<noteq> r_family_id x) t" for t
    by (induction t) (auto simp: update_where_def)
  ultimately show ?thesis
    by (intro exI [of _ "update_where (\<lambda>y. r_family_id y = r_family_id x \<and> \<not> r_revoked y)
          (\<lambda>y. y\<lparr>r_revoked := True\<rparr>) (refresh_tokens d)"])
      (simp add: RevokeRefreshFamily_def revoke_where_def ball_update_where)
qed

lemma refreshAllowed_hashless: "refreshAllowed r (a\<lparr>a_PasswordHash := p\<rparr>) = refreshAllowed r a"
  by (simp add: refreshAllowed_def roles_of_def)

text \<open>Whether they were previewed or built at the rotation, the claims a refresh accepts are claims of the account the
  session belongs to.\<close>

lemma refresh_check_claims:
  assumes "wf_db d" "refreshPreview h r (rq_sha r tok) d = (Inr preview, d1)" "refresh_check h r preview account d1 = Inr claims"
    and "x \<in> set (refresh_tokens d)" "r_token_hash x = rq_sha r tok"
    and "user_by_id d (r_user_id x) = Some u" "account = (account_of u)\<lparr>a_PasswordHash := []\<rparr>"
  shows "claims_of r (userInfoOf (account_of u)) (roles_of (account_of u)) (u_email_verified u) claims"
proof -
  have alike: "userInfoOf account = userInfoOf (account_of u)" "roles_of account = roles_of (account_of u)"
    "a_EmailVerified account = u_email_verified u" "a_EmailVerified (account_of u) = u_email_verified u"
    by (simp_all add: assms(7) userInfoOf_def roles_of_def account_of_def)
  show ?thesis
  proof (cases preview)
    case None
    then have "fst (accessClaims h r (userInfoOf account) (roles_of account) (a_EmailVerified account) d1) = Inr claims"
      using assms(3) by (auto simp: refresh_check_def split: option.splits sum.splits)
    from accessClaims_Inr [OF this] show ?thesis by (simp add: alike)
  next
    case (Some p)
    then obtain built where p: "preview = Some (built, claims)"
      using assms(3) by (cases p) (auto simp: refresh_check_def split: option.splits if_splits)
    show ?thesis
    proof (rule refreshPreview_Some [OF assms(2) [unfolded p]])
      fix state assume st: "RefreshTokenState (rq_sha r tok) d = Inr state" "AccountByID (st_UserID state) d = Inr built"
        "claims_of r (userInfoOf built) (roles_of built) (a_EmailVerified built) claims"
      have "st_UserID state = r_user_id x"
        using RefreshTokenState_of [OF assms(1,4)] st(1) assms(5) by simp
      then have "built = account_of u" using st(2) assms(6) by (simp add: AccountByID_def)
      then show ?thesis using st(3) alike by simp
    qed
  qed
qed


definition sample_info :: ProjectInfo where
  "sample_info = \<lparr>pi_ProjectName = ''blog'', pi_OrgName = ''Acme'', pi_OrgSlug = ''acme'', pi_RequireEmailVerification = False,
     pi_SiteURL = ''https://x'', pi_RedirectURLs = [], pi_AllowNewUsers = None, pi_OAuthProviders = [], pi_EmailOTPEnabled = True,
     pi_UserAPIEnabled = True, pi_GuestSignInEnabled = Some True, pi_GuestCaptchaEnabled = False, pi_StableSubject = True,
     pi_MFAEnabled = True, pi_AuthHooks = None\<rparr>"

definition sample_request :: request where
  "sample_request = \<lparr>rq_sql = sample_env, rq_now = 100, rq_project = ''p'', rq_org = ''o'', rq_ip = ''10.0.0.1'', rq_claims = None,
     rq_pool = None, rq_open = True, rq_info = Some sample_info, rq_fresh = Some sample_info, rq_cached = Some sample_info,
     rq_token = Some ''t2'', rq_uuid = ''f9'', rq_sha = (\<lambda>s. s), rq_hash = (\<lambda>p. Inr p), rq_check = (\<lambda>p e. Some (p = e)),
     rq_jwt = \<lparr>es256_sign = (\<lambda>_. Some ''jwt''), es256_parse = (\<lambda>_ _. None)\<rparr>, rq_hook_secret = False,
     rq_access_hook = (\<lambda>_. None), rq_user_hook = (\<lambda>_. None), rq_json_length = (\<lambda>_. None),
     rq_url = (\<lambda>_. None), rq_relay = (\<lambda>_. True), rq_mail_hook = (\<lambda>_. True), rq_parse_ip = (\<lambda>ip. Some (IPv4 ip)),
     rq_parse_address = Some, rq_uuid_parse = Some, rq_mfa = Some \<lparr>mk_aead = sample_aead, mk_mac = (\<lambda>s. s)\<rparr>,
     rq_hmac_sha1 = (\<lambda>_ _. replicate 20 (CHR 0x00)), rq_hmac_hex = (\<lambda>k m. m), rq_s256 = (\<lambda>s. s), rq_nonce = ''n'',
     rq_secret = Some ''s'', rq_draws = [], rq_code_draw = Some 0, rq_flow = None, rq_provider_secret = (\<lambda>_. None),
     rq_identify = (\<lambda>_ _ _ _. Inl identify_failed)\<rparr>"

definition sample_handler :: AuthHandler where
  "sample_handler = NewAuthHandler sample_service 3600 (Some ''k'') ''https://x'' False"

definition sample_spent_db :: db where
  "sample_spent_db = sample_db\<lparr>refresh_tokens := [sample_token\<lparr>r_revoked := True\<rparr>, sample_token\<lparr>r_token_hash := ''t3''\<rparr>]\<rparr>"

lemma wf_sample_spent_db: "wf_db sample_spent_db"
  by (simp add: sample_spent_db_def sample_defs wf_db_def wf_defs unique_on_def unique_some_def)

theorem refresh_reuse_ends_session_witness:
  "\<exists>t. exchangeRefreshToken sample_handler sample_request ''t1'' sample_spent_db =
      (Inl (401, errRefreshTokenRevoked), sample_spent_db\<lparr>refresh_tokens := t\<rparr>) \<and> (\<forall>y \<in> set t. r_family_id y = ''f1'' \<longrightarrow> r_revoked y)"
proof -
  have "rq_pool sample_request = None" "rq_token sample_request = Some ''t2''" "hookSettings sample_request \<noteq> None"
    by (simp_all add: sample_request_def hookSettings_def sample_info_def)
  moreover have "sample_token\<lparr>r_revoked := True\<rparr> \<in> set (refresh_tokens sample_spent_db)" by (simp add: sample_spent_db_def)
  ultimately show ?thesis
    using refresh_reuse_ends_session [OF wf_sample_spent_db, of sample_request "''t2''" "sample_token\<lparr>r_revoked := True\<rparr>" "''t1''" sample_handler]
    by (auto simp: sample_request_def sample_token_def)
qed

lemma refresh_sample_granted:
  "\<exists>resp d'. exchangeRefreshToken sample_handler sample_request ''t1'' sample_db = (Inr resp, d')"
proof -
  have "\<not> isl (fst (exchangeRefreshToken sample_handler sample_request ''t1'' sample_db))" by code_simp
  then show ?thesis by (cases "exchangeRefreshToken sample_handler sample_request ''t1'' sample_db"; cases "fst (exchangeRefreshToken sample_handler sample_request ''t1'' sample_db)") auto
qed



lemma password_sample_granted:
  "\<exists>resp d'. exchangePassword sample_handler sample_request ''a@b.c'' ''h'' sample_db = (Inr resp, d')"
proof -
  have "\<not> isl (fst (exchangePassword sample_handler sample_request ''a@b.c'' ''h'' sample_db))" by code_simp
  then show ?thesis
    by (cases "exchangePassword sample_handler sample_request ''a@b.c'' ''h'' sample_db";
        cases "fst (exchangePassword sample_handler sample_request ''a@b.c'' ''h'' sample_db)") auto
qed


section \<open>The API-key grant\<close>

text \<open>C11: What an API key buys. A granted exchange presented a live key of the project: a publishable key, or a secret
  key no account owns. The token it gets names the key and no account, has the public role and scope for a
  publishable key and the service role and scope for a secret one, and comes without a refresh token; of the stored
  state only the key's last use changes. An unknown, revoked or account-owned secret key gets one and the same
  answer and changes nothing.\<close>

theorem api_key_grant:
  assumes "wf_db d" "exchangeAPIKey h r apiKey d = (res, d')" "rq_pool r = None" "apiKey \<noteq> []"
  shows "case res of
      Inr resp \<Rightarrow> (\<exists>k \<in> set (api_keys d). \<exists>c. k_key_hash k = rq_sha r apiKey \<and> k_revoked_at k = None \<and>
          (k_key_type k = ''publishable'' \<and> c_Role c = RoleAnon \<and> c_Scope c = ''public'' \<or>
           k_key_type k = ''secret'' \<and> k_created_by k = None \<and> c_Role c = RoleService \<and> c_Scope c = ''service'') \<and>
          c_AllowedRoles c = [c_Role c] \<and> c_KeyID c = k_id k \<and> c_UserID c = 0 \<and> c_ProjectID c = rq_project r \<and> c_Email c = [] \<and>
          Sign (rq_jwt r) (jwtService h) (rq_now r) c = Some (AccessToken resp) \<and> RefreshToken resp = [] \<and>
          d' = d\<lparr>api_keys := update_where (\<lambda>y. y = k) (\<lambda>y. y\<lparr>k_last_used_at := Some (sql_now (rq_sql r))\<rparr>) (api_keys d)\<rparr>)
    | Inl e \<Rightarrow> (\<forall>k \<in> set (api_keys d). k_key_hash k = rq_sha r apiKey \<longrightarrow>
          k_revoked_at k \<noteq> None \<or> k_key_type k = ''secret'' \<and> k_created_by k \<noteq> None) \<longrightarrow> e = (401, errInvalidAPIKey) \<and> d' = d"
proof (cases "APIKeyByHash (rq_sha r apiKey) d")
  case (Inl e)
  then show ?thesis using assms by (simp add: exchangeAPIKey_def split: sum.split) auto
next
  case (Inr key)
  then obtain k where f: "List.find (\<lambda>k. k_key_hash k = rq_sha r apiKey \<and> k_revoked_at k = None) (api_keys d) = Some k"
    and key: "key = \<lparr>key_ID = k_id k, key_Type = k_key_type k, key_CreatedBy = k_created_by k\<rparr>"
    by (auto simp: APIKeyByHash_def split: option.splits)
  from f have k: "k \<in> set (api_keys d)" "k_key_hash k = rq_sha r apiKey" "k_revoked_at k = None"
    by (auto dest: find_Some_mem)
  show ?thesis
  proof (cases "k_key_type k = ''secret'' \<and> k_created_by k \<noteq> None")
    case True
    then show ?thesis using assms Inr key by (auto simp: exchangeAPIKey_def split: sum.split)
  next
    case owned: False
    have only: "update_where (\<lambda>y. k_id y = k_id k) g (api_keys d) = update_where (\<lambda>y. y = k) g (api_keys d)" for g
      using assms(1) k(1) by (auto simp: wf_db_def wf_keys_def unique_on_def update_where_def distinct_map dest: inj_onD)
    show ?thesis
    proof (cases res)
      case (Inr resp)
      from assms \<open>APIKeyByHash (rq_sha r apiKey) d = Inr key\<close> key owned Inr
      obtain c where c: "apiKeyClaims (rq_project r) (labelsFor r) (k_id k) (k_key_type k) = Some c"
        "Sign (rq_jwt r) (jwtService h) (rq_now r) c = Some (AccessToken resp)" "RefreshToken resp = []"
        and d': "d' = TouchAPIKey (rq_sql r) (k_id k) d"
        by (auto simp: exchangeAPIKey_def generateAPIKeyAuthResponse_def Let_def split: option.splits)
      from c(1) have "c_Role c = (if k_key_type k = ''publishable'' then RoleAnon else RoleService) \<and>
          c_Scope c = (if k_key_type k = ''publishable'' then ''public'' else ''service'') \<and> k_key_type k \<in> {''publishable'', ''secret''} \<and>
          c_AllowedRoles c = [c_Role c] \<and> c_KeyID c = k_id k \<and> c_UserID c = 0 \<and> c_ProjectID c = rq_project r \<and> c_Email c = []"
        by (auto simp: apiKeyClaims_def empty_claims_def split: if_splits)
      then show ?thesis
        using Inr k c d' only owned
        by (auto simp: TouchAPIKey_def intro!: bexI [of _ k] exI [of _ c])
    next
      case (Inl e)
      then show ?thesis using k owned by auto
    qed
  qed
qed

definition sample_key :: key_row where
  "sample_key = \<lparr>k_id = 1, k_key_hash = ''k1'', k_key_prefix = ''p'', k_key_type = ''publishable'', k_name = ''web'',
     k_created_by = None, k_created_at = 1, k_last_used_at = None, k_revoked_at = None\<rparr>"

definition sample_key_db :: db where
  "sample_key_db = sample_db\<lparr>api_keys := [sample_key], next_key := 2\<rparr>"

lemma wf_sample_key_db: "wf_db sample_key_db"
  by (simp add: sample_key_db_def sample_key_def sample_defs wf_db_def wf_defs unique_on_def unique_some_def)

lemma api_key_sample_granted:
  "\<exists>resp d'. exchangeAPIKey sample_handler sample_request ''k1'' sample_key_db = (Inr resp, d')"
proof -
  have "\<not> isl (fst (exchangeAPIKey sample_handler sample_request ''k1'' sample_key_db))" by code_simp
  then show ?thesis
    by (cases "exchangeAPIKey sample_handler sample_request ''k1'' sample_key_db";
        cases "fst (exchangeAPIKey sample_handler sample_request ''k1'' sample_key_db)") auto
qed

theorem api_key_grant_witness:
  "wf_db sample_key_db \<and> (\<exists>resp d'. exchangeAPIKey sample_handler sample_request ''k1'' sample_key_db = (Inr resp, d') \<and>
     RefreshToken resp = [] \<and> users d' = users sample_key_db)"
proof -
  from api_key_sample_granted obtain resp d' where
    g: "exchangeAPIKey sample_handler sample_request ''k1'' sample_key_db = (Inr resp, d')" by blast
  have "rq_pool sample_request = None" "''k1'' \<noteq> []" by (simp_all add: sample_request_def)
  from api_key_grant [OF wf_sample_key_db g this] have "RefreshToken resp = [] \<and> users d' = users sample_key_db"
    by (simp only: sum.case) (elim bexE exE conjE, simp)
  then show ?thesis using g wf_sample_key_db by blast
qed

end
