(* ===== verification/Service.thy ===== *)
theory Service
  imports HandlerSessions RateLimit
begin

text \<open>
  The state one instance of the service holds beside the project's database: the request limiters
  (\<open>internal/middleware/rate_limit.go\<close>), the two mail throttles, and the mail handed over for delivery
  (\<open>internal/handler/auth_hooks.go\<close>, \<open>site_url.go\<close>, \<open>email_verification.go\<close>). A route's limiter wraps its
  handler: it is given the handler as a function on this state. The limiters read the clock of the request.
\<close>

section \<open>State\<close>

record RateLimitConfig =
  Window :: duration
  RegisterPerIP :: int
  LoginPerIP :: int
  TokenPerIP :: int
  RegisterPerProject :: int
  LoginFailures :: int
  FailureLockWindow :: duration
  OTPPerIP :: int

record RateLimits =
  registerIP :: limiter
  loginIP :: limiter
  tokenIP :: limiter
  registerProject :: limiter
  loginFailures :: limiter
  otpIP :: limiter

definition NewRateLimits :: "RateLimitConfig \<Rightarrow> time \<Rightarrow> RateLimits" where
  "NewRateLimits cfg now =
     \<lparr>registerIP = New (RegisterPerIP cfg) (Window cfg) now, loginIP = New (LoginPerIP cfg) (Window cfg) now,
      tokenIP = New (TokenPerIP cfg) (Window cfg) now, registerProject = New (RegisterPerProject cfg) (Window cfg) now,
      loginFailures = New (LoginFailures cfg) (FailureLockWindow cfg) now, otpIP = New (OTPPerIP cfg) (Window cfg) now\<rparr>"

text \<open>A message is handed to the relay or to the project's own hook.\<close>

datatype channel = Relay | Hook

record service =
  sv_db :: db
  sv_limits :: "RateLimits option"
  sv_resend :: throttle
  sv_forgot :: throttle
  sv_mail :: "(channel \<times> Message) list"

definition on_db :: "(db \<Rightarrow> 'a \<times> db) \<Rightarrow> service \<Rightarrow> 'a \<times> service" where
  "on_db f s = (let (x, d) = f (sv_db s) in (x, s\<lparr>sv_db := d\<rparr>))"

text \<open>The status an answer is sent with; the middleware only tells 2xx from the rest.\<close>

fun status_of :: "'a answer \<Rightarrow> nat" where
  "status_of (Inl (status, _)) = status"
| "status_of (Inr _) = 200"

section \<open>Route limits\<close>

definition reject :: "'a answer" where
  "reject = Inl (429, codeRateLimited)"

definition limitRegister :: "request \<Rightarrow> (service \<Rightarrow> 'a answer \<times> service) \<Rightarrow> service \<Rightarrow> 'a answer \<times> service" where
  "limitRegister r next s =
     (case sv_limits s of
        None \<Rightarrow> next s
      | Some rl \<Rightarrow>
          let (decision, l) = Allow (rq_now r) (rq_ip r) (registerIP rl); rl1 = rl\<lparr>registerIP := l\<rparr> in
          if Blocked decision then (reject, s\<lparr>sv_limits := Some rl1\<rparr>)
          else if rq_project r = [] then next (s\<lparr>sv_limits := Some rl1\<rparr>)
          else
            let (decision', l') = Allow (rq_now r) (rq_project r) (registerProject rl1); rl2 = rl1\<lparr>registerProject := l'\<rparr> in
            if Blocked decision' then (reject, s\<lparr>sv_limits := Some rl2\<rparr>) else next (s\<lparr>sv_limits := Some rl2\<rparr>))"

definition limitGuest :: "request \<Rightarrow> (service \<Rightarrow> 'a answer \<times> service) \<Rightarrow> service \<Rightarrow> 'a answer \<times> service" where
  "limitGuest r next s =
     (case sv_limits s of
        None \<Rightarrow> next s
      | Some rl \<Rightarrow>
          let (decision, l) = Allow (rq_now r) (rq_ip r) (registerIP rl); s1 = s\<lparr>sv_limits := Some (rl\<lparr>registerIP := l\<rparr>)\<rparr> in
          if Blocked decision then (reject, s1) else next s1)"

definition limitOTP :: "request \<Rightarrow> (service \<Rightarrow> 'a answer \<times> service) \<Rightarrow> service \<Rightarrow> 'a answer \<times> service" where
  "limitOTP r next s =
     (case sv_limits s of
        None \<Rightarrow> next s
      | Some rl \<Rightarrow>
          let (decision, l) = Allow (rq_now r) (rq_ip r) (otpIP rl); s1 = s\<lparr>sv_limits := Some (rl\<lparr>otpIP := l\<rparr>)\<rparr> in
          if Blocked decision then (reject, s1) else next s1)"

text \<open>\<open>limits.AllowSignup\<close>, true where throttling is off.\<close>

definition AllowSignup :: "request \<Rightarrow> service \<Rightarrow> bool \<times> service" where
  "AllowSignup r s =
     (case sv_limits s of
        None \<Rightarrow> (True, s)
      | Some rl \<Rightarrow>
          let (decision, l) = Allow (rq_now r) (rq_project r) (registerProject rl)
          in (\<not> Blocked decision, s\<lparr>sv_limits := Some (rl\<lparr>registerProject := l\<rparr>)\<rparr>))"

definition PasswordLockedOut :: "request \<Rightarrow> string \<Rightarrow> service \<Rightarrow> bool \<times> service" where
  "PasswordLockedOut r address s =
     (case sv_limits s of
        None \<Rightarrow> (False, s)
      | Some rl \<Rightarrow>
          let (decision, l) = Exhausted (rq_now r) (IdentityKey (rq_sha r) address) (loginFailures rl)
          in (Blocked decision, s\<lparr>sv_limits := Some (rl\<lparr>loginFailures := l\<rparr>)\<rparr>))"

definition RecordPasswordCheck :: "request \<Rightarrow> string \<Rightarrow> bool \<Rightarrow> service \<Rightarrow> service" where
  "RecordPasswordCheck r address matched s =
     (case sv_limits s of
        None \<Rightarrow> s
      | Some rl \<Rightarrow>
          let key = IdentityKey (rq_sha r) address;
              l = (if matched then Reset key (loginFailures rl) else snd (Allow (rq_now r) key (loginFailures rl)))
          in s\<lparr>sv_limits := Some (rl\<lparr>loginFailures := l\<rparr>)\<rparr>)"

text \<open>Check before, charge after. The handler's own use of the limiters comes between the two, and \<open>sent\<close> is the status it
  answered with.\<close>

definition charge :: "request \<Rightarrow> string \<Rightarrow> nat \<Rightarrow> service \<Rightarrow> service" where
  "charge r key status s =
     (case sv_limits s of
        None \<Rightarrow> s
      | Some rl \<Rightarrow>
          if status = 401 \<or> status = 403
          then s\<lparr>sv_limits := Some (rl\<lparr>loginFailures := snd (Allow (rq_now r) key (loginFailures rl))\<rparr>)\<rparr>
          else if 200 \<le> status \<and> status < 300
          then s\<lparr>sv_limits := Some (rl\<lparr>loginFailures := Reset key (loginFailures rl)\<rparr>)\<rparr>
          else s)"

definition identityGuard :: "request \<Rightarrow> ('a answer \<Rightarrow> nat) \<Rightarrow> string \<Rightarrow> (service \<Rightarrow> 'a answer \<times> service) \<Rightarrow> service \<Rightarrow> 'a answer \<times> service" where
  "identityGuard r sent identity next s =
     (case sv_limits s of
        None \<Rightarrow> next s
      | Some rl \<Rightarrow>
          let key = IdentityKey (rq_sha r) identity in
          if key = [] then next s
          else
            let (decision, l) = Exhausted (rq_now r) key (loginFailures rl);
                s1 = s\<lparr>sv_limits := Some (rl\<lparr>loginFailures := l\<rparr>)\<rparr>
            in if Blocked decision then (reject, s1)
               else (let (res, s2) = next s1 in (res, charge r key (sent res) s2)))"

definition limitLogin :: "request \<Rightarrow> string \<Rightarrow> (service \<Rightarrow> 'a answer \<times> service) \<Rightarrow> service \<Rightarrow> 'a answer \<times> service" where
  "limitLogin r email next s =
     (case sv_limits s of
        None \<Rightarrow> next s
      | Some rl \<Rightarrow>
          let (decision, l) = Allow (rq_now r) (rq_ip r) (loginIP rl); s1 = s\<lparr>sv_limits := Some (rl\<lparr>loginIP := l\<rparr>)\<rparr> in
          if Blocked decision then (reject, s1) else identityGuard r status_of email next s1)"

definition limitToken :: "request \<Rightarrow> ('a answer \<Rightarrow> nat) \<Rightarrow> string \<Rightarrow> string \<Rightarrow> (service \<Rightarrow> 'a answer \<times> service) \<Rightarrow> service \<Rightarrow> 'a answer \<times> service" where
  "limitToken r sent grantType email next s =
     (case sv_limits s of
        None \<Rightarrow> next s
      | Some rl \<Rightarrow>
          let (decision, l) = Allow (rq_now r) (rq_ip r) (tokenIP rl); s1 = s\<lparr>sv_limits := Some (rl\<lparr>tokenIP := l\<rparr>)\<rparr> in
          if Blocked decision then (reject, s1)
          else identityGuard r sent (if grantType \<noteq> ''password'' then [] else email) next s1)"

text \<open>
  A JSON body as the two readers of it see it. A handler takes the first value with \<open>json.Decoder\<close>, which leaves what follows
  it unread: the decoded request, or \<open>None\<close>. The limits look at the same bytes with \<open>json.Unmarshal\<close>, which finds the
  credentials in that value only where nothing but blanks follows it.
\<close>

record credentials =
  cr_Email :: string
  cr_GrantType :: string

record 'a json_body =
  jb_credentials :: credentials
  jb_request :: "'a option"
  jb_trailing :: bool

definition peekCredentials :: "'a json_body \<Rightarrow> credentials" where
  "peekCredentials body = (if jb_trailing body then \<lparr>cr_Email = [], cr_GrantType = []\<rparr> else jb_credentials body)"

definition with_request :: "'a json_body \<Rightarrow> ('a \<Rightarrow> service \<Rightarrow> 'b answer \<times> service) \<Rightarrow> service \<Rightarrow> 'b answer \<times> service" where
  "with_request body f s = (case jb_request body of None \<Rightarrow> (Inl (400, ''invalid request''), s) | Some req \<Rightarrow> f req s)"

text \<open>\<open>POST /login\<close> as it is mounted; the request is an address and a password.\<close>

definition Login :: "AuthHandler \<Rightarrow> request \<Rightarrow> (string \<times> string) json_body \<Rightarrow> service \<Rightarrow> AuthResponse answer \<times> service" where
  "Login h r body =
     limitLogin r (cr_Email (peekCredentials body)) (with_request body (\<lambda>(email, password). on_db (exchangePassword h r email password)))"

text \<open>The body that is one object with an address and a password, and nothing after it.\<close>

definition plain_login :: "string \<Rightarrow> string \<Rightarrow> (string \<times> string) json_body" where
  "plain_login email password =
     \<lparr>jb_credentials = \<lparr>cr_Email = email, cr_GrantType = []\<rparr>, jb_request = Some (email, password), jb_trailing = False\<rparr>"

lemma Login_plain: "Login h r (plain_login email password) = limitLogin r email (on_db (exchangePassword h r email password))"
  by (simp add: Login_def plain_login_def peekCredentials_def with_request_def [abs_def])

section \<open>Mail\<close>

definition isLoopbackHost :: "string \<Rightarrow> bool" where
  "isLoopbackHost host = (host = ''localhost'' \<or> host = ''127.0.0.1'' \<or> host = ''::1'')"

definition TrimRight :: "char \<Rightarrow> string \<Rightarrow> string" where
  "TrimRight c s = rev (dropWhile (\<lambda>x. x = c) (rev s))"

definition normalizeSiteURL :: "(string \<Rightarrow> url option) \<Rightarrow> string \<Rightarrow> string" where
  "normalizeSiteURL parse raw =
     (case parse (TrimSpace raw) of
        None \<Rightarrow> []
      | Some u \<Rightarrow>
          if url_Host u = [] \<or> url_User u \<or> url_RawQuery u \<noteq> [] \<or> url_Fragment u \<noteq> [] then []
          else if url_Scheme u = ''https'' \<or> url_Scheme u = ''http'' \<and> isLoopbackHost (url_Hostname u)
          then TrimRight (CHR ''/'') (url_String u) else [])"

record projectSettings =
  ps_requireEmailVerification :: bool
  ps_siteURL :: string

definition settingsFor :: "AuthHandler \<Rightarrow> request \<Rightarrow> projectSettings" where
  "settingsFor h r =
     (case rq_info r of
        None \<Rightarrow> \<lparr>ps_requireEmailVerification = False, ps_siteURL = siteURL h\<rparr>
      | Some info \<Rightarrow>
          let own = normalizeSiteURL (rq_url r) (pi_SiteURL info)
          in \<lparr>ps_requireEmailVerification = pi_RequireEmailVerification info,
              ps_siteURL = (if own \<noteq> [] then own else siteURL h)\<rparr>)"

text \<open>The hook's call runs after the answer; here it takes effect at once, so its audit row is part of the step.\<close>

definition sendMail :: "AuthHandler \<Rightarrow> request \<Rightarrow> Message \<Rightarrow> service \<Rightarrow> service" where
  "sendMail h r msg s =
     (case hookSettings r of
        None \<Rightarrow> s\<lparr>sv_db := hookFailure r ''send_email'' 0 (sv_db s)\<rparr>
      | Some settings \<Rightarrow>
          if SendEmail settings = []
          then (if rq_relay r msg then s\<lparr>sv_mail := sv_mail s @ [(Relay, msg)]\<rparr> else s)
          else if hook_reachable h r \<and> rq_mail_hook r msg then s\<lparr>sv_mail := sv_mail s @ [(Hook, msg)]\<rparr>
          else s\<lparr>sv_db := hookFailure r ''send_email'' 0 (sv_db s)\<rparr>)"

section \<open>Guesses at a password\<close>

text \<open>A sign-in by password as a query, and the identity it is counted for.\<close>

type_synonym login_query = "request \<times> string \<times> string"

definition login_key :: "login_query \<Rightarrow> string" where
  "login_key q = IdentityKey (rq_sha (fst q)) (fst (snd q))"

definition serve_login :: "AuthHandler \<Rightarrow> login_query \<Rightarrow> service \<Rightarrow> AuthResponse answer \<times> service" where
  "serve_login h q = Login h (fst q) (plain_login (fst (snd q)) (snd (snd q)))"

definition refused_sign_in :: "nat \<Rightarrow> bool" where
  "refused_sign_in status \<longleftrightarrow> status = 401 \<or> status = 403"

definition logins_where :: "(nat \<Rightarrow> bool) \<Rightarrow> string \<Rightarrow> login_query list \<Rightarrow> AuthResponse answer list \<Rightarrow> nat" where
  "logins_where P k qs as = length (filter (\<lambda>(q, a). login_key q = k \<and> P (status_of a)) (zip qs as))"

definition login_time :: "login_query \<Rightarrow> time" where
  "login_time q = rq_now (fst q)"

definition lock_of :: "service \<Rightarrow> limiter" where
  "lock_of s = loginFailures (the (sv_limits s))"

definition locking :: "time \<Rightarrow> service \<Rightarrow> bool" where
  "locking t s \<longleftrightarrow> sv_limits s \<noteq> None \<and> limiter_ok t (lock_of s)"

lemma limiter_ok_mono: "limiter_ok t l \<Longrightarrow> t \<le> now \<Longrightarrow> limiter_ok now l"
  by (fastforce simp: limiter_ok_def)

lemma status_not_both: "refused_sign_in n \<Longrightarrow> \<not> (200 \<le> n \<and> n < 300)"
  by (auto simp: refused_sign_in_def)

lemma on_db_limits [simp]: "sv_limits (snd (on_db f s)) = sv_limits s"
  by (simp add: on_db_def case_prod_beta Let_def)

lemma on_db_pair: "on_db f s = (fst (f (sv_db s)), s\<lparr>sv_db := snd (f (sv_db s))\<rparr>)"
  by (simp add: on_db_def case_prod_beta Let_def)

text \<open>One guarded answer: a refusal of the identity spends a unit of its credit, a success restores at most the whole.\<close>

lemma level_Reset_other: "k \<noteq> key \<Longrightarrow> level now k (Reset key l) = level now k l"
  by (simp add: level_def Reset_def split: option.split)

lemma level_Reset: "level now key (Reset key l) = limit l"
  by (simp add: level_def Reset_def)

lemma Reset_same [simp]: "limit (Reset key l) = limit l" "window (Reset key l) = window l"
  by (simp_all add: Reset_def)

lemma level_Exhausted:
  assumes "limiter_ok t l" "t \<le> now"
  shows "level now k (snd (Exhausted now key l)) = level now k l"
  using level_put_tokens [OF assms order_refl, of k key "level now key l"] level_bounds(2) [OF assms, of key]
  by (auto simp: Exhausted_eq [OF assms] Let_def min_def)

lemma level_spent:
  assumes "limiter_ok t l" "t \<le> now" "1 \<le> level now key l"
  shows "level now k (snd (Allow now key l)) = level now k l - (if k = key then 1 else 0)"
  using level_put_tokens [OF assms(1,2) order_refl, of k key "level now key l - 1"] level_bounds(2) [OF assms(1,2), of key] assms(3)
  by (auto simp: Allow_eq [OF assms(1,2)] Let_def min_def)

lemma not_Blocked_level:
  assumes "limiter_ok t l" "t \<le> now" "\<not> Blocked (fst (Exhausted now key l))"
  shows "1 \<le> level now key l"
  using assms(3) by (auto simp: Exhausted_eq [OF assms(1,2)] Let_def Blocked_def split: if_splits)

lemma charge_step:
  assumes "sv_limits s = Some rl" "limiter_ok t (loginFailures rl)" "t \<le> now" "1 \<le> level now key (loginFailures rl)" "rq_now r = now"
  shows "locking now (charge r key status s)" "limit (lock_of (charge r key status s)) = limit (loginFailures rl)"
    "window (lock_of (charge r key status s)) = window (loginFailures rl)"
    "level now k (lock_of (charge r key status s)) + (if k = key \<and> refused_sign_in status then 1 else 0)
      \<le> level now k (loginFailures rl) + (if k = key \<and> 200 \<le> status \<and> status < 300 then limit (loginFailures rl) else 0)"
proof -
  note ok = assms(2,3)
  note mono = limiter_ok_mono [OF ok]
  show "locking now (charge r key status s)"
    using assms(1,5) Allow_ok [OF ok, of key] Reset_ok [OF mono, of key] mono
    by (simp add: charge_def locking_def lock_of_def)
  show "limit (lock_of (charge r key status s)) = limit (loginFailures rl)"
    "window (lock_of (charge r key status s)) = window (loginFailures rl)"
    using assms(1) by (simp_all add: charge_def lock_of_def)
  show "level now k (lock_of (charge r key status s)) + (if k = key \<and> refused_sign_in status then 1 else 0)
      \<le> level now k (loginFailures rl) + (if k = key \<and> 200 \<le> status \<and> status < 300 then limit (loginFailures rl) else 0)"
    using assms(1,5) level_spent [OF ok assms(4), of k] level_Reset_other [of k key now "loginFailures rl"]
      level_Reset [of now key "loginFailures rl"] level_bounds(1) [OF ok, of key]
    by (auto simp: charge_def lock_of_def refused_sign_in_def)
qed

lemma identityGuard_step:
  fixes email :: string and handle :: "service \<Rightarrow> 'a answer \<times> service"
  assumes rl: "sv_limits s = Some rl" "limiter_ok t (loginFailures rl)" and le: "t \<le> now" and now: "rq_now r = now"
    and k: "k \<noteq> []" and handler: "\<And>s. sv_limits (snd (handle s)) = sv_limits s"
  defines "key \<equiv> IdentityKey (rq_sha r) email"
    and "res \<equiv> fst (identityGuard r status_of email handle s)" and "s' \<equiv> snd (identityGuard r status_of email handle s)"
  shows "locking now s' \<and> limit (lock_of s') = limit (loginFailures rl) \<and> window (lock_of s') = window (loginFailures rl) \<and>
    level now k (lock_of s') + (if key = k \<and> refused_sign_in (status_of res) then 1 else 0)
      \<le> level now k (loginFailures rl) + (if key = k \<and> 200 \<le> status_of res \<and> status_of res < 300 then limit (loginFailures rl) else 0)"
proof (cases "key = []")
  case True
  then have "sv_limits s' = Some rl" using rl handler by (simp add: s'_def key_def identityGuard_def)
  then show ?thesis using True k limiter_ok_mono [OF rl(2) le] by (simp add: locking_def lock_of_def)
next
  case key: False
  note ok = rl(2) le
  let ?l = "snd (Exhausted now key (loginFailures rl))"
  let ?s2 = "s\<lparr>sv_limits := Some (rl\<lparr>loginFailures := ?l\<rparr>)\<rparr>"
  note ok2 = Exhausted_ok [OF ok, of key]
  have lev: "level now k' ?l = level now k' (loginFailures rl)" for k' by (rule level_Exhausted [OF ok])
  show ?thesis
  proof (cases "Blocked (fst (Exhausted now key (loginFailures rl)))")
    case True
    then have "res = reject" "s' = ?s2"
      using rl key now by (simp_all add: res_def s'_def key_def identityGuard_def case_prod_beta Let_def)
    then show ?thesis using ok2 lev [of k] limiter_okD(1) [OF rl(2)]
      by (simp add: lock_of_def locking_def reject_def refused_sign_in_def)
  next
    case unlocked: False
    obtain x s3 where nx: "handle ?s2 = (x, s3)" by (cases "handle ?s2")
    have lim: "sv_limits s3 = Some (rl\<lparr>loginFailures := ?l\<rparr>)" using handler [of ?s2] nx by simp
    have run: "res = x" "s' = charge r key (status_of x) s3"
      using rl key now unlocked nx by (simp_all add: res_def s'_def key_def identityGuard_def case_prod_beta Let_def)
    have "limiter_ok now (loginFailures (rl\<lparr>loginFailures := ?l\<rparr>))" "1 \<le> level now key (loginFailures (rl\<lparr>loginFailures := ?l\<rparr>))"
      using ok2 not_Blocked_level [OF ok unlocked] lev by simp_all
    note cs = charge_step [OF lim this(1) order_refl this(2) now, where status = "status_of x", folded run(2)]
    show ?thesis
      using cs(1-3) cs(4) [of k] lev [of k] unfolding run(1) by (auto simp: eq_commute [of k])
  qed
qed

lemma login_step:
  fixes h :: AuthHandler
  assumes "locking t s" "t \<le> login_time q" "k \<noteq> []"
  defines "now \<equiv> login_time q" and "res \<equiv> fst (serve_login h q s)" and "s' \<equiv> snd (serve_login h q s)"
  shows "locking now s' \<and> limit (lock_of s') = limit (lock_of s) \<and> window (lock_of s') = window (lock_of s) \<and>
    level now k (lock_of s') + (if login_key q = k \<and> refused_sign_in (status_of res) then 1 else 0)
      \<le> level now k (lock_of s) + (if login_key q = k \<and> 200 \<le> status_of res \<and> status_of res < 300 then limit (lock_of s) else 0)"
proof -
  obtain r email password where q: "q = (r, email, password)" by (cases q)
  from assms(1) obtain rl where rl: "sv_limits s = Some rl" "limiter_ok t (loginFailures rl)"
    by (auto simp: locking_def lock_of_def)
  have le: "t \<le> now" and now: "rq_now r = now" using assms(2) q by (simp_all add: now_def login_time_def)
  let ?rl = "rl\<lparr>loginIP := snd (Allow now (rq_ip r) (loginIP rl))\<rparr>"
  let ?s1 = "s\<lparr>sv_limits := Some ?rl\<rparr>" and ?next = "on_db (exchangePassword h r email password)"
  have same: "lock_of s = loginFailures rl" and lk: "login_key q = IdentityKey (rq_sha r) email"
    using rl by (simp_all add: lock_of_def login_key_def q)
  have eq: "serve_login h q s = (if Blocked (fst (Allow now (rq_ip r) (loginIP rl))) then (reject, ?s1)
      else identityGuard r status_of email ?next ?s1)"
    using rl q now by (simp add: serve_login_def Login_plain limitLogin_def case_prod_beta Let_def)
  show ?thesis
  proof (cases "Blocked (fst (Allow now (rq_ip r) (loginIP rl)))")
    case True
    then show ?thesis using eq rl same limiter_ok_mono [OF rl(2) le] limiter_okD(1) [OF rl(2)]
      by (simp add: s'_def res_def lock_of_def locking_def reject_def refused_sign_in_def)
  next
    case False
    have "sv_limits ?s1 = Some ?rl" "limiter_ok t (loginFailures ?rl)" using rl by simp_all
    note step = identityGuard_step [OF this le now assms(3), of ?next email, OF on_db_limits]
    have run: "serve_login h q s = identityGuard r status_of email ?next ?s1" and "loginFailures ?rl = loginFailures rl"
      using eq False by simp_all
    then show ?thesis using step unfolding s'_def res_def run same lk by (simp only:)
  qed
qed

fun logins_in_order :: "time \<Rightarrow> login_query list \<Rightarrow> bool" where
  "logins_in_order t [] = True"
| "logins_in_order t (q # qs) = (t \<le> login_time q \<and> logins_in_order (login_time q) qs)"

fun last_login :: "time \<Rightarrow> login_query list \<Rightarrow> time" where
  "last_login t [] = t"
| "last_login t (q # qs) = last_login (login_time q) qs"

lemma logins_where_Cons:
  "logins_where P k (q # qs) (a # as) = (if login_key q = k \<and> P (status_of a) then 1 else 0) + logins_where P k qs as"
  by (simp add: logins_where_def)

abbreviation accepted_sign_in :: "nat \<Rightarrow> bool" where
  "accepted_sign_in status \<equiv> 200 \<le> status \<and> status < 300"

lemma login_run:
  assumes "locking t s" "logins_in_order t qs" "k \<noteq> []"
  shows "of_nat (logins_where refused_sign_in k qs (fst (serve (serve_login h) qs s)))
    \<le> level t k (lock_of s) + of_nat (logins_where accepted_sign_in k qs (fst (serve (serve_login h) qs s))) * limit (lock_of s)
      + of_int (last_login t qs - t) / of_int (window (lock_of s)) * limit (lock_of s)"
  using assms(1,2)
proof (induction qs arbitrary: t s)
  case Nil
  then show ?case using level_bounds(1) [of t "lock_of s" t k] by (simp add: logins_where_def locking_def)
next
  case (Cons q qs)
  let ?now = "login_time q" and ?s = "snd (serve_login h q s)" and ?a = "fst (serve_login h q s)"
  let ?as = "fst (serve (serve_login h) qs ?s)" and ?L = "limit (lock_of s)" and ?W = "of_int (window (lock_of s)) :: rat"
  have le: "t \<le> ?now" using Cons.prems by simp
  note step = login_step [OF Cons.prems(1) le assms(3), where h = h]
  from step have IH: "of_nat (logins_where refused_sign_in k qs ?as)
      \<le> level ?now k (lock_of ?s) + of_nat (logins_where accepted_sign_in k qs ?as) * ?L + of_int (last_login ?now qs - ?now) / ?W * ?L"
    using Cons.IH [of ?now ?s] Cons.prems by simp
  have grow: "level ?now k (lock_of s) \<le> level t k (lock_of s) + of_int (?now - t) / ?W * ?L"
    using level_later [of t "lock_of s" t ?now k] Cons.prems(1) le by (simp add: locking_def)
  have split: "of_int (last_login ?now qs - t) / ?W * ?L = of_int (?now - t) / ?W * ?L + of_int (last_login ?now qs - ?now) / ?W * ?L"
    by (simp add: algebra_simps add_divide_distrib diff_divide_distrib)
  show ?case
    using step IH grow split by (auto simp: logins_where_Cons algebra_simps split: if_splits)
qed


text \<open>The bound needs the body to end with its object. The lock reads the whole body and takes a body it cannot parse for one
  without an address, while the handler decodes the first value and goes on: with anything after the object the
  credentials are checked however often the identity was refused, and the refusal is not counted.\<close>

theorem trailing_data_skips_lock:
  assumes "jb_trailing body" "jb_request body = Some (email, password)" "sv_limits s = Some rl"
    and "\<not> Blocked (fst (Allow (rq_now r) (rq_ip r) (loginIP rl)))"
  shows "fst (Login h r body s) = fst (exchangePassword h r email password (sv_db s))" "lock_of (snd (Login h r body s)) = lock_of s"
  using assms
  by (simp_all add: Login_def peekCredentials_def limitLogin_def identityGuard_def IdentityKey_def ToLower_def with_request_def on_db_def lock_of_def
      case_prod_beta Let_def)

definition sample_config :: RateLimitConfig where
  "sample_config = \<lparr>Window = minute, RegisterPerIP = 5, LoginPerIP = 10, TokenPerIP = 30, RegisterPerProject = 100,
     LoginFailures = 5, FailureLockWindow = 15 * minute, OTPPerIP = 10\<rparr>"

definition sample_service_state :: service where
  "sample_service_state = \<lparr>sv_db = sample_db, sv_limits = Some (NewRateLimits sample_config 100),
     sv_resend = throttle_New 3 hour, sv_forgot = throttle_New 3 hour, sv_mail = []\<rparr>"

lemma locking_sample: "locking 100 sample_service_state"
  by (simp add: locking_def lock_of_def sample_service_state_def NewRateLimits_def sample_config_def limiter_ok_New)


end
