(* ===== verification/Actions.thy ===== *)
theory Actions
  imports Service
begin

text \<open>
  A handler as a sequence of steps over the service's state, each of which may answer early: \<open>andThen\<close> goes on with the
  value of a step, an error ends the request with the state as that step left it. The equations read a granted or a
  refused run off its steps, and \<open>keeps\<close> carries an invariant of the state through all of them.
\<close>

type_synonym ('e, 'a) steps = "service \<Rightarrow> ('e + 'a) \<times> service"
type_synonym 'a action = "(nat \<times> fault, 'a) steps"

section \<open>Steps\<close>

definition pass :: "'a \<Rightarrow> ('e, 'a) steps" where
  "pass x s = (Inr x, s)"

definition refuse :: "'e \<Rightarrow> ('e, 'a) steps" where
  "refuse e s = (Inl e, s)"

definition andThen :: "('e, 'a) steps \<Rightarrow> ('a \<Rightarrow> ('e, 'b) steps) \<Rightarrow> ('e, 'b) steps" where
  "andThen m f s = (case m s of (Inl e, s1) \<Rightarrow> (Inl e, s1) | (Inr x, s1) \<Rightarrow> f x s1)"

definition require :: "bool \<Rightarrow> 'e \<Rightarrow> ('e, unit) steps" where
  "require b e = (if b then pass () else refuse e)"

definition attempt :: "'e + 'a \<Rightarrow> ('e, 'a) steps" where
  "attempt x s = (x, s)"

text \<open>An operation on the database, its errors answered by the given rule; one that cannot fail; a read.\<close>

definition on_store :: "('x \<Rightarrow> 'e) \<Rightarrow> (db \<Rightarrow> ('x + 'a) \<times> db) \<Rightarrow> ('e, 'a) steps" where
  "on_store answer f s =
     (case f (sv_db s) of (Inl e, d) \<Rightarrow> (Inl (answer e), s\<lparr>sv_db := d\<rparr>) | (Inr x, d) \<Rightarrow> (Inr x, s\<lparr>sv_db := d\<rparr>))"

definition change :: "(service \<Rightarrow> service) \<Rightarrow> ('e, unit) steps" where
  "change f s = (Inr (), f s)"

definition change_db :: "(db \<Rightarrow> db) \<Rightarrow> ('e, unit) steps" where
  "change_db f = change (\<lambda>s. s\<lparr>sv_db := f (sv_db s)\<rparr>)"

definition reading :: "(db \<Rightarrow> 'e + 'a) \<Rightarrow> ('e, 'a) steps" where
  "reading f s = (f (sv_db s), s)"

text \<open>The project's database, or the answer to a pool that cannot serve it (\<open>storeFor\<close>).\<close>

definition storeFor :: "request \<Rightarrow> unit action" where
  "storeFor r = (case rq_pool r of Some e \<Rightarrow> refuse (poolFailure e) | None \<Rightarrow> pass ())"

definition map_error :: "('e \<Rightarrow> 'f) \<Rightarrow> 'e + 'a \<Rightarrow> 'f + 'a" where
  "map_error f x = (case x of Inl e \<Rightarrow> Inl (f e) | Inr y \<Rightarrow> Inr y)"

section \<open>Reading a run off its steps\<close>

named_theorems granted \<open>what a step that went on was and left\<close>

lemma andThen_Inr [granted]:
  "andThen m f s = (Inr y, s') \<longleftrightarrow> (\<exists>x s1. m s = (Inr x, s1) \<and> f x s1 = (Inr y, s'))"
  by (auto simp: andThen_def split: prod.splits sum.splits)

lemma andThen_Inl:
  "andThen m f s = (Inl e, s') \<longleftrightarrow> m s = (Inl e, s') \<or> (\<exists>x s1. m s = (Inr x, s1) \<and> f x s1 = (Inl e, s'))"
  by (auto simp: andThen_def split: prod.splits sum.splits)

lemma pass_Inr [granted]: "pass x s = (Inr y, s') \<longleftrightarrow> y = x \<and> s' = s"
  by (auto simp: pass_def)

lemma refuse_Inr [granted]: "refuse e s = (Inr y, s') \<longleftrightarrow> False"
  by (simp add: refuse_def)

lemma require_Inr [granted]: "require b e s = (Inr u, s') \<longleftrightarrow> b \<and> s' = s"
  by (auto simp: require_def pass_def refuse_def)

lemma attempt_Inr [granted]: "attempt x s = (Inr y, s') \<longleftrightarrow> x = Inr y \<and> s' = s"
  by (auto simp: attempt_def)

lemma on_store_Inr [granted]:
  "on_store answer f s = (Inr x, s') \<longleftrightarrow> (\<exists>d. f (sv_db s) = (Inr x, d) \<and> s' = s\<lparr>sv_db := d\<rparr>)"
  by (auto simp: on_store_def split: prod.splits sum.splits)

lemma change_Inr [granted]: "change f s = (Inr u, s') \<longleftrightarrow> s' = f s"
  by (auto simp: change_def)

lemma change_db_Inr [granted]: "change_db f s = (Inr u, s') \<longleftrightarrow> s' = s\<lparr>sv_db := f (sv_db s)\<rparr>"
  by (auto simp: change_db_def change_def)

lemma reading_Inr [granted]: "reading f s = (Inr x, s') \<longleftrightarrow> f (sv_db s) = Inr x \<and> s' = s"
  by (auto simp: reading_def)

lemma storeFor_Inr [granted]: "storeFor r s = (Inr u, s') \<longleftrightarrow> rq_pool r = None \<and> s' = s"
  by (auto simp: storeFor_def pass_def refuse_def split: option.splits)

lemma map_error_Inr [granted]: "map_error f x = Inr y \<longleftrightarrow> x = Inr y"
  by (auto simp: map_error_def split: sum.splits)

lemma not_isl_run: "\<not> isl (fst p) \<Longrightarrow> \<exists>x s. p = (Inr x, s)"
  by (cases p; cases "fst p") auto

text \<open>A step that changes nothing, whatever it answers; and a request that changes nothing and is refused unless \<open>P\<close> holds.\<close>

definition still :: "(service \<Rightarrow> 'a \<times> service) \<Rightarrow> bool" where
  "still m \<longleftrightarrow> (\<forall>s. snd (m s) = s)"

definition guarded :: "bool \<Rightarrow> ('e, 'a) steps \<Rightarrow> service \<Rightarrow> bool" where
  "guarded P m s \<longleftrightarrow> (\<forall>x s'. m s = (x, s') \<longrightarrow> isl x \<and> s' = s \<or> P)"

lemma still_steps:
  "still (pass x)" "still (refuse e)" "still (require b e)" "still (attempt y)" "still (reading g)" "still (storeFor r)"
  by (auto simp: still_def pass_def refuse_def require_def attempt_def reading_def storeFor_def split: option.split)

lemma still_andThen: "still m \<Longrightarrow> (\<And>x. still (f x)) \<Longrightarrow> still (andThen m f)"
  by (auto simp: still_def andThen_def split: prod.split sum.split) (metis snd_conv)+

lemma still_if: "still m \<Longrightarrow> still n \<Longrightarrow> still (if b then m else n)"
  by simp

lemma guarded_andThen:
  assumes "still m" "\<And>y. m s = (Inr y, s) \<Longrightarrow> guarded P (f y) s"
  shows "guarded P (andThen m f) s"
  unfolding guarded_def
proof (intro allI impI)
  fix x s'
  assume run: "andThen m f s = (x, s')"
  obtain y where m: "m s = (y, s)" using assms(1) by (metis still_def prod.collapse)
  then show "isl x \<and> s' = s \<or> P"
    using run assms(2) by (cases y) (auto simp: andThen_def guarded_def)
qed

lemma guarded_refuse: "guarded P (refuse e) s"
  by (simp add: guarded_def refuse_def)

lemma guarded_True: "P \<Longrightarrow> guarded P m s"
  by (simp add: guarded_def)

lemma guarded_option: "(x = None \<Longrightarrow> guarded P m s) \<Longrightarrow> (\<And>y. x = Some y \<Longrightarrow> guarded P (f y) s) \<Longrightarrow> guarded P (case x of None \<Rightarrow> m | Some y \<Rightarrow> f y) s"
  by (cases x) simp_all

section \<open>Invariants of the database\<close>

definition keeps :: "(db \<Rightarrow> bool) \<Rightarrow> (service \<Rightarrow> 'a \<times> service) \<Rightarrow> bool" where
  "keeps Q m \<longleftrightarrow> (\<forall>s. Q (sv_db s) \<longrightarrow> Q (sv_db (snd (m s))))"

named_theorems keeping \<open>steps that keep an invariant\<close>

lemma keepsD: "keeps Q m \<Longrightarrow> m s = (x, s') \<Longrightarrow> Q (sv_db s) \<Longrightarrow> Q (sv_db s')"
  by (metis keeps_def snd_conv)

lemma keeps_andThen [keeping]:
  assumes "keeps Q m" "\<And>x. keeps Q (f x)"
  shows "keeps Q (andThen m f)"
  using assms by (auto simp: keeps_def andThen_def split: prod.split sum.split)

lemma keeps_still [keeping]:
  "keeps Q (pass x)" "keeps Q (refuse e)" "keeps Q (require b e)" "keeps Q (attempt y)" "keeps Q (reading g)" "keeps Q (storeFor r)"
  by (auto simp: keeps_def pass_def refuse_def require_def attempt_def reading_def storeFor_def split: option.split)

lemma keeps_if [keeping]: "(b \<Longrightarrow> keeps Q m) \<Longrightarrow> (\<not> b \<Longrightarrow> keeps Q n) \<Longrightarrow> keeps Q (if b then m else n)"
  by simp

lemma keeps_option [keeping]:
  "(x = None \<Longrightarrow> keeps Q m) \<Longrightarrow> (\<And>y. x = Some y \<Longrightarrow> keeps Q (f y)) \<Longrightarrow> keeps Q (case x of None \<Rightarrow> m | Some y \<Rightarrow> f y)"
  by (cases x) simp_all

lemma keeps_prod [keeping]: "(\<And>a b. keeps Q (f a b)) \<Longrightarrow> keeps Q (case p of (a, b) \<Rightarrow> f a b)"
  by (cases p) simp

lemma keeps_let [keeping]: "(\<And>x. keeps Q (f x)) \<Longrightarrow> keeps Q (let x = y in f x)"
  by simp

lemma keeps_on_store: "(\<And>d. Q d \<Longrightarrow> Q (snd (f d))) \<Longrightarrow> keeps Q (on_store answer f)"
  by (auto simp: keeps_def on_store_def split: prod.split sum.split) (metis snd_conv)+

lemma keeps_change_db: "(\<And>d. Q d \<Longrightarrow> Q (f d)) \<Longrightarrow> keeps Q (change_db f)"
  by (simp add: keeps_def change_db_def change_def)

lemma keeps_change: "(\<And>s. Q (sv_db s) \<Longrightarrow> Q (sv_db (f s))) \<Longrightarrow> keeps Q (change f)"
  by (simp add: keeps_def change_def)

lemma keeps_on_db: "(\<And>d. Q d \<Longrightarrow> Q (snd (f d))) \<Longrightarrow> keeps Q (on_db f)"
  by (simp add: keeps_def on_db_def case_prod_beta Let_def)

lemma AllowSignup_db [simp]: "sv_db (snd (AllowSignup r s)) = sv_db s"
  by (simp add: AllowSignup_def case_prod_beta Let_def split: option.split)

text \<open>An invariant that audit rows cannot break is kept by everything that writes only those.\<close>

locale audit_proof =
  fixes Q :: "db \<Rightarrow> bool"
  assumes kept_audit: "audit_only d d' \<Longrightarrow> Q d \<Longrightarrow> Q d'"
begin

lemma kept_recordAudit: "Q d \<Longrightarrow> Q (recordAudit r u e m ip d)"
  by (rule kept_audit [OF audit_only_recordAudit])

lemma kept_recordAudits: "Q d \<Longrightarrow> Q (fold (\<lambda>u. recordAudit r u e m ip) us d)"
  by (induction us arbitrary: d) (simp_all add: kept_recordAudit)

lemma kept_sendMail: "Q (sv_db s) \<Longrightarrow> Q (sv_db (sendMail h r msg s))"
  by (auto simp: sendMail_def intro: kept_audit [OF audit_only_hookFailure] split: option.split)

lemma kept_allowNewUser: "Q d \<Longrightarrow> Q (snd (allowNewUser h r user d))"
  by (rule kept_audit [OF audit_only_allowNewUser])

lemma kept_guestUpgrade: "Q d \<Longrightarrow> Q (snd (guestUpgradeAllowed h r u p a d))"
  by (rule kept_audit [OF audit_only_guestUpgrade])

end

text \<open>One that storing a session cannot break either is kept wherever one starts.\<close>

locale session_proof = audit_proof +
  assumes kept_Insert: "Q d \<Longrightarrow> Q (snd (InsertRefreshToken env hash uid session d))"
    and kept_Touch: "Q d \<Longrightarrow> Q (TouchLastLogin env uid d)"
begin

lemma kept_storeRefreshToken: "Q d \<Longrightarrow> Q (snd (storeRefreshToken r uid session d))"
  using kept_Insert [of d "rq_sql r"] by (auto simp: storeRefreshToken_def split: option.split prod.split sum.split) (metis snd_conv)+

lemma kept_startSession: "Q d \<Longrightarrow> Q (snd (startSession h r user roles ev session d))"
proof -
  assume "Q d"
  obtain x d1 where acc: "accessClaims h r user roles ev d = (x, d1)" by (cases "accessClaims h r user roles ev d")
  have d1: "Q d1" using kept_audit [OF audit_only_accessClaims \<open>Q d\<close>, of h r user roles ev] acc by simp
  obtain y d2 where st: "storeRefreshToken r (ui_ID user) session d1 = (y, d2)" by (cases "storeRefreshToken r (ui_ID user) session d1")
  have "Q d2" using kept_storeRefreshToken [OF d1, of r "ui_ID user" session] st by simp
  then show ?thesis using d1 acc st by (auto simp: startSession_def split: sum.split option.split)
qed

lemma kept_generateAuthResponse: "Q d \<Longrightarrow> Q (snd (generateAuthResponse h r user roles ev m d))"
  by (simp add: generateAuthResponse_def kept_startSession)

end

interpretation wf_sessions_kept: session_proof wf_db
  by unfold_locales (simp_all add: wf_audit_only wf_insertRefreshToken InsertRefreshToken_def)

interpretation code_kept: session_proof "code_spent hash"
  by unfold_locales (auto simp: code_spent_def audit_only_fields InsertRefreshToken_def insertRefreshToken_def TouchLastLogin_def update_user_def)

end
