(* ===== verification/Text.thy ===== *)
theory Text
  imports Prelude
begin

text \<open>
  What the code uses of Go's text packages beyond ASCII: decoding UTF-8 as \<open>unicode/utf8\<close> does, where every byte
  that starts no valid sequence counts as one rune of its own, the rune classes \<open>unicode.IsSpace\<close> and
  \<open>unicode.IsControl\<close>, and \<open>url.QueryEscape\<close>. A string is its bytes.
\<close>

section \<open>UTF-8\<close>

definition continuation :: "nat \<Rightarrow> bool" where
  "continuation b = (0x80 \<le> b \<and> b \<le> 0xBF)"

text \<open>The rune at the front of the bytes and its width; \<open>None\<close>, of width one, where there is no valid sequence.\<close>

definition second_ok :: "nat \<Rightarrow> nat \<Rightarrow> bool" where
  "second_ok b0 b1 =
     (continuation b1 \<and> (b0 = 0xE0 \<longrightarrow> 0xA0 \<le> b1) \<and> (b0 = 0xED \<longrightarrow> b1 \<le> 0x9F) \<and> (b0 = 0xF0 \<longrightarrow> 0x90 \<le> b1) \<and> (b0 = 0xF4 \<longrightarrow> b1 \<le> 0x8F))"

definition DecodeRune :: "nat list \<Rightarrow> nat option \<times> nat" where
  "DecodeRune bs =
     (case bs of
        [] \<Rightarrow> (None, 1)
      | b0 # rest \<Rightarrow>
          if b0 < 0x80 then (Some b0, 1)
          else if 0xC2 \<le> b0 \<and> b0 \<le> 0xDF then
            (case rest of b1 # _ \<Rightarrow> if continuation b1 then (Some ((b0 - 0xC0) * 64 + (b1 - 0x80)), 2) else (None, 1) | _ \<Rightarrow> (None, 1))
          else if 0xE0 \<le> b0 \<and> b0 \<le> 0xEF then
            (case rest of
               b1 # b2 # _ \<Rightarrow>
                 if second_ok b0 b1 \<and> continuation b2
                 then (Some ((b0 - 0xE0) * 4096 + (b1 - 0x80) * 64 + (b2 - 0x80)), 3) else (None, 1)
             | _ \<Rightarrow> (None, 1))
          else if 0xF0 \<le> b0 \<and> b0 \<le> 0xF4 then
            (case rest of
               b1 # b2 # b3 # _ \<Rightarrow>
                 if second_ok b0 b1 \<and> continuation b2 \<and> continuation b3
                 then (Some ((b0 - 0xF0) * 262144 + (b1 - 0x80) * 4096 + (b2 - 0x80) * 64 + (b3 - 0x80)), 4) else (None, 1)
             | _ \<Rightarrow> (None, 1))
          else (None, 1))"

text \<open>Every round drops at least one byte.\<close>

fun runes_of :: "nat list \<Rightarrow> nat option list" where
  "runes_of [] = []"
| "runes_of (b # bs) = fst (DecodeRune (b # bs)) # runes_of (drop (snd (DecodeRune (b # bs)) - 1) bs)"

definition runes :: "string \<Rightarrow> nat option list" where
  "runes s = runes_of (map of_char s)"

definition RuneCountInString :: "string \<Rightarrow> nat" where
  "RuneCountInString s = length (runes s)"

definition ValidString :: "string \<Rightarrow> bool" where
  "ValidString s = list_all (\<lambda>x. x \<noteq> None) (runes s)"

text \<open>\<open>string([]rune(s)[:n])\<close> where \<open>s\<close> has more than \<open>n\<close> runes, else \<open>s\<close> itself. Bytes of no valid sequence come back as
  the replacement character, as the conversion writes them.\<close>

fun encode_runes :: "nat list \<Rightarrow> nat \<Rightarrow> nat list" where
  "encode_runes bs 0 = []"
| "encode_runes [] (Suc n) = []"
| "encode_runes (b # bs) (Suc n) =
     (case DecodeRune (b # bs) of
        (Some _, w) \<Rightarrow> take w (b # bs) @ encode_runes (drop w (b # bs)) n
      | (None, _) \<Rightarrow> [0xEF, 0xBF, 0xBD] @ encode_runes bs n)"

definition first_runes :: "nat \<Rightarrow> string \<Rightarrow> string" where
  "first_runes n s = (if RuneCountInString s > n then map char_of (encode_runes (map of_char s) n) else s)"

section \<open>Rune classes\<close>

definition IsSpace :: "nat option \<Rightarrow> bool" where
  "IsSpace x =
     (case x of
        None \<Rightarrow> False
      | Some n \<Rightarrow> 9 \<le> n \<and> n \<le> 13 \<or> n = 32 \<or> n = 0x85 \<or> n = 0xA0 \<or> n = 0x1680 \<or> 0x2000 \<le> n \<and> n \<le> 0x200A \<or>
          n = 0x2028 \<or> n = 0x2029 \<or> n = 0x202F \<or> n = 0x205F \<or> n = 0x3000)"

definition IsControl :: "nat option \<Rightarrow> bool" where
  "IsControl x = (case x of None \<Rightarrow> False | Some n \<Rightarrow> n < 32 \<or> 0x7F \<le> n \<and> n \<le> 0x9F)"

text \<open>\<open>strings.TrimSpace(s) == ""\<close>.\<close>

definition blank :: "string \<Rightarrow> bool" where
  "blank s = list_all IsSpace (runes s)"

definition contains_control :: "string \<Rightarrow> bool" where
  "contains_control s = list_ex IsControl (runes s)"

section \<open>Escaping\<close>

definition hex_digit :: "nat \<Rightarrow> char" where
  "hex_digit n = (if n < 10 then char_of (48 + n) else char_of (55 + n))"

definition query_char :: "char \<Rightarrow> string" where
  "query_char c =
     (if is_upper c \<or> is_lower c \<or> is_digit c \<or> c \<in> {CHR ''-'', CHR ''_'', CHR ''.'', CHR ''~''} then [c]
      else if c = CHR '' '' then ''+''
      else [CHR ''%'', hex_digit (of_char c div 16), hex_digit (of_char c mod 16)])"

definition QueryEscape :: "string \<Rightarrow> string" where
  "QueryEscape s = concat (map query_char s)"

section \<open>Facts\<close>

lemma DecodeRune_ascii: "b < 0x80 \<Longrightarrow> DecodeRune (b # bs) = (Some b, 1)"
  by (simp add: DecodeRune_def)

lemma runes_ascii: "list_all (\<lambda>b. b < 0x80) bs \<Longrightarrow> runes_of bs = map Some bs"
  by (induction bs) (simp_all add: DecodeRune_ascii)

lemma runes_of_length: "length (runes_of bs) \<le> length bs"
  by (induction bs rule: runes_of.induct) (use le_trans in \<open>force\<close>)+

lemma RuneCount_le: "RuneCountInString s \<le> length s"
  using runes_of_length [of "map of_char s"] by (simp add: RuneCountInString_def runes_def)

end
