(* ===== verification/Redirect.thy ===== *)
theory Redirect
  imports HandlerCore Text "HOL-Library.List_Lexorder" "HOL-Library.Char_ord"
begin

text \<open>
  Where a browser is sent back to (\<open>internal/oauth/redirect.go\<close>) and which providers a project switched on
  (\<open>internal/pool/sign_in_settings.go\<close>). URL parsing is the library's, a parameter; the query of a URL is modelled
  (\<open>url.ParseQuery\<close>, \<open>url.Values\<close>), since the code and errors handed to an app travel in it.
\<close>

section \<open>Queries\<close>

definition unhex :: "char \<Rightarrow> nat option" where
  "unhex c =
     (let n = of_char c in
      if is_digit c then Some (n - 48) else if 97 \<le> n \<and> n \<le> 102 then Some (n - 87)
      else if 65 \<le> n \<and> n \<le> 70 then Some (n - 55) else None)"

fun QueryUnescape :: "string \<Rightarrow> string option" where
  "QueryUnescape [] = Some []"
| "QueryUnescape (c # s) =
     (if c = CHR ''%'' then
        (case s of
           a # b # rest \<Rightarrow>
             (case (unhex a, unhex b) of
                (Some x, Some y) \<Rightarrow> map_option (Cons (char_of (16 * x + y))) (QueryUnescape rest)
              | _ \<Rightarrow> None)
         | _ \<Rightarrow> None)
      else map_option (Cons (if c = CHR ''+'' then CHR '' '' else c)) (QueryUnescape s))"

text \<open>The values of a query, in order. \<open>strings.Cut\<close> at a byte.\<close>

type_synonym query_values = "(string \<times> string) list"

definition Cut :: "char \<Rightarrow> string \<Rightarrow> string \<times> string" where
  "Cut c s = (takeWhile (\<lambda>x. x \<noteq> c) s, drop 1 (dropWhile (\<lambda>x. x \<noteq> c) s))"

definition query_pair :: "string \<Rightarrow> (string \<times> string) option" where
  "query_pair piece =
     (if CHR '';'' \<in> set piece \<or> piece = [] then None
      else case (QueryUnescape (fst (Cut (CHR ''='') piece)), QueryUnescape (snd (Cut (CHR ''='') piece))) of
          (Some key, Some val) \<Rightarrow> Some (key, val)
        | _ \<Rightarrow> None)"

definition ParseQuery :: "string \<Rightarrow> query_values" where
  "ParseQuery raw = List.map_filter query_pair (split_on (CHR ''&'') raw)"

definition Values_Set :: "string \<Rightarrow> string \<Rightarrow> query_values \<Rightarrow> query_values" where
  "Values_Set key val vs = filter (\<lambda>p. fst p \<noteq> key) vs @ [(key, val)]"

definition Values_Del :: "string \<Rightarrow> query_values \<Rightarrow> query_values" where
  "Values_Del key vs = filter (\<lambda>p. fst p \<noteq> key) vs"

definition encode_pair :: "string \<times> string \<Rightarrow> string" where
  "encode_pair p = QueryEscape (fst p) @ CHR ''='' # QueryEscape (snd p)"

definition Values_Encode :: "query_values \<Rightarrow> string" where
  "Values_Encode vs = join_with (CHR ''&'') (map encode_pair (sort_key fst vs))"

section \<open>Redirects\<close>

definition defaultPort :: "string \<Rightarrow> string" where
  "defaultPort scheme = (if scheme = ''https'' then ''443'' else ''80'')"

text \<open>A path is checked rune by rune; the runes refused are ASCII, so bytes are enough. \<open>%2f\<close> is looked for in lower case.\<close>

fun has_infix :: "string \<Rightarrow> string \<Rightarrow> bool" where
  "has_infix p [] = (p = [])"
| "has_infix p (c # s) = (HasPrefix (c # s) p \<or> has_infix p s)"

definition plainPath :: "url \<Rightarrow> bool" where
  "plainPath parsed =
     (list_all (\<lambda>c. \<not> ((of_char c :: nat) < 0x20 \<or> (of_char c :: nat) = 0x7f)) (url_Path parsed) \<and>
      list_all (\<lambda>segment. \<not> (segment = ''.'' \<or> segment = ''..'')) (split_on (CHR ''/'') (url_Path parsed)) \<and>
      \<not> has_infix ''%2f'' (ToLower (url_EscapedPath parsed)))"

definition host_form :: "url \<Rightarrow> string" where
  "host_form parsed =
     ToLower (url_Hostname parsed) @
     (if url_Port parsed \<noteq> [] \<and> url_Port parsed \<noteq> defaultPort (ToLower (url_Scheme parsed)) then CHR '':'' # url_Port parsed else [])"

definition path_form :: "url \<Rightarrow> string" where
  "path_form parsed = (if url_EscapedPath parsed = ''/'' then [] else url_EscapedPath parsed)"

definition comparableForm :: "(string \<Rightarrow> url option) \<Rightarrow> string \<Rightarrow> string option" where
  "comparableForm parse raw =
     (case parse (TrimSpace raw) of
        None \<Rightarrow> None
      | Some parsed \<Rightarrow>
          if url_Host parsed = [] \<or> url_User parsed \<or> url_Fragment parsed \<noteq> [] \<or> url_Opaque parsed \<noteq> [] then None
          else
            let scheme = ToLower (url_Scheme parsed) in
            if scheme \<noteq> ''https'' \<and> scheme \<noteq> ''http'' then None
            else if \<not> plainPath parsed \<or> CHR ''*'' \<in> set (url_Host parsed) then None
            else Some (scheme @ ''://'' @ host_form parsed @ path_form parsed))"

definition AllowedRedirect :: "(string \<Rightarrow> url option) \<Rightarrow> string \<Rightarrow> string list \<Rightarrow> string option" where
  "AllowedRedirect parse raw allowed =
     (if raw \<noteq> TrimSpace raw then None
      else case parse raw of
          None \<Rightarrow> None
        | Some parsed \<Rightarrow>
            (case comparableForm parse raw of
               None \<Rightarrow> None
             | Some target \<Rightarrow>
                 if list_ex (\<lambda>entry. comparableForm parse entry = Some target) allowed then Some (url_String parsed) else None))"

definition WithParam :: "(string \<Rightarrow> url option) \<Rightarrow> string \<Rightarrow> string \<Rightarrow> string \<Rightarrow> string" where
  "WithParam parse raw key val =
     (case parse raw of
        None \<Rightarrow> raw
      | Some parsed \<Rightarrow> url_with_query parsed (Values_Encode (Values_Set key val (ParseQuery (url_RawQuery parsed)))))"

definition WithError :: "(string \<Rightarrow> url option) \<Rightarrow> string \<Rightarrow> string \<Rightarrow> string" where
  "WithError parse raw code =
     (case parse raw of
        None \<Rightarrow> raw
      | Some parsed \<Rightarrow>
          url_with_query parsed (Values_Encode (Values_Set ''error'' code (Values_Del ''code'' (ParseQuery (url_RawQuery parsed))))))"

section \<open>Providers\<close>

definition absoluteURL :: "(string \<Rightarrow> url option) \<Rightarrow> string \<Rightarrow> bool" where
  "absoluteURL parse raw =
     (case parse raw of
        None \<Rightarrow> False
      | Some parsed \<Rightarrow> (url_Scheme parsed = ''https'' \<or> url_Scheme parsed = ''http'') \<and> url_Host parsed \<noteq> [])"

definition provider_named :: "(string \<Rightarrow> url option) \<Rightarrow> ProjectInfo \<Rightarrow> string \<Rightarrow> OAuthProvider option" where
  "provider_named parse info name =
     List.find (\<lambda>p. op_Provider p = name \<and> op_ClientID p \<noteq> [] \<and> absoluteURL parse (op_CallbackURL p)) (pi_OAuthProviders info)"

definition OAuthEnabled :: "(string \<Rightarrow> url option) \<Rightarrow> ProjectInfo \<Rightarrow> bool" where
  "OAuthEnabled parse info = list_ex (\<lambda>p. provider_named parse info (op_Provider p) \<noteq> None) (pi_OAuthProviders info)"

definition enabledProvider :: "AuthHandler \<Rightarrow> request \<Rightarrow> ProjectInfo \<Rightarrow> string \<Rightarrow> OAuthProvider option" where
  "enabledProvider h r info name = (if name \<in> set (oauthProviders h) then provider_named (rq_url r) info name else None)"

definition allowedRedirects :: "ProjectInfo \<Rightarrow> string list" where
  "allowedRedirects info = pi_SiteURL info # pi_RedirectURLs info"

section \<open>Facts about queries\<close>

lemma unhex_hex: "n < 16 \<Longrightarrow> unhex (hex_digit n) = Some n"
  by (auto simp: unhex_def hex_digit_def is_digit_def Let_def)

lemma of_char_div_mod: "of_char c div 16 < (16 :: nat)" "of_char c mod 16 < (16 :: nat)"
  "char_of (16 * (of_char c div 16) + of_char c mod 16 :: nat) = c"
proof -
  have "of_char c < (256 :: nat)" by simp
  then show "of_char c div 16 < (16 :: nat)" by (simp add: less_mult_imp_div_less)
qed simp_all

lemma unescape_char: "QueryUnescape (query_char c @ s) = map_option (Cons c) (QueryUnescape s)"
proof -
  note hex = unhex_hex [OF of_char_div_mod(1)] unhex_hex [OF of_char_div_mod(2)] of_char_div_mod(3)
  have "c \<noteq> CHR ''%'' \<and> c \<noteq> CHR ''+''"
    if "is_upper c \<or> is_lower c \<or> is_digit c \<or> c \<in> {CHR ''-'', CHR ''_'', CHR ''.'', CHR ''~''}"
    using that by (auto simp: is_upper_def is_lower_def is_digit_def)
  then show ?thesis by (auto simp: query_char_def hex)
qed

lemma unescape_escape [simp]: "QueryUnescape (QueryEscape s) = Some s"
  by (induction s) (simp_all add: QueryEscape_def unescape_char)

lemma hex_digit_plain: "n < 16 \<Longrightarrow> is_upper (hex_digit n) \<or> is_digit (hex_digit n)"
  by (auto simp: hex_digit_def is_upper_def is_digit_def take_bit_nat_eq_self_iff)

lemma plain_chars: "is_upper c \<or> is_lower c \<or> is_digit c \<or> c \<in> {CHR ''-'', CHR ''_'', CHR ''.'', CHR ''~'', CHR ''%'', CHR ''+''}
  \<Longrightarrow> c \<notin> {CHR ''&'', CHR '';'', CHR ''=''}"
  by (auto simp: is_upper_def is_lower_def is_digit_def)

lemma query_char_plain: "x \<in> set (query_char c) \<Longrightarrow> x \<notin> {CHR ''&'', CHR '';'', CHR ''=''}"
  using hex_digit_plain [OF of_char_div_mod(1), of c] hex_digit_plain [OF of_char_div_mod(2), of c]
  by (intro plain_chars) (auto simp: query_char_def split: if_splits)

lemma escaped_plain: "x \<in> set (QueryEscape s) \<Longrightarrow> x \<notin> {CHR ''&'', CHR '';'', CHR ''=''}"
  unfolding QueryEscape_def set_concat set_map by (blast dest: query_char_plain)

lemma query_pair_encoded: "query_pair (QueryEscape k @ CHR ''='' # QueryEscape v) = Some (k, v)"
proof -
  have "takeWhile (\<lambda>x. x \<noteq> CHR ''='') (QueryEscape k @ CHR ''='' # QueryEscape v) = QueryEscape k"
    "dropWhile (\<lambda>x. x \<noteq> CHR ''='') (QueryEscape k @ CHR ''='' # QueryEscape v) = CHR ''='' # QueryEscape v"
    using escaped_plain [of _ k] by (auto simp: takeWhile_append dropWhile_append)
  then show ?thesis using escaped_plain [of _ k] escaped_plain [of _ v] by (auto simp: query_pair_def Cut_def)
qed

lemma encode_pair_plain: "CHR ''&'' \<notin> set (encode_pair p)"
  using escaped_plain [of "CHR ''&''"] by (auto simp: encode_pair_def)

lemma query_pairs_encoded: "List.map_filter query_pair (map encode_pair ws) = ws"
  by (induction ws) (simp_all add: query_pair_encoded encode_pair_def map_filter_simps)

lemma ParseQuery_Encode: "ParseQuery (Values_Encode vs) = sort_key fst vs"
proof (cases "vs = []")
  case False
  have "length (sort_key fst vs) = length vs" by simp
  with False have "sort_key fst vs \<noteq> []" by (metis length_0_conv)
  then have "split_on (CHR ''&'') (Values_Encode vs) = map encode_pair (sort_key fst vs)"
    unfolding Values_Encode_def by (intro split_join) (auto simp: encode_pair_plain)
  then show ?thesis by (simp add: ParseQuery_def query_pairs_encoded)
qed (simp add: ParseQuery_def Values_Encode_def query_pair_def map_filter_simps)

definition values_of :: "string \<Rightarrow> url \<Rightarrow> string list" where
  "values_of k u = map snd (filter (\<lambda>p. fst p = k) (ParseQuery (url_RawQuery u)))"

lemma filter_sort_key: "filter (\<lambda>p. fst p = k) (sort_key fst vs) = filter (\<lambda>p. fst p = k) vs"
  by (rule sort_key_stable)

lemma values_encoded:
  "url_RawQuery v = Values_Encode vs \<Longrightarrow> values_of k v = map snd (filter (\<lambda>p. fst p = k) vs)"
  by (simp add: values_of_def ParseQuery_Encode filter_sort_key)

lemma filter_Set: "map snd (filter (\<lambda>p. fst p = k) (Values_Set key val vs)) =
    (if k = key then [val] else map snd (filter (\<lambda>p. fst p = k) vs))"
  by (auto simp: Values_Set_def conj_commute intro!: arg_cong [where f = "map snd"] filter_cong)

lemma filter_Del: "map snd (filter (\<lambda>p. fst p = k) (Values_Del key vs)) =
    (if k = key then [] else map snd (filter (\<lambda>p. fst p = k) vs))"
  by (auto simp: Values_Del_def intro!: arg_cong [where f = "map snd"] filter_cong)

section \<open>Properties\<close>

text \<open>What a redirect carries comes back unchanged. The URL an answer is sent to, parsed by the app, has the answer as
  the one value of its parameter, byte for byte, and the app's own parameters as they were; a failed sign-in
  arrives as its error code and with no code beside it. The library is relied on for one thing: a URL whose query is
  replaced by an encoded one parses back to that query.\<close>

theorem redirect_carries_answer:
  assumes "parse raw = Some u"
    and "\<And>vs. \<exists>v. parse (url_with_query u (Values_Encode vs)) = Some v \<and> url_RawQuery v = Values_Encode vs"
  shows "\<exists>v w. parse (WithParam parse raw key val) = Some v \<and> parse (WithError parse raw code) = Some w \<and>
    (\<forall>k. values_of k v = (if k = key then [val] else values_of k u)) \<and>
    (\<forall>k. values_of k w = (if k = ''error'' then [code] else if k = ''code'' then [] else values_of k u))"
proof -
  let ?q = "ParseQuery (url_RawQuery u)"
  from assms(2) obtain v where v: "parse (WithParam parse raw key val) = Some v" "url_RawQuery v = Values_Encode (Values_Set key val ?q)"
    unfolding WithParam_def by (auto simp: assms(1))
  from assms(2) obtain w where w: "parse (WithError parse raw code) = Some w"
    "url_RawQuery w = Values_Encode (Values_Set ''error'' code (Values_Del ''code'' ?q))"
    unfolding WithError_def by (auto simp: assms(1))
  show ?thesis
    using v w by (auto simp: values_encoded filter_Set filter_Del) (simp_all add: values_of_def)
qed

definition sample_url :: url where
  "sample_url = \<lparr>url_Scheme = ''https'', url_Opaque = [], url_User = False, url_Host = ''app.test'', url_Hostname = ''app.test'',
     url_Port = [], url_Path = ''/in'', url_EscapedPath = ''/in'', url_RawQuery = ''a=1&code=old'', url_Fragment = [],
     url_String = ''https://app.test/in?a=1&code=old'', url_with_query = (\<lambda>q. ''https://app.test/in?'' @ q)\<rparr>"

text \<open>A parser that reads the addresses under one page.\<close>

definition sample_parse :: "string \<Rightarrow> url option" where
  "sample_parse raw =
     (if HasPrefix raw ''https://app.test/in?'' then Some (sample_url\<lparr>url_RawQuery := drop 20 raw, url_String := raw\<rparr>)
      else if raw = ''https://app.test/in'' then Some (sample_url\<lparr>url_RawQuery := [], url_String := raw\<rparr>) else None)"

lemma sample_parse_query: "\<exists>v. sample_parse (''https://app.test/in?'' @ q) = Some v \<and> url_RawQuery v = q"
  by (simp add: sample_parse_def HasPrefix_def)

theorem redirect_carries_answer_witness:
  "\<exists>v. sample_parse (WithParam sample_parse ''https://app.test/in?a=1&code=old'' ''code'' ''x&=y'') = Some v \<and>
     values_of ''code'' v = [''x&=y'']"
proof -
  have p: "sample_parse ''https://app.test/in?a=1&code=old'' = Some sample_url"
    by (simp add: sample_parse_def HasPrefix_def sample_url_def)
  have "\<exists>v. sample_parse (url_with_query sample_url (Values_Encode vs)) = Some v \<and> url_RawQuery v = Values_Encode vs" for vs
    using sample_parse_query [of "Values_Encode vs"] by (simp add: sample_url_def)
  from redirect_carries_answer [OF p this, of "''code''" "''x&=y''" "''x''"] show ?thesis by fastforce
qed

text \<open>The parts of two comparable forms, read back from their text.\<close>

lemma form_parts:
  assumes "h1 @ p1 @ e1 = h2 @ p2 @ e2"
    and "CHR '':'' \<notin> set h1" "CHR '':'' \<notin> set h2" "CHR ''/'' \<notin> set h1" "CHR ''/'' \<notin> set h2"
    and "p1 = [] \<or> (\<exists>q. p1 = CHR '':'' # q \<and> CHR ''/'' \<notin> set q)" "p2 = [] \<or> (\<exists>q. p2 = CHR '':'' # q \<and> CHR ''/'' \<notin> set q)"
    and "e1 = [] \<or> hd e1 = CHR ''/''" "e2 = [] \<or> hd e2 = CHR ''/''"
  shows "h1 = h2" "p1 = p2" "e1 = e2"
proof -
  let ?slash = "\<lambda>c. c \<noteq> CHR ''/''" and ?colon = "\<lambda>c. c \<noteq> CHR '':''"
  have split: "takeWhile ?slash (h @ p @ e) = h @ p \<and> takeWhile ?colon (h @ p) = h"
    if "CHR '':'' \<notin> set h" "CHR ''/'' \<notin> set h" "p = [] \<or> (\<exists>q. p = CHR '':'' # q \<and> CHR ''/'' \<notin> set q)"
      "e = [] \<or> hd e = CHR ''/''" for h p e
  proof -
    have "takeWhile ?slash ((h @ p) @ e) = (h @ p) @ takeWhile ?slash e"
      using that(2,3) by (intro takeWhile_append2) auto
    moreover have "takeWhile ?slash e = []" using that(4) by (cases e) simp_all
    moreover have "takeWhile ?colon (h @ p) = h @ takeWhile ?colon p"
      using that(1) by (intro takeWhile_append2) auto
    moreover have "takeWhile ?colon p = []" using that(3) by auto
    ultimately show ?thesis by simp
  qed
  from split [OF assms(2,4,6,8)] split [OF assms(3,5,7,9)] assms(1) have hp: "h1 @ p1 = h2 @ p2" "h1 = h2" by metis+
  then show "h1 = h2" "p1 = p2" by simp_all
  then show "e1 = e2" using assms(1) by simp
qed

text \<open>What the library promises of a parsed URL whose host is a name or an IPv4 address: no colon and no slash in the host
  name, no slash in the port, and a path that is empty or starts with a slash.\<close>

definition named_host :: "url \<Rightarrow> bool" where
  "named_host u \<longleftrightarrow> CHR '':'' \<notin> set (url_Hostname u) \<and> CHR ''/'' \<notin> set (url_Hostname u) \<and> CHR ''/'' \<notin> set (url_Port u) \<and>
     (url_EscapedPath u = [] \<or> hd (url_EscapedPath u) = CHR ''/'')"

definition effective_port :: "url \<Rightarrow> string" where
  "effective_port u = (if url_Port u = [] then defaultPort (ToLower (url_Scheme u)) else url_Port u)"

lemma of_char_lower: "of_char (lower_char c) = (if is_upper c then of_char c + 32 else (of_char c :: nat))"
  by (auto simp: lower_char_def is_upper_def take_bit_nat_def)

lemma lower_char_fixes: "\<not> is_lower (lower_char c) \<Longrightarrow> lower_char c = c"
proof (cases "is_upper c")
  case True
  then have "is_lower (lower_char c)" unfolding is_lower_def of_char_lower by (simp add: is_upper_def)
  then show "\<not> is_lower (lower_char c) \<Longrightarrow> lower_char c = c" by simp
qed (simp add: lower_char_def)

lemma ToLower_notin: "\<not> is_lower x \<Longrightarrow> x \<notin> set s \<Longrightarrow> x \<notin> set (ToLower s)"
  unfolding ToLower_def set_map by (metis imageE lower_char_fixes)

lemma comparableForm_Some:
  assumes "comparableForm parse raw = Some form"
  obtains u where "parse (TrimSpace raw) = Some u" "url_Host u \<noteq> []" "\<not> url_User u" "url_Fragment u = []" "url_Opaque u = []"
    "ToLower (url_Scheme u) \<in> {''https'', ''http''}" "plainPath u" "CHR ''*'' \<notin> set (url_Host u)"
    "form = ToLower (url_Scheme u) @ ''://'' @ host_form u @ path_form u"
  using assms by (auto simp: comparableForm_def Let_def split: option.splits if_splits)

lemma same_form:
  assumes "named_host u" "named_host v" "ToLower (url_Scheme u) \<in> {''https'', ''http''}" "ToLower (url_Scheme v) \<in> {''https'', ''http''}"
    and "ToLower (url_Scheme u) @ ''://'' @ host_form u @ path_form u = ToLower (url_Scheme v) @ ''://'' @ host_form v @ path_form v"
  shows "ToLower (url_Scheme u) = ToLower (url_Scheme v)" "ToLower (url_Hostname u) = ToLower (url_Hostname v)"
    "effective_port u = effective_port v" "path_form u = path_form v"
proof -
  show scheme: "ToLower (url_Scheme u) = ToLower (url_Scheme v)" using assms(3-5) by auto
  let ?p = "\<lambda>u. if url_Port u \<noteq> [] \<and> url_Port u \<noteq> defaultPort (ToLower (url_Scheme u)) then CHR '':'' # url_Port u else []"
  have eq: "ToLower (url_Hostname u) @ ?p u @ path_form u = ToLower (url_Hostname v) @ ?p v @ path_form v"
    using assms(5) scheme by (simp add: host_form_def)
  have w: "CHR '':'' \<notin> set (ToLower (url_Hostname w))" "CHR ''/'' \<notin> set (ToLower (url_Hostname w))"
    "?p w = [] \<or> (\<exists>q. ?p w = CHR '':'' # q \<and> CHR ''/'' \<notin> set q)" "path_form w = [] \<or> hd (path_form w) = CHR ''/''"
    if "named_host w" for w
    using that ToLower_notin [of "CHR '':''" "url_Hostname w"] ToLower_notin [of "CHR ''/''" "url_Hostname w"]
    by (simp_all add: named_host_def path_form_def is_lower_def)
  note w1 = w [OF assms(1)] and w2 = w [OF assms(2)]
  note parts = form_parts [OF eq w1(1) w2(1) w1(2) w2(2) w1(3) w2(3) w1(4) w2(4)]
  from parts show "ToLower (url_Hostname u) = ToLower (url_Hostname v)" "effective_port u = effective_port v" "path_form u = path_form v"
    using scheme by (auto simp: effective_port_def split: if_splits)
qed


lemma named_sample: "sample_parse raw = Some u \<Longrightarrow> named_host u"
  by (auto simp: sample_parse_def named_host_def sample_url_def split: if_splits)

lemmas form_eval = comparableForm_def AllowedRedirect_def Let_def plainPath_def host_form_def path_form_def ToLower_def
  lower_char_def is_upper_def defaultPort_def HasPrefix_def

lemma sample_trim: "TrimSpace ''https://app.test/in?a=1'' = ''https://app.test/in?a=1''" "TrimSpace ''https://app.test/in'' = ''https://app.test/in''"
  by (simp_all add: TrimSpace_graphic graphic_def)


text \<open>
  For IPv6 hosts the comparable form is not exact: the host is taken without its brackets and the port is appended
  with a colon, so another host's address reads as a listed host and port. The parts below are those \<open>net/url\<close> gives.
\<close>

definition ipv6_parse :: "string \<Rightarrow> url option" where
  "ipv6_parse raw =
     (if raw = ''https://[2001:db8::1]:8080/cb'' then
        Some (sample_url\<lparr>url_Host := ''[2001:db8::1]:8080'', url_Hostname := ''2001:db8::1'', url_Port := ''8080'', url_Path := ''/cb'',
          url_EscapedPath := ''/cb'', url_RawQuery := [], url_String := raw\<rparr>)
      else if raw = ''https://[2001:db8::1:8080]/cb'' then
        Some (sample_url\<lparr>url_Host := ''[2001:db8::1:8080]'', url_Hostname := ''2001:db8::1:8080'', url_Port := [], url_Path := ''/cb'',
          url_EscapedPath := ''/cb'', url_RawQuery := [], url_String := raw\<rparr>)
      else None)"

lemma ipv6_trim: "TrimSpace ''https://[2001:db8::1:8080]/cb'' = ''https://[2001:db8::1:8080]/cb''"
  "TrimSpace ''https://[2001:db8::1]:8080/cb'' = ''https://[2001:db8::1]:8080/cb''"
  by (simp_all add: TrimSpace_graphic graphic_def)

theorem ipv6_port_read_as_host:
  "AllowedRedirect ipv6_parse ''https://[2001:db8::1:8080]/cb'' [''https://[2001:db8::1]:8080/cb''] =
     Some ''https://[2001:db8::1:8080]/cb''"
  by (simp add: form_eval ipv6_trim ipv6_parse_def sample_url_def)

end
