(* ===== verification/HandlerMfa.thy ===== *)
theory HandlerMfa
  imports HandlerSessions Text
begin

text \<open>
  Second factors (\<open>internal/handler\<close>: \<open>mfa.go\<close>, \<open>mfa_verify.go\<close>): enrolling and removing a factor, the step-up
  of a session by a code or a recovery code, and the project's reset. The routes run behind the MFA switch, the
  access token and \<open>requireAccountHolder\<close>, which \<open>factorRoute\<close> composes. An audit row is written by the same
  request; response headers are not modelled.
\<close>

section \<open>Guards\<close>

definition codeInvalidCode :: fault where "codeInvalidCode = ''invalid_code''"
definition codeInvalidChallenge :: fault where "codeInvalidChallenge = ''invalid_challenge''"
definition codeTooManyAttempts :: fault where "codeTooManyAttempts = ''too_many_attempts''"
definition codeFactorNotFound :: fault where "codeFactorNotFound = ''factor_not_found''"
definition codeTooManyFactors :: fault where "codeTooManyFactors = ''too_many_factors''"
definition codeFactorNameTaken :: fault where "codeFactorNameTaken = ''factor_name_taken''"
definition codeNoVerifiedFactor :: fault where "codeNoVerifiedFactor = ''no_verified_factor''"
definition codeMFAUnavailable :: fault where "codeMFAUnavailable = ''mfa_unavailable''"
definition codeAddressRequired :: fault where "codeAddressRequired = ''email_required''"

lemmas mfa_code_defs = codeInvalidCode_def codeInvalidChallenge_def codeTooManyAttempts_def codeFactorNotFound_def
  codeTooManyFactors_def codeFactorNameTaken_def codeNoVerifiedFactor_def codeMFAUnavailable_def codeAddressRequired_def

definition storeFailure :: "store_error \<Rightarrow> fault \<Rightarrow> nat \<times> fault" where
  "storeFailure e notFound =
     (case e of ErrNotFound \<Rightarrow> (404, notFound) | ErrUnavailable \<Rightarrow> (503, errProjectDBUnavailable) | _ \<Rightarrow> (500, ''internal error''))"

definition mfaSettings :: "request \<Rightarrow> ProjectInfo answer" where
  "mfaSettings r =
     (case rq_fresh r of
        None \<Rightarrow> Inl (503, errSettingsUnreadable)
      | Some info \<Rightarrow> if \<not> pi_MFAEnabled info then Inl (404, codeMethodOff) else Inr info)"

definition requireAccountHolder :: "Claims \<Rightarrow> (nat \<times> fault) option" where
  "requireAccountHolder claims = (if c_IsGuest claims = Some True then Some (403, codeAddressRequired) else None)"

definition factorRoute :: "request \<Rightarrow> (Claims \<Rightarrow> db \<Rightarrow> 'a answer \<times> db) \<Rightarrow> db \<Rightarrow> 'a answer \<times> db" where
  "factorRoute r next d =
     (case mfaSettings r of
        Inl f \<Rightarrow> (Inl f, d)
      | Inr _ \<Rightarrow>
          (case rq_claims r of
             None \<Rightarrow> (Inl (401, ''invalid or expired token''), d)
           | Some _ \<Rightarrow>
               (case requireEndUser r of
                  Inl f \<Rightarrow> (Inl f, d)
                | Inr claims \<Rightarrow>
                    (case requireAccountHolder claims of
                       Some f \<Rightarrow> (Inl f, d)
                     | None \<Rightarrow> (case rq_pool r of Some e \<Rightarrow> (Inl (poolFailure e), d) | None \<Rightarrow> next claims d)))))"

definition atAAL2 :: "Claims \<Rightarrow> bool" where
  "atAAL2 claims = (c_AAL claims = claimAAL2)"

definition enrolledNeedsAAL2 :: "ProjectInfo \<Rightarrow> Claims \<Rightarrow> db \<Rightarrow> (nat \<times> fault) option" where
  "enrolledNeedsAAL2 info claims d =
     (if \<not> pi_MFAEnabled info \<or> atAAL2 claims then None
      else if HasVerifiedFactor (c_UserID claims) d then Some (403, codeInsufficientAAL) else None)"

section \<open>Enrolment\<close>

definition maxFriendlyName :: nat where "maxFriendlyName = 100"
definition maxIssuer :: nat where "maxIssuer = 100"
definition mfaChallengeTTL :: duration where "mfaChallengeTTL = 5 * minute"
definition defaultFactorTag :: string where "defaultFactorTag = ''Authenticator''"

definition printable :: "string \<Rightarrow> nat \<Rightarrow> bool" where
  "printable t n = (ValidString t \<and> RuneCountInString t \<le> n \<and> \<not> contains_control t)"

record enrollRequest =
  en_FactorType :: string
  en_FriendlyName :: string
  en_Issuer :: string

definition decodeEnrollRequest :: "enrollRequest option \<Rightarrow> enrollRequest answer" where
  "decodeEnrollRequest body =
     (case body of
        None \<Rightarrow> Inl (400, codeInvalidRequest)
      | Some raw \<Rightarrow>
          let req = raw\<lparr>en_FriendlyName := TrimSpace (en_FriendlyName raw), en_Issuer := TrimSpace (en_Issuer raw)\<rparr> in
          if en_FactorType req \<noteq> ''totp'' \<or> \<not> printable (en_FriendlyName req) maxFriendlyName \<or>
             \<not> printable (en_Issuer req) maxIssuer \<or> CHR '':'' \<in> set (en_Issuer req)
          then Inl (400, codeInvalidRequest) else Inr req)"

definition enrollFailure :: "store_error \<Rightarrow> nat \<times> fault" where
  "enrollFailure e =
     (case e of
        ErrTooManyFactors \<Rightarrow> (409, codeTooManyFactors)
      | ErrFactorNameTaken \<Rightarrow> (409, codeFactorNameTaken)
      | _ \<Rightarrow> storeFailure e errUserNotFound)"

text \<open>The answer is the new factor with its secret, which is handed out once.\<close>

definition EnrollFactor :: "AuthHandler \<Rightarrow> request \<Rightarrow> enrollRequest option \<Rightarrow> Claims \<Rightarrow> db \<Rightarrow> (Factor \<times> string) answer \<times> db" where
  "EnrollFactor h r body claims d =
     (case decodeEnrollRequest body of
        Inl f \<Rightarrow> (Inl f, d)
      | Inr req \<Rightarrow>
          (case mfaSettings r of
             Inl f \<Rightarrow> (Inl f, d)
           | Inr info \<Rightarrow>
               (case rq_pool r of
                  Some e \<Rightarrow> (Inl (poolFailure e), d)
                | None \<Rightarrow>
                    (case enrolledNeedsAAL2 info claims d of
                       Some f \<Rightarrow> (Inl f, d)
                     | None \<Rightarrow>
                         (case rq_mfa r of
                            None \<Rightarrow> (Inl (503, codeMFAUnavailable), d)
                          | Some keys \<Rightarrow>
                              (case rq_secret r of
                                 None \<Rightarrow> (Inl (500, ''internal error''), d)
                               | Some secret \<Rightarrow>
                                   let factorID = rq_uuid r;
                                       sealed = Seal (mk_aead keys) (rq_nonce r) secret (c_UserID claims) factorID;
                                       name = (if en_FriendlyName req = [] then defaultFactorTag @ '' '' @ take 8 factorID
                                               else en_FriendlyName req)
                                   in (case CreateFactor (rq_sql r) \<lparr>nf_ID = factorID, nf_UserID = c_UserID claims,
                                           nf_FriendlyName = name, nf_SecretSealed = sealed\<rparr> (mfaLimits h) d of
                                         (Inl e, d1) \<Rightarrow> (Inl (enrollFailure e), d1)
                                       | (Inr factor, d1) \<Rightarrow>
                                           (Inr (factor, secret), recordAudit r (c_UserID claims) ''mfa_enrolled'' ''totp'' (rq_ip r) d1))))))))"

definition otpSenderKey :: "request \<Rightarrow> string \<Rightarrow> string" where
  "otpSenderKey r ip = (case rq_parse_ip r ip of None \<Rightarrow> ip | Some (IPv4 t) \<Rightarrow> t | Some (IPv6 prefix) \<Rightarrow> prefix)"

definition ChallengeFactor :: "request \<Rightarrow> string \<Rightarrow> Claims \<Rightarrow> db \<Rightarrow> (string \<times> time) answer \<times> db" where
  "ChallengeFactor r factorID claims d =
     (case rq_pool r of
        Some e \<Rightarrow> (Inl (poolFailure e), d)
      | None \<Rightarrow>
          let expires = (rq_now r + mfaChallengeTTL) div second * second in
          (case CreateChallenge (rq_uuid_parse r) (rq_sql r) (c_UserID claims) factorID (rq_uuid r) (otpSenderKey r (rq_ip r)) expires d of
             (Inl e, d1) \<Rightarrow> (Inl (storeFailure e codeFactorNotFound), d1)
           | (Inr _, d1) \<Rightarrow> (Inr (rq_uuid r, expires), d1)))"

definition UnenrollFactor :: "request \<Rightarrow> string \<Rightarrow> Claims \<Rightarrow> db \<Rightarrow> unit answer \<times> db" where
  "UnenrollFactor r factorID claims d =
     (case mfaSettings r of
        Inl f \<Rightarrow> (Inl f, d)
      | Inr info \<Rightarrow>
          (case rq_pool r of
             Some e \<Rightarrow> (Inl (poolFailure e), d)
           | None \<Rightarrow>
               (case enrolledNeedsAAL2 info claims d of
                  Some f \<Rightarrow> (Inl f, d)
                | None \<Rightarrow>
                    (case DeleteFactor (rq_uuid_parse r) (c_UserID claims) factorID d of
                       (Inl e, d1) \<Rightarrow> (Inl (storeFailure e codeFactorNotFound), d1)
                     | (Inr _, d1) \<Rightarrow> (Inr (), recordAudit r (c_UserID claims) ''mfa_unenrolled'' ''totp'' (rq_ip r) d1)))))"

section \<open>Stepping a session up\<close>

record stepUpSession =
  su_account :: account
  su_presented :: string
  su_familyID :: string

definition newStepUp :: "request \<Rightarrow> Claims \<Rightarrow> string \<Rightarrow> db \<Rightarrow> stepUpSession answer \<times> db" where
  "newStepUp r claims refreshToken d =
     (if refreshToken = [] then (Inl (401, errInvalidRefreshToken), d)
      else
        let presented = rq_sha r refreshToken in
        (case RefreshTokenState presented d of
           Inl e \<Rightarrow> (Inl (if e = ErrUnavailable then (503, errProjectDBUnavailable) else (401, errInvalidRefreshToken)), d)
         | Inr state \<Rightarrow>
             if st_UserID state \<noteq> c_UserID claims then (Inl (401, errInvalidRefreshToken), d)
             else if st_Revoked state then (case rejectDeadRefreshToken presented d of (f, d1) \<Rightarrow> (Inl f, d1))
             else (case AccountByID (c_UserID claims) d of
                 Inl e \<Rightarrow> (Inl (storeFailure e errUserNotFound), d)
               | Inr account \<Rightarrow>
                   (case refreshAllowed r account of
                      Some f \<Rightarrow> (Inl f, d)
                    | None \<Rightarrow> (Inr \<lparr>su_account = account, su_presented = presented, su_familyID = st_FamilyID state\<rparr>, d)))))"

text \<open>\<open>writeCodeFailure\<close>: the answer to a refused code, and its audit row.\<close>

definition codeFailure :: "request \<Rightarrow> int \<Rightarrow> string \<Rightarrow> store_error \<Rightarrow> db \<Rightarrow> (nat \<times> fault) \<times> db" where
  "codeFailure r userID m e d =
     (case e of
        ErrInvalidCode \<Rightarrow> ((400, codeInvalidCode), recordAudit r userID ''mfa_failed'' m (rq_ip r) d)
      | ErrTooManyAttempts \<Rightarrow> ((429, codeTooManyAttempts), recordAudit r userID ''mfa_too_many_attempts'' m (rq_ip r) d)
      | ErrInsufficientAAL \<Rightarrow> ((403, codeInsufficientAAL), d)
      | ErrInvalidChallenge \<Rightarrow> ((400, codeInvalidChallenge), d)
      | ErrNotFound \<Rightarrow> ((404, codeFactorNotFound), d)
      | ErrUnavailable \<Rightarrow> ((503, errProjectDBUnavailable), d)
      | _ \<Rightarrow> ((503, codeMFAUnavailable), d))"

definition newRecoveryCodes :: "request \<Rightarrow> mfa_keys \<Rightarrow> (string list \<times> string list) option" where
  "newRecoveryCodes r keys =
     map_option (\<lambda>codes. (codes, map (\<lambda>code. fst (HashRecoveryCode (mk_mac keys) code)) codes)) (NewRecoveryCodes RecoveryCodeCount (rq_draws r))"

record recoveryCodesOutcome =
  ro_codes :: "string list"
  ro_missing :: bool

definition stepUpRecoveryCodes :: "request \<Rightarrow> mfa_keys \<Rightarrow> int \<Rightarrow> db \<Rightarrow> recoveryCodesOutcome \<times> db" where
  "stepUpRecoveryCodes r keys userID d =
     (case newRecoveryCodes r keys of
        None \<Rightarrow> (\<lparr>ro_codes = [], ro_missing = True\<rparr>, d)
      | Some (codes, hashes) \<Rightarrow>
          (case AddRecoveryCodesIfNone userID hashes d of
             (Inl _, d1) \<Rightarrow> (\<lparr>ro_codes = [], ro_missing = True\<rparr>, d1)
           | (Inr added, d1) \<Rightarrow> (\<lparr>ro_codes = (if added then codes else []), ro_missing = False\<rparr>, d1)))"

definition issueRecoveryCodes :: "request \<Rightarrow> mfa_keys \<Rightarrow> int \<Rightarrow> db \<Rightarrow> string list option \<times> db" where
  "issueRecoveryCodes r keys userID d =
     (case newRecoveryCodes r keys of
        None \<Rightarrow> (None, d)
      | Some (codes, hashes) \<Rightarrow>
          (case ReplaceRecoveryCodes userID hashes d of (Inl _, d1) \<Rightarrow> (None, d1) | (Inr _, d1) \<Rightarrow> (Some codes, d1)))"

definition elevateFailure :: "store_error \<Rightarrow> nat \<times> fault" where
  "elevateFailure e =
     (case e of
        ErrNotFound \<Rightarrow> (401, errInvalidRefreshToken)
      | ErrNoAccount \<Rightarrow> (401, errInvalidRefreshToken)
      | ErrUnavailable \<Rightarrow> (503, errProjectDBUnavailable)
      | _ \<Rightarrow> (500, errRefreshTokenStore))"

text \<open>The roles are those read with the session, before the code was spent.\<close>

definition finishStepUp :: "AuthHandler \<Rightarrow> request \<Rightarrow> mfa_keys \<Rightarrow> stepUpSession \<Rightarrow> string \<Rightarrow> db
    \<Rightarrow> (AuthResponse \<times> recoveryCodesOutcome) answer \<times> db" where
  "finishStepUp h r keys session m d =
     (case rq_token r of
        None \<Rightarrow> (Inl (500, errRefreshTokenStore), d)
      | Some successor \<Rightarrow>
          (case ElevateRefreshToken (rq_sql r) (a_ID (su_account session)) (su_presented session) (rq_sha r successor) m d of
             (Inl e, d1) \<Rightarrow> (Inl (elevateFailure e), d1)
           | (Inr (account, elevated), d1) \<Rightarrow>
               let d2 = recordAudit r (a_ID account) ''mfa_verified'' m (rq_ip r) d1 in
               (case stepUpRecoveryCodes r keys (a_ID account) d2 of
                  (codes, d3) \<Rightarrow>
                    (case accessClaims h r (userInfoOf account) (roles_of (su_account session)) (a_EmailVerified account) d3 of
                       (Inl e, d4) \<Rightarrow> (Inl (sessionFailure e), d4)
                     | (Inr claims, d4) \<Rightarrow>
                         (case signSession h r claims (userInfoOf account) successor elevated of
                            None \<Rightarrow> (Inl (500, errTokenGeneration), d4)
                          | Some resp \<Rightarrow> (Inr (resp, codes), d4))))))"

text \<open>The check a code is put to: the factor's secret is opened for this account and factor, and the code must be of
  a step newer than the last one used.\<close>

definition factor_check :: "request \<Rightarrow> mfa_keys \<Rightarrow> int \<Rightarrow> string \<Rightarrow> FactorSecret \<Rightarrow> store_error + int \<times> bool" where
  "factor_check r keys userID code factor =
     (case Open (mk_aead keys) (sc_SecretSealed factor) userID (fc_ID (sc_Factor factor)) of
        None \<Rightarrow> Inl (ErrRefused 503 codeMFAUnavailable)
      | Some secret \<Rightarrow> Inr (Match (rq_hmac_sha1 r) secret code (rq_now r) (sc_LastUsedStep factor)))"

definition factor_attempt :: "Claims \<Rightarrow> string \<Rightarrow> string \<Rightarrow> stepUpSession \<Rightarrow> FactorAttempt" where
  "factor_attempt claims factorID challengeID session =
     \<lparr>fa_UserID = a_ID (su_account session), fa_FactorID = factorID, fa_ChallengeID = challengeID,
      fa_FamilyID = su_familyID session, fa_CallerAAL2 = atAAL2 claims\<rparr>"

record verifyFactorRequest =
  vr_ChallengeID :: string
  vr_Code :: string
  vr_RefreshToken :: string

definition verifyFactorCode :: "AuthHandler \<Rightarrow> request \<Rightarrow> string \<Rightarrow> verifyFactorRequest option \<Rightarrow> Claims \<Rightarrow> db
    \<Rightarrow> (AuthResponse \<times> recoveryCodesOutcome) answer \<times> db" where
  "verifyFactorCode h r factorID body claims d =
     (case body of
        None \<Rightarrow> (Inl (400, codeInvalidRequest), d)
      | Some req \<Rightarrow>
          if vr_ChallengeID req = [] \<or> vr_Code req = [] then (Inl (400, codeInvalidRequest), d)
          else (case rq_pool r of
              Some e \<Rightarrow> (Inl (poolFailure e), d)
            | None \<Rightarrow>
                (case newStepUp r claims (vr_RefreshToken req) d of
                   (Inl f, d1) \<Rightarrow> (Inl f, d1)
                 | (Inr session, d1) \<Rightarrow>
                     (case rq_mfa r of
                        None \<Rightarrow> (Inl (503, codeMFAUnavailable), d1)
                      | Some keys \<Rightarrow>
                          (case VerifyFactor (rq_uuid_parse r) (rq_sql r) (factor_attempt claims factorID (vr_ChallengeID req) session)
                                  (mfaLimits h) (factor_check r keys (a_ID (su_account session)) (vr_Code req)) d1 of
                             (Inl e, d2) \<Rightarrow> (case codeFailure r (a_ID (su_account session)) ''totp'' e d2 of (f, d3) \<Rightarrow> (Inl f, d3))
                           | (Inr _, d2) \<Rightarrow> finishStepUp h r keys session ''totp'' d2)))))"

section \<open>Recovery\<close>

definition unmatchableHash :: string where "unmatchableHash = ''-''"

definition RecoverWithCode :: "AuthHandler \<Rightarrow> request \<Rightarrow> (string \<times> string) option \<Rightarrow> Claims \<Rightarrow> db
    \<Rightarrow> (AuthResponse \<times> recoveryCodesOutcome) answer \<times> db" where
  "RecoverWithCode h r body claims d =
     (case body of
        None \<Rightarrow> (Inl (400, codeInvalidRequest), d)
      | Some (code, refreshToken) \<Rightarrow>
          if code = [] then (Inl (400, codeInvalidRequest), d)
          else (case rq_pool r of
              Some e \<Rightarrow> (Inl (poolFailure e), d)
            | None \<Rightarrow>
                (case newStepUp r claims refreshToken d of
                   (Inl f, d1) \<Rightarrow> (Inl f, d1)
                 | (Inr session, d1) \<Rightarrow>
                     (case rq_mfa r of
                        None \<Rightarrow> (Inl (503, codeMFAUnavailable), d1)
                      | Some keys \<Rightarrow>
                          let (hashed, wellFormed) = HashRecoveryCode (mk_mac keys) code;
                              hash = (if wellFormed then hashed else unmatchableHash)
                          in (case RedeemRecoveryCode (rq_sql r) (a_ID (su_account session)) (su_familyID session) hash (mfaLimits h) d1 of
                                (Inl e, d2) \<Rightarrow> (case codeFailure r (a_ID (su_account session)) ''recovery'' e d2 of (f, d3) \<Rightarrow> (Inl f, d3))
                              | (Inr _, d2) \<Rightarrow> finishStepUp h r keys session ''recovery'' d2)))))"

definition RegenerateRecoveryCodes :: "request \<Rightarrow> Claims \<Rightarrow> db \<Rightarrow> string list answer \<times> db" where
  "RegenerateRecoveryCodes r claims d =
     (if \<not> atAAL2 claims then (Inl (403, codeInsufficientAAL), d)
      else case rq_pool r of
          Some e \<Rightarrow> (Inl (poolFailure e), d)
        | None \<Rightarrow>
            if \<not> HasVerifiedFactor (c_UserID claims) d then (Inl (409, codeNoVerifiedFactor), d)
            else (case rq_mfa r of
                None \<Rightarrow> (Inl (503, codeMFAUnavailable), d)
              | Some keys \<Rightarrow>
                  (case issueRecoveryCodes r keys (c_UserID claims) d of
                     (None, d1) \<Rightarrow> (Inl (500, ''internal error''), d1)
                   | (Some codes, d1) \<Rightarrow> (Inr codes, recordAudit r (c_UserID claims) ''mfa_codes_renewed'' ''recovery'' (rq_ip r) d1))))"

section \<open>Facts\<close>

lemma Match_newer:
  assumes "Match hmac secret typed now lastUsed = (step, True)"
  shows "lastUsed < step" "\<bar>step - StepAt now\<bar> \<le> Skew" "Code hmac secret step = filter (\<lambda>c. c \<noteq> CHR '' '') typed"
proof -
  let ?cur = "StepAt now" and ?code = "filter (\<lambda>c. c \<noteq> CHR '' '') typed"
  have m: "match_steps (Code hmac secret) ?code lastUsed [?cur - Skew, ?cur, ?cur + Skew] (0, False) = (step, True)"
    using assms by (auto simp: Match_def Let_def split: if_splits)
  from match_steps_spec [OF m] show "lastUsed < step" "\<bar>step - ?cur\<bar> \<le> Skew" "Code hmac secret step = ?code" by auto
qed

text \<open>The factors a verification leaves: only the accepted one changed, and some unverified ones may be gone.\<close>

lemma acceptFactor_factors:
  assumes "acceptFactor uuid env attempt fid factor step d = (Inr v, d')"
  shows "set (mfa_factors d') \<subseteq> set (update_where (\<lambda>f. m_id f = fid)
    (\<lambda>f. f\<lparr>m_status := FactorVerified, m_last_used_step := Some step, m_updated_at := sql_now env\<rparr>) (mfa_factors d))"
    "fc_ID (vf_Factor v) = fid"
  using assms by (auto simp: acceptFactor_def Let_def delete_factors_def scanFactor_def split: option.splits if_splits dest!: find_Some_mem)

lemma VerifyFactor_Inl: "VerifyFactor uuid env attempt limits check d = (Inl e, d') \<Longrightarrow> mfa_factors d' = mfa_factors d"
  by (auto simp: VerifyFactor_def Let_def acceptFactor_def recordFailure_def split: option.splits sum.splits if_splits prod.splits)

lemma VerifyFactor_fields [simp]:
  "users (snd (VerifyFactor uuid env attempt limits check d)) = users d"
  "refresh_tokens (snd (VerifyFactor uuid env attempt limits check d)) = refresh_tokens d"
  by (auto simp: VerifyFactor_def Let_def acceptFactor_def recordFailure_def delete_factors_def
      split: option.splits sum.splits if_splits prod.splits)

text \<open>A code put to the check of its account, and the factor and step it was accepted for.\<close>

record factor_query =
  fq_request :: request
  fq_keys :: mfa_keys
  fq_limits :: MFALimits
  fq_attempt :: FactorAttempt
  fq_code :: string

definition last_step :: "factor_row \<Rightarrow> int" where
  "last_step f = coalesce (m_last_used_step f) 0"

definition try_factor :: "factor_query \<Rightarrow> db \<Rightarrow> (string \<times> int) option \<times> db" where
  "try_factor q d =
     (case VerifyFactor (rq_uuid_parse (fq_request q)) (rq_sql (fq_request q)) (fq_attempt q) (fq_limits q)
             (factor_check (fq_request q) (fq_keys q) (fa_UserID (fq_attempt q)) (fq_code q)) d of
        (Inl _, d') \<Rightarrow> (None, d')
      | (Inr v, d') \<Rightarrow>
          (case List.find (\<lambda>f. m_id f = fc_ID (vf_Factor v)) (mfa_factors d') of
             None \<Rightarrow> (None, d') | Some f \<Rightarrow> (Some (m_id f, last_step f), d')))"

lemma try_factor_step:
  assumes "wf_db d" "try_factor q d = (res, d')"
  shows "wf_db d'"
    and "\<forall>f \<in> set (mfa_factors d). m_id f = fid \<longrightarrow> n \<le> last_step f \<Longrightarrow> f \<in> set (mfa_factors d') \<Longrightarrow> m_id f = fid \<Longrightarrow> n \<le> last_step f"
    and "res = Some (fid, step) \<Longrightarrow> (\<exists>f \<in> set (mfa_factors d). m_id f = fid \<and> last_step f < step) \<and>
       (\<forall>f \<in> set (mfa_factors d'). m_id f = fid \<longrightarrow> last_step f = step)"
proof -
  let ?r = "fq_request q"
  let ?V = "VerifyFactor (rq_uuid_parse ?r) (rq_sql ?r) (fq_attempt q) (fq_limits q)
      (factor_check ?r (fq_keys q) (fa_UserID (fq_attempt q)) (fq_code q)) d"
  obtain x d1 where V: "?V = (x, d1)" by (cases ?V)
  have d1: "d' = d1" using assms(2) V by (auto simp: try_factor_def split: sum.splits option.splits)
  show wf': "wf_db d'" using wf_VerifyFactor [OF assms(1)] V d1 by (metis snd_conv)
  have inr: "\<exists>f0 step0 fid0. f0 \<in> set (mfa_factors d) \<and> m_id f0 = fid0 \<and> last_step f0 < step0 \<and> fc_ID (vf_Factor v) = fid0 \<and>
      (\<forall>f \<in> set (mfa_factors d'). m_id f = fid0 \<and> last_step f = step0 \<or> m_id f \<noteq> fid0 \<and> f \<in> set (mfa_factors d))"
    if x: "x = Inr v" for v
  proof (rule VerifyFactor_Inr [OF V [unfolded x]])
    fix fid0 f0 step0
    assume f0: "f0 \<in> set (mfa_factors d)" "m_id f0 = fid0" and
      chk: "factor_check ?r (fq_keys q) (fa_UserID (fq_attempt q)) (fq_code q)
        \<lparr>sc_Factor = scanFactor f0, sc_SecretSealed = m_secret_enc f0, sc_LastUsedStep = coalesce (m_last_used_step f0) 0\<rparr> = Inr (step0, True)"
      and acc: "acceptFactor (rq_uuid_parse ?r) (rq_sql ?r) (fq_attempt q) fid0 (scanFactor f0) step0 d = (Inr v, d1)"
    from chk have "last_step f0 < step0"
      by (auto simp: factor_check_def last_step_def dest: Match_newer split: option.splits)
    moreover have "m_id f = fid0 \<and> last_step f = step0 \<or> m_id f \<noteq> fid0 \<and> f \<in> set (mfa_factors d)" if "f \<in> set (mfa_factors d')" for f
      using subsetD [OF acceptFactor_factors(1) [OF acc], of f] that d1
      by (auto simp: set_update_where last_step_def coalesce_def split: if_splits)
    ultimately show ?thesis using f0 acceptFactor_factors(2) [OF acc] by blast
  qed
  show "n \<le> last_step f" if "\<forall>f \<in> set (mfa_factors d). m_id f = fid \<longrightarrow> n \<le> last_step f" "f \<in> set (mfa_factors d')" "m_id f = fid" for f
  proof (cases x)
    case (Inl e)
    then show ?thesis using that V VerifyFactor_Inl d1 by metis
  next
    case (Inr v)
    with inr obtain f0 step0 where "f0 \<in> set (mfa_factors d)" "last_step f0 < step0"
      "\<forall>f \<in> set (mfa_factors d'). m_id f = m_id f0 \<and> last_step f = step0 \<or> m_id f \<noteq> m_id f0 \<and> f \<in> set (mfa_factors d)" by blast
    then show ?thesis using that by fastforce
  qed
  show "(\<exists>f \<in> set (mfa_factors d). m_id f = fid \<and> last_step f < step) \<and> (\<forall>f \<in> set (mfa_factors d'). m_id f = fid \<longrightarrow> last_step f = step)"
    if res: "res = Some (fid, step)"
  proof -
    from res assms(2) V obtain v f where x: "x = Inr v" and f: "List.find (\<lambda>f. m_id f = fc_ID (vf_Factor v)) (mfa_factors d') = Some f"
      "fid = m_id f" "step = last_step f"
      by (auto simp: try_factor_def split: sum.splits option.splits)
    from inr [OF x] obtain f0 step0 where f0: "f0 \<in> set (mfa_factors d)" "last_step f0 < step0" "fc_ID (vf_Factor v) = m_id f0"
      and new: "\<forall>f \<in> set (mfa_factors d'). m_id f = m_id f0 \<and> last_step f = step0 \<or> m_id f \<noteq> m_id f0 \<and> f \<in> set (mfa_factors d)" by blast
    from find_Some_mem [OF f(1)] f0(3) have "f \<in> set (mfa_factors d')" "m_id f = m_id f0" by simp_all
    with new f(2,3) have "fid = m_id f0" "step = step0" by auto
    with f0 new show ?thesis by blast
  qed
qed

lemma try_factor_run:
  assumes "wf_db d" "\<forall>f \<in> set (mfa_factors d). m_id f = fid \<longrightarrow> n \<le> last_step f"
  shows "sorted_wrt (<) (map snd (filter (\<lambda>p. fst p = fid) (List.map_filter (\<lambda>x. x) (fst (serve try_factor qs d))))) \<and>
    (\<forall>p \<in> set (List.map_filter (\<lambda>x. x) (fst (serve try_factor qs d))). fst p = fid \<longrightarrow> n < snd p)"
  using assms
proof (induction qs arbitrary: d n)
  case (Cons q qs)
  obtain res d' where q: "try_factor q d = (res, d')" by fastforce
  note step = try_factor_step [OF Cons.prems(1) q]
  show ?case
  proof (cases "\<exists>s. res = Some (fid, s)")
    case True
    then obtain s where res: "res = Some (fid, s)" by blast
    have "n < s" "\<forall>f \<in> set (mfa_factors d'). m_id f = fid \<longrightarrow> s \<le> last_step f"
      using step(3) [OF res] Cons.prems(2) by fastforce+
    with Cons.IH [OF step(1) this(2)] show ?thesis using q res by (force simp: List.map_filter_def)
  next
    case False
    have "\<forall>f \<in> set (mfa_factors d'). m_id f = fid \<longrightarrow> n \<le> last_step f" using step(2) Cons.prems(2) by blast
    from Cons.IH [OF step(1) this] show ?thesis using q False by (cases res) (auto simp: List.map_filter_def)
  qed
qed (simp add: List.map_filter_def)

section \<open>Properties\<close>

text \<open>C21: No code is accepted twice. Over any sequence of verifications, by whatever sessions and at whatever times, the
  time steps for which one factor's codes are accepted strictly increase; so a code that was accepted once, and
  every code of an earlier step, is refused from then on.\<close>

theorem totp_steps_increase:
  assumes "wf_db d"
  shows "sorted_wrt (<) (map snd (filter (\<lambda>p. fst p = fid) (List.map_filter (\<lambda>x. x) (fst (serve try_factor qs d)))))"
proof -
  have "\<forall>f \<in> set (mfa_factors d). m_id f = fid \<longrightarrow> Min (insert 0 (last_step ` set (mfa_factors d))) \<le> last_step f" by simp
  from try_factor_run [OF assms this] show ?thesis by blast
qed

definition sample_keys :: mfa_keys where
  "sample_keys = \<lparr>mk_aead = sample_aead, mk_mac = (\<lambda>s. s)\<rparr>"

definition sample_step_db :: db where
  "sample_step_db = sample_db\<lparr>mfa_factors := [sample_factor\<lparr>m_secret_enc := Seal sample_aead ''nn'' ''s'' 1 ''f1'', m_last_used_step := None\<rparr>],
     mfa_challenges := [\<lparr>h_id = ''c1'', h_factor_id = ''f1'', h_ip = ''x'', h_expires_at = 900\<rparr>]\<rparr>"

lemma wf_sample_step_db: "wf_db sample_step_db"
  by (simp add: sample_step_db_def sample_factor_def sample_defs wf_db_def wf_defs unique_on_def unique_some_def)

definition sample_query :: factor_query where
  "sample_query = \<lparr>fq_request = sample_request, fq_keys = sample_keys, fq_limits = sample_limits,
     fq_attempt = \<lparr>fa_UserID = 1, fa_FactorID = ''f1'', fa_ChallengeID = ''c1'', fa_FamilyID = ''f1'', fa_CallerAAL2 = False\<rparr>, fq_code = ''000000''\<rparr>"

lemma sample_match: "Match (rq_hmac_sha1 sample_request) secret ''000000'' (rq_now sample_request) 0 = (1, True)"
  by (simp add: Match_def Let_def sample_request_def sample_code sixDigits_def is_digit_def StepAt_def)

lemma sample_check:
  assumes "sc_SecretSealed x = Seal sample_aead ''nn'' ''s'' 1 ''f1''" "fc_ID (sc_Factor x) = ''f1''" "sc_LastUsedStep x = 0"
  shows "factor_check sample_request sample_keys 1 ''000000'' x = Inr (1, True)"
proof -
  have "Open sample_aead (Seal sample_aead ''nn'' ''s'' 1 ''f1'') 1 ''f1'' = Some ''s''" by code_simp
  then show ?thesis using assms by (simp add: factor_check_def sample_keys_def sample_match)
qed

theorem totp_steps_increase_witness:
  "wf_db sample_step_db \<and> fst (try_factor sample_query sample_step_db) = Some (''f1'', 1) \<and>
   sorted_wrt (<) (map snd (filter (\<lambda>p. fst p = ''f1'')
     (List.map_filter (\<lambda>x. x) (fst (serve try_factor [sample_query, sample_query] sample_step_db)))))"
proof (intro conjI)
  show "wf_db sample_step_db" by (rule wf_sample_step_db)
  show "fst (try_factor sample_query sample_step_db) = Some (''f1'', 1)"
    by (simp add: try_factor_def VerifyFactor_def sample_query_def sample_check sample_step_db_def sample_factor_def sample_defs
        user_ids_def lockFactor_def stale_factor_def scanFactor_def liveChallenge_def exists_where_iff failureBudget_def Let_def
        day_failures_def count_where_def sample_limits_def acceptFactor_def coalesce_def last_step_def update_where_def
        sample_request_def [THEN arg_cong [where f = rq_sql]] sample_request_def [THEN arg_cong [where f = rq_uuid_parse]]
        delete_factors_def delete_where_def)
  show "sorted_wrt (<) (map snd (filter (\<lambda>p. fst p = ''f1'')
     (List.map_filter (\<lambda>x. x) (fst (serve try_factor [sample_query, sample_query] sample_step_db)))))"
    by (rule totp_steps_increase [OF wf_sample_step_db])
qed

end
