(* ===== verification/HandlerSignIn.thy ===== *)
theory HandlerSignIn
  imports Actions Redirect HandlerMfa
begin

text \<open>
  Sign-in at a provider and by emailed code or link, and linking such an identity to an account
  (\<open>internal/handler\<close>: \<open>oauth.go\<close>, \<open>email_otp.go\<close>, \<open>linking.go\<close>, \<open>link_notice.go\<close>). The random values a request draws
  and the identity the provider answers with are read from the request; \<open>rq_s256\<close> is the PKCE challenge of a verifier.
  Mail sent after the answer is part of the step.
\<close>

section \<open>Messages and settings\<close>

definition flowTTL :: duration where "flowTTL = 10 * minute"
definition authCodeTTL :: duration where "authCodeTTL = 5 * minute"
definition maxFullName :: nat where "maxFullName = 100"
definition maxRedirectLength :: nat where "maxRedirectLength = 2048"
definition maxEmailLength :: nat where "maxEmailLength = 100"
definition otpTTL :: duration where "otpTTL = 10 * minute"
definition otpMaxAttempts :: int where "otpMaxAttempts = 5"
definition reauthWindow :: duration where "reauthWindow = 5 * minute"
definition linkTicketTTL :: duration where "linkTicketTTL = 2 * minute"

definition codeAccessDenied :: fault where "codeAccessDenied = ''access_denied''"
definition codeServerError :: fault where "codeServerError = ''server_error''"
definition codeUnavailable :: fault where "codeUnavailable = ''temporarily_unavailable''"
definition codeEmailUnverified :: fault where "codeEmailUnverified = ''email_not_verified''"
definition codeSignupDisabled :: fault where "codeSignupDisabled = ''signup_disabled''"
definition codeAccountDisabled :: fault where "codeAccountDisabled = ''account_disabled''"
definition codeInvalidEmail :: fault where "codeInvalidEmail = ''invalid_email''"
definition errRedirectNotAllowed :: fault where "errRedirectNotAllowed = ''redirect_to is not an allowed redirect URL''"
definition errChallengeRequired :: fault where "errChallengeRequired = ''code_challenge with code_challenge_method=S256 is required''"
definition errFlowInvalid :: fault where "errFlowInvalid = ''sign-in state is invalid or has expired''"
definition errOTPType :: fault where "errOTPType = ''type must be magiclink or email''"
definition errOTPKey :: fault where "errOTPKey = ''email sign-in is unavailable''"
definition otpSentMessage :: string where "otpSentMessage = ''If the address can sign in, a sign-in email has been sent''"
definition signInFailedMsg :: fault where "signInFailedMsg = ''sign-in failed''"
definition codeReauthRequired :: fault where "codeReauthRequired = ''reauthentication_required''"
definition codeIdentityExists :: fault where "codeIdentityExists = ''identity_already_exists''"
definition codeLastSignInMethod :: fault where "codeLastSignInMethod = ''last_sign_in_method''"
definition codeIdentityNotFound :: fault where "codeIdentityNotFound = ''identity_not_found''"

definition signInSettings :: "request \<Rightarrow> ProjectInfo answer" where
  "signInSettings r = (case rq_fresh r of None \<Rightarrow> Inl (503, errSettingsUnreadable) | Some info \<Rightarrow> Inr info)"

definition verifier_matches :: "request \<Rightarrow> string \<Rightarrow> string \<Rightarrow> bool" where
  "verifier_matches r verifier challenge = VerifierMatches (\<lambda>x. x) (rq_s256 r) verifier challenge"

text \<open>\<open>auditEvents\<close> and \<open>audit\<close>.\<close>

definition audit :: "request \<Rightarrow> int \<Rightarrow> string \<Rightarrow> IdentityOutcome \<Rightarrow> db \<Rightarrow> db" where
  "audit r userID m outcome d =
     recordAudit r userID (case outcome of IdentityCreated \<Rightarrow> ''sign_up'' | IdentityTookOver \<Rightarrow> ''takeover'' | _ \<Rightarrow> ''sign_in'') m (rq_ip r) d"

definition noticeLinked :: "AuthHandler \<Rightarrow> request \<Rightarrow> int \<Rightarrow> string \<Rightarrow> string \<Rightarrow> service \<Rightarrow> service" where
  "noticeLinked h r userID m linkedEmail s =
     (case AccountByID userID (sv_db s) of
        Inl _ \<Rightarrow> s
      | Inr account \<Rightarrow>
          if \<not> a_EmailVerified account \<or> a_Email account = [] then s
          else sendMail h r \<lparr>msg_ProjectID = rq_project r, msg_To = a_Email account, msg_Template = ''identity_linked'',
            msg_Data = [(''userEmail'', a_Email account), (''method'', m), (''linkedEmail'', linkedEmail)]\<rparr> s)"

section \<open>The browser\<close>

record cookie =
  ck_Name :: string
  ck_Value :: string
  ck_Path :: string
  ck_Secure :: bool
  ck_MaxAge :: int

text \<open>Where the browser is sent: to the provider with a flow, or back to the app.\<close>

datatype target = AtProvider OAuthProvider oauth_flow cookie | AtApp string

definition stateCookieName :: "request \<Rightarrow> string \<Rightarrow> string" where
  "stateCookieName r state = ''excb_oauth_'' @ take 16 (rq_sha r state)"

definition stateCookie :: "request \<Rightarrow> string \<Rightarrow> string \<Rightarrow> bool \<Rightarrow> int \<Rightarrow> cookie" where
  "stateCookie r path state secure maxAge =
     \<lparr>ck_Name = stateCookieName r state, ck_Value = state, ck_Path = path, ck_Secure = secure, ck_MaxAge = maxAge\<rparr>"

definition bindToBrowser :: "request \<Rightarrow> string \<Rightarrow> string \<Rightarrow> cookie" where
  "bindToBrowser r callbackURL state =
     (case rq_url r callbackURL of
        Some parsed \<Rightarrow>
          if url_Path parsed \<noteq> [] then stateCookie r (url_Path parsed) state (url_Scheme parsed = ''https'') (flowTTL div second)
          else stateCookie r ''/'' state True (flowTTL div second)
      | None \<Rightarrow> stateCookie r ''/'' state True (flowTTL div second))"

definition boundToBrowser :: "request \<Rightarrow> (string \<times> string) list \<Rightarrow> string \<Rightarrow> bool" where
  "boundToBrowser r cookies state =
     (state \<noteq> [] \<and> map_of cookies (stateCookieName r state) = Some state)"

section \<open>Starting at the provider\<close>

definition startAtProvider :: "request \<Rightarrow> string \<Rightarrow> OAuthProvider \<Rightarrow> FlowState \<Rightarrow> target action" where
  "startAtProvider r provider settings app =
     (case rq_flow r of
        None \<Rightarrow> refuse (500, ''internal error'')
      | Some flow \<Rightarrow>
          andThen (on_store (\<lambda>_. (500, ''failed to start sign-in''))
            (SaveFlowState (rq_sql r) \<lparr>fs_StateHash = rq_sha r (fl_State flow), fs_Provider = provider, fs_IDPCodeVerifier = fl_Verifier flow,
               fs_Nonce = fl_Nonce flow, fs_ClientCodeChallenge = fs_ClientCodeChallenge app, fs_RedirectTo = fs_RedirectTo app,
               fs_LinkUserID = fs_LinkUserID app, fs_ExpiresAt = rq_now r + flowTTL\<rparr>))
          (\<lambda>_. pass (AtProvider settings flow (bindToBrowser r (op_CallbackURL settings) (fl_State flow)))))"

definition linkTicketHash :: "request \<Rightarrow> string \<Rightarrow> string" where
  "linkTicketHash r ticket = rq_sha r (''link|'' @ ticket)"

definition authorizeLink :: "AuthHandler \<Rightarrow> request \<Rightarrow> string \<Rightarrow> target action" where
  "authorizeLink h r ticket =
     andThen (attempt (signInSettings r)) (\<lambda>info.
     andThen (storeFor r) (\<lambda>_.
     andThen (on_store (\<lambda>_. (400, errFlowInvalid)) (ConsumeFlowState (rq_sql r) (linkTicketHash r ticket))) (\<lambda>pending.
     andThen (require (fs_LinkUserID pending \<noteq> 0 \<and> fs_IDPCodeVerifier pending = []) (400, errFlowInvalid)) (\<lambda>_.
       case enabledProvider h r info (fs_Provider pending) of
         None \<Rightarrow> refuse (404, codeMethodOff)
       | Some settings \<Rightarrow>
           andThen (require (AllowedRedirect (rq_url r) (fs_RedirectTo pending) (allowedRedirects info) \<noteq> None) (400, errRedirectNotAllowed)) (\<lambda>_.
           startAtProvider r (fs_Provider pending) settings pending)))))"

record authorizeQuery =
  aq_link_ticket :: string
  aq_provider :: string
  aq_redirect_to :: string
  aq_code_challenge :: string
  aq_code_challenge_method :: string

definition redirect_target :: "request \<Rightarrow> ProjectInfo \<Rightarrow> string \<Rightarrow> string answer" where
  "redirect_target r info raw =
     (case AllowedRedirect (rq_url r) raw (allowedRedirects info) of
        None \<Rightarrow> Inl (400, errRedirectNotAllowed)
      | Some t \<Rightarrow> if length t > maxRedirectLength then Inl (400, errRedirectNotAllowed) else Inr t)"

definition empty_flow :: FlowState where
  "empty_flow = \<lparr>fs_StateHash = [], fs_Provider = [], fs_IDPCodeVerifier = [], fs_Nonce = [], fs_ClientCodeChallenge = [], fs_RedirectTo = [],
     fs_LinkUserID = 0, fs_ExpiresAt = 0\<rparr>"

definition Authorize :: "AuthHandler \<Rightarrow> request \<Rightarrow> authorizeQuery \<Rightarrow> target action" where
  "Authorize h r q =
     (if aq_link_ticket q \<noteq> [] then authorizeLink h r (aq_link_ticket q)
      else
        andThen (attempt (signInSettings r)) (\<lambda>info.
          case enabledProvider h r info (aq_provider q) of
            None \<Rightarrow> refuse (404, codeMethodOff)
          | Some settings \<Rightarrow>
              andThen (attempt (redirect_target r info (aq_redirect_to q))) (\<lambda>redirectTo.
              andThen (require (aq_code_challenge_method q = ''S256'' \<and> ValidChallenge (aq_code_challenge q)) (400, errChallengeRequired)) (\<lambda>_.
              andThen (storeFor r) (\<lambda>_.
              startAtProvider r (aq_provider q) settings
                (empty_flow\<lparr>fs_ClientCodeChallenge := aq_code_challenge q, fs_RedirectTo := redirectTo\<rparr>))))))"

section \<open>Coming back from the provider\<close>

definition displayName :: "oauth_identity \<Rightarrow> string" where
  "displayName identity =
     (let name = TrimSpace (oi_Name identity);
          name1 = (if name = [] then fst (Cut (CHR ''@'') (oi_Email identity)) else name)
      in first_runes maxFullName name1)"

definition hookRefusalCode :: "fault \<Rightarrow> fault" where
  "hookRefusalCode e = (if e = errSignupDenied then errSignupDenied else errHookFailed)"

text \<open>
  A sign-in that may make the account: tried without first, so that only a new account spends the sign-up budget and
  asks the hook. \<open>limited\<close> and \<open>denied\<close> are the answers of the two.
\<close>

definition sign_in_or_create :: "AuthHandler \<Rightarrow> request \<Rightarrow> (bool \<Rightarrow> db \<Rightarrow> (account \<times> IdentityOutcome) outcome) \<Rightarrow> bool \<Rightarrow> newUser
    \<Rightarrow> 'e \<Rightarrow> (fault \<Rightarrow> 'e) \<Rightarrow> ('e, store_error + (account \<times> IdentityOutcome)) steps" where
  "sign_in_or_create h r try_it mayCreate user limited denied s =
     (case on_db (try_it False) s of
        (res, s1) \<Rightarrow>
          if res = Inl ErrSignupsDisabled \<and> mayCreate
          then (case AllowSignup r s1 of
              (allowed, s2) \<Rightarrow>
                if \<not> allowed then (Inl limited, s2)
                else (case on_db (allowNewUser h r user) s2 of
                    (Some e, s3) \<Rightarrow> (Inl (denied e), s3)
                  | (None, s3) \<Rightarrow> (case on_db (try_it True) s3 of (res', s4) \<Rightarrow> (Inr res', s4))))
          else (Inr res, s1))"

definition identity_failure :: "store_error \<Rightarrow> fault" where
  "identity_failure e =
     (case e of ErrSignupsDisabled \<Rightarrow> codeSignupDisabled | ErrAccountDisabled \<Rightarrow> codeAccountDisabled | _ \<Rightarrow> codeServerError)"

definition signInIdentity :: "AuthHandler \<Rightarrow> request \<Rightarrow> string \<Rightarrow> oauth_identity \<Rightarrow> bool \<Rightarrow> (fault, account \<times> IdentityOutcome) steps" where
  "signInIdentity h r provider identity allowCreate =
     (let claim = \<lparr>Provider = provider, Subject = oi_Subject identity, ClaimEmail = oi_Email identity, ClaimFullName = displayName identity\<rparr> in
      andThen (sign_in_or_create h r (SignInWithIdentity (rq_sql r) claim) allowCreate
        \<lparr>nu_Method = ''oauth'', nu_Provider = provider, nu_Email = oi_Email identity, nu_IsGuest = False\<rparr> codeRateLimited hookRefusalCode) (\<lambda>res.
      andThen (attempt (map_error identity_failure res)) (\<lambda>(account, outcome).
      andThen (require (a_Enabled account) codeAccountDisabled) (\<lambda>_.
      andThen (require (validate_roles (roles_of account) = None) codeAccessDenied) (\<lambda>_.
      pass (account, outcome))))))"

definition issueAuthCode :: "request \<Rightarrow> AuthCode \<Rightarrow> (fault, string) steps" where
  "issueAuthCode r code =
     (case rq_token r of
        None \<Rightarrow> refuse codeServerError
      | Some plaintext \<Rightarrow>
          andThen (on_store (\<lambda>_. codeServerError)
            (SaveAuthCode (rq_sql r) (code\<lparr>ac_CodeHash := rq_sha r plaintext, ac_ExpiresAt := rq_now r + authCodeTTL\<rparr>)))
          (\<lambda>_. pass plaintext))"

definition no_link :: IdentityClaim where
  "no_link = \<lparr>Provider = [], Subject = [], ClaimEmail = [], ClaimFullName = []\<rparr>"

definition code_for :: "int \<Rightarrow> string \<Rightarrow> IdentityClaim \<Rightarrow> AuthCode" where
  "code_for userID challenge link = \<lparr>ac_CodeHash = [], ac_UserID = userID, ac_CodeChallenge = challenge, ac_Link = link, ac_ExpiresAt = 0\<rparr>"

definition identify :: "request \<Rightarrow> FlowState \<Rightarrow> string \<Rightarrow> fault + oauth_identity" where
  "identify r flow providerCode =
     map_error (\<lambda>e. case e of identify_email_not_verified \<Rightarrow> codeEmailUnverified | identify_failed \<Rightarrow> codeServerError)
       (rq_identify r (fs_Provider flow) providerCode (fs_IDPCodeVerifier flow) (fs_Nonce flow))"

definition finishSignIn :: "AuthHandler \<Rightarrow> request \<Rightarrow> FlowState \<Rightarrow> string \<Rightarrow> (fault, string) steps" where
  "finishSignIn h r flow providerCode =
     andThen (attempt (map_error (\<lambda>_. codeUnavailable) (signInSettings r))) (\<lambda>info.
     andThen (require (enabledProvider h r info (fs_Provider flow) \<noteq> None) codeMethodOff) (\<lambda>_.
     andThen (require (rq_provider_secret r (fs_Provider flow) \<noteq> None) codeUnavailable) (\<lambda>_.
     andThen (attempt (identify r flow providerCode)) (\<lambda>identity.
     andThen (require (length (oi_Email identity) \<le> maxEmailLength) codeInvalidEmail) (\<lambda>_.
       if fs_LinkUserID flow \<noteq> 0
       then issueAuthCode r (code_for (fs_LinkUserID flow) (fs_ClientCodeChallenge flow)
              \<lparr>Provider = fs_Provider flow, Subject = oi_Subject identity, ClaimEmail = oi_Email identity, ClaimFullName = []\<rparr>)
       else
         andThen (signInIdentity h r (fs_Provider flow) identity (NewUsersAllowed info)) (\<lambda>(account, outcome).
         andThen (change_db (audit r (a_ID account) (fs_Provider flow) outcome)) (\<lambda>_.
         andThen (change (\<lambda>s. if outcome = IdentityLinked then noticeLinked h r (a_ID account) (fs_Provider flow) (oi_Email identity) s else s)) (\<lambda>_.
         issueAuthCode r (code_for (a_ID account) (fs_ClientCodeChallenge flow) no_link)))))))))"

record callbackQuery =
  cq_provider :: string
  cq_state :: string
  cq_error :: string
  cq_code :: string
  cq_cookies :: "(string \<times> string) list"

text \<open>Once the state is known, every failure goes back to the app.\<close>

definition Callback :: "AuthHandler \<Rightarrow> request \<Rightarrow> callbackQuery \<Rightarrow> target action" where
  "Callback h r q =
     andThen (require (boundToBrowser r (cq_cookies q) (cq_state q)) (400, errFlowInvalid)) (\<lambda>_.
     andThen (storeFor r) (\<lambda>_.
     andThen (on_store (\<lambda>_. (400, errFlowInvalid)) (ConsumeFlowState (rq_sql r) (rq_sha r (cq_state q)))) (\<lambda>flow.
     andThen (require (fs_Provider flow = cq_provider q \<and> fs_IDPCodeVerifier flow \<noteq> []) (400, errFlowInvalid)) (\<lambda>_.
       if cq_error q \<noteq> []
       then pass (AtApp (WithError (rq_url r) (fs_RedirectTo flow) (if cq_error q = codeAccessDenied then codeAccessDenied else codeServerError)))
       else (\<lambda>s. case finishSignIn h r flow (cq_code q) s of
           (Inl failure, s1) \<Rightarrow> (Inr (AtApp (WithError (rq_url r) (fs_RedirectTo flow) failure)), s1)
         | (Inr code, s1) \<Rightarrow> (Inr (AtApp (WithParam (rq_url r) (fs_RedirectTo flow) ''code'' code)), s1))))))"

section \<open>Linking an identity\<close>

definition recentlySignedIn :: "Claims \<Rightarrow> time \<Rightarrow> bool" where
  "recentlySignedIn claims now =
     (c_AuthTime claims \<noteq> 0 \<and> (let age = now - c_AuthTime claims * second in - minute < age \<and> age \<le> reauthWindow))"

definition freshEnough :: "Claims \<Rightarrow> bool \<Rightarrow> time \<Rightarrow> bool" where
  "freshEnough claims guest now =
     (recentlySignedIn claims now \<or>
      guest \<and> c_IssuedAt claims \<noteq> 0 \<and> (let age = now - c_IssuedAt claims * second in - minute < age \<and> age \<le> reauthWindow))"

definition freshEndUser :: "request \<Rightarrow> Claims \<Rightarrow> unit action" where
  "freshEndUser r claims = require (recentlySignedIn claims (rq_now r)) (403, codeReauthRequired)"

definition freshLinker :: "request \<Rightarrow> Claims \<Rightarrow> unit action" where
  "freshLinker r claims = (if c_IsGuest claims = Some True then pass () else freshEndUser r claims)"

definition linkFailure :: "store_error \<Rightarrow> nat \<times> fault" where
  "linkFailure e =
     (case e of
        ErrIdentityExists \<Rightarrow> (409, codeIdentityExists)
      | ErrAddressUnproven \<Rightarrow> (403, codeEmailUnverified)
      | ErrAccountDisabled \<Rightarrow> (403, errAccountDisabled)
      | ErrNotFound \<Rightarrow> (400, errInvalidGrant)
      | ErrUnavailable \<Rightarrow> (503, errProjectDBUnavailable)
      | _ \<Rightarrow> (500, ''failed to link identity''))"

definition linkable :: "int \<Rightarrow> unit action" where
  "linkable userID = reading (\<lambda>d. map_error linkFailure (LinkableAccount userID d))"

definition linkableFresh :: "request \<Rightarrow> Claims \<Rightarrow> unit action" where
  "linkableFresh r claims =
     andThen
       (if recentlySignedIn claims (rq_now r) then pass ()
        else
          andThen (reading (\<lambda>d. map_error (\<lambda>e. storeFailure e errUserNotFound) (AccountByID (c_UserID claims) d))) (\<lambda>account.
          require (freshEnough claims (a_IsGuest account) (rq_now r)) (403, codeReauthRequired)))
       (\<lambda>_. linkable (c_UserID claims))"

definition linkingSettings :: "request \<Rightarrow> ProjectInfo action" where
  "linkingSettings r =
     andThen (attempt (signInSettings r)) (\<lambda>info.
     andThen (require (OAuthEnabled (rq_url r) info \<or> pi_EmailOTPEnabled info) (404, codeMethodOff)) (\<lambda>_. pass info))"

text \<open>The end user behind \<open>RequireJWT\<close> and \<open>requireEndUser\<close>, and the second factor an enrolled account has to show.\<close>

definition endUser :: "request \<Rightarrow> Claims action" where
  "endUser r = andThen (require (rq_claims r \<noteq> None) (401, ''invalid or expired token'')) (\<lambda>_. attempt (requireEndUser r))"

definition second_factor :: "ProjectInfo \<Rightarrow> Claims \<Rightarrow> unit action" where
  "second_factor info claims = reading (\<lambda>d. case enrolledNeedsAAL2 info claims d of Some f \<Rightarrow> Inl f | None \<Rightarrow> Inr ())"

definition ListIdentities :: "request \<Rightarrow> (identity_row list \<times> bool) action" where
  "ListIdentities r =
     andThen (endUser r) (\<lambda>claims.
     andThen (linkingSettings r) (\<lambda>_.
     andThen (storeFor r) (\<lambda>_.
     andThen (reading (\<lambda>d. map_error (\<lambda>e. storeFailure e errUserNotFound) (AccountByID (c_UserID claims) d))) (\<lambda>account.
     reading (\<lambda>d. Inr (listIdentities (c_UserID claims) d, HasUsablePassword (a_PasswordHash account)))))))"

record linkRequest =
  lr_Provider :: string
  lr_RedirectTo :: string
  lr_CodeChallenge :: string
  lr_CodeChallengeMethod :: string

definition save_ticket :: "request \<Rightarrow> linkRequest \<Rightarrow> string \<Rightarrow> int \<Rightarrow> string \<Rightarrow> string action" where
  "save_ticket r req redirectTo userID ticket =
     andThen (on_store (\<lambda>_. (500, ''failed to start linking''))
       (SaveFlowState (rq_sql r) (empty_flow\<lparr>fs_StateHash := linkTicketHash r ticket, fs_Provider := lr_Provider req,
          fs_ClientCodeChallenge := lr_CodeChallenge req, fs_RedirectTo := redirectTo, fs_LinkUserID := userID,
          fs_ExpiresAt := rq_now r + linkTicketTTL\<rparr>)))
     (\<lambda>_. pass ticket)"

definition StartProviderLink :: "AuthHandler \<Rightarrow> request \<Rightarrow> linkRequest option \<Rightarrow> string action" where
  "StartProviderLink h r body =
     andThen (endUser r) (\<lambda>claims.
     case body of
       None \<Rightarrow> refuse (400, ''invalid request'')
     | Some req \<Rightarrow>
         andThen (linkingSettings r) (\<lambda>info.
         andThen (freshLinker r claims) (\<lambda>_.
         andThen (require (enabledProvider h r info (lr_Provider req) \<noteq> None) (404, codeMethodOff)) (\<lambda>_.
         andThen (attempt (redirect_target r info (lr_RedirectTo req))) (\<lambda>redirectTo.
         andThen (require (lr_CodeChallengeMethod req = ''S256'' \<and> ValidChallenge (lr_CodeChallenge req)) (400, errChallengeRequired)) (\<lambda>_.
         andThen (storeFor r) (\<lambda>_.
         andThen (linkableFresh r claims) (\<lambda>_.
         andThen (second_factor info claims) (\<lambda>_.
           case rq_token r of
             None \<Rightarrow> refuse (500, ''internal error'')
           | Some ticket \<Rightarrow> save_ticket r req redirectTo (c_UserID claims) ticket)))))))))"

definition commitLink :: "AuthHandler \<Rightarrow> request \<Rightarrow> int \<Rightarrow> IdentityClaim \<Rightarrow> unit action" where
  "commitLink h r userID claim =
     andThen (\<lambda>s. case on_db (guestUpgradeAllowed h r userID (Provider claim) (ClaimEmail claim)) s of
         (Some e, s1) \<Rightarrow> (Inl (sessionFailure e), s1) | (None, s1) \<Rightarrow> (Inr (), s1)) (\<lambda>_.
     andThen (on_store linkFailure (LinkIdentity (rq_sql r) userID claim)) (\<lambda>result.
     andThen (change_db (fold (\<lambda>squatter. recordAudit r squatter ''takeover'' (Provider claim) (rq_ip r)) (Deleted result))) (\<lambda>_.
     andThen (change_db (recordAudit r userID ''identity_linked'' (Provider claim) (rq_ip r))) (\<lambda>_.
       if Upgraded result then change_db (recordAudit r userID ''guest_upgraded'' (Provider claim) (rq_ip r))
       else change (noticeLinked h r userID (Provider claim) (ClaimEmail claim))))))"

definition link_session :: "AuthHandler \<Rightarrow> request \<Rightarrow> bool \<Rightarrow> RefreshSession" where
  "link_session h r signedIn =
     (if signedIn then newRefreshSession h r ''oauth'' else (newRefreshSession h r ''oauth'')\<lparr>AuthTime := None\<rparr>)"

definition accountSession :: "AuthHandler \<Rightarrow> request \<Rightarrow> int \<Rightarrow> bool \<Rightarrow> AuthResponse action" where
  "accountSession h r userID signedIn =
     andThen (reading (\<lambda>d. map_error (\<lambda>_. (400, errInvalidGrant)) (AccountByID userID d))) (\<lambda>account.
     andThen (require (a_Enabled account) (403, errAccountDisabled)) (\<lambda>_.
       case validate_roles (roles_of account) of
         Some e \<Rightarrow> refuse (403, role_message e)
       | None \<Rightarrow>
           andThen (change_db (TouchLastLogin (rq_sql r) (a_ID account))) (\<lambda>_.
           on_store sessionFailure (startSession h r (userInfoOf account) (roles_of account) (a_EmailVerified account)
             (link_session h r signedIn)))))"

definition exchangePKCE :: "AuthHandler \<Rightarrow> request \<Rightarrow> string \<Rightarrow> string \<Rightarrow> AuthResponse action" where
  "exchangePKCE h r code verifier =
     andThen (attempt (signInSettings r)) (\<lambda>info.
     andThen (require (OAuthEnabled (rq_url r) info) (400, errUnsupportedGrant)) (\<lambda>_.
     andThen (storeFor r) (\<lambda>_.
     andThen (on_store (\<lambda>_. (400, errInvalidGrant)) (RedeemAuthCode (rq_sql r) (rq_sha r code))) (\<lambda>redeemed.
     andThen (require (code \<noteq> [] \<and> verifier_matches r verifier (ac_CodeChallenge redeemed)) (400, errInvalidGrant)) (\<lambda>_.
       let linking = Provider (ac_Link redeemed) \<noteq> [] in
       andThen (if linking then commitLink h r (ac_UserID redeemed) (ac_Link redeemed) else pass ()) (\<lambda>_.
       accountSession h r (ac_UserID redeemed) (\<not> linking)))))))"

definition unlink_own :: "request \<Rightarrow> int \<Rightarrow> int \<Rightarrow> unit action" where
  "unlink_own r userID i =
     andThen (on_store (\<lambda>e. if e = ErrLastSignInMethod then (409, codeLastSignInMethod) else storeFailure e codeIdentityNotFound)
       (UnlinkIdentity userID i)) (\<lambda>removed.
     change_db (recordAudit r userID ''identity_unlinked'' (i_provider removed) (rq_ip r)))"

definition unlinkIdentity :: "request \<Rightarrow> int option \<Rightarrow> unit action" where
  "unlinkIdentity r identityID =
     andThen (endUser r) (\<lambda>claims.
     andThen (linkingSettings r) (\<lambda>info.
     andThen (freshEndUser r claims) (\<lambda>_.
       case identityID of
         None \<Rightarrow> refuse (404, codeIdentityNotFound)
       | Some i \<Rightarrow>
           andThen (require (0 < i) (404, codeIdentityNotFound)) (\<lambda>_.
           andThen (storeFor r) (\<lambda>_.
           andThen (second_factor info claims) (\<lambda>_.
           unlink_own r (c_UserID claims) i))))))"

section \<open>Emailed codes and links\<close>

record otpRequest =
  oq_Email :: string
  oq_Type :: string
  oq_CreateUser :: "bool option"
  oq_RedirectTo :: string
  oq_CodeChallenge :: string
  oq_CodeChallengeMethod :: string

definition validAddress :: "request \<Rightarrow> string \<Rightarrow> bool" where
  "validAddress r raw = (raw \<noteq> [] \<and> length raw \<le> maxEmailLength \<and> rq_parse_address r raw = Some raw)"

definition validOTPType :: "string \<Rightarrow> bool" where
  "validOTPType kind = (kind = OTPMagicLink \<or> kind = OTPEmailCode)"

definition emailSignInSettings :: "AuthHandler \<Rightarrow> request \<Rightarrow> ProjectInfo action" where
  "emailSignInSettings h r =
     andThen (attempt (signInSettings r)) (\<lambda>info.
     andThen (require (pi_EmailOTPEnabled info) (404, codeMethodOff)) (\<lambda>_.
     andThen (require (otpKey h \<noteq> None) (503, errOTPKey)) (\<lambda>_. pass info)))"

definition decodeOTPRequest :: "request \<Rightarrow> otpRequest option \<Rightarrow> otpRequest answer" where
  "decodeOTPRequest r body =
     (case body of
        None \<Rightarrow> Inl (400, ''invalid request'')
      | Some raw \<Rightarrow>
          let req = raw\<lparr>oq_Email := TrimSpace (oq_Email raw), oq_Type := (if oq_Type raw = [] then OTPMagicLink else oq_Type raw)\<rparr> in
          if \<not> validAddress r (oq_Email req) then Inl (400, codeInvalidEmail)
          else if \<not> validOTPType (oq_Type req) then Inl (400, errOTPType)
          else if oq_CodeChallengeMethod req \<noteq> ''S256'' \<or> \<not> ValidChallenge (oq_CodeChallenge req) then Inl (400, errChallengeRequired)
          else Inr req)"

definition magicLinkTarget :: "request \<Rightarrow> otpRequest \<Rightarrow> ProjectInfo \<Rightarrow> string answer" where
  "magicLinkTarget r req info = redirect_target r info (if oq_RedirectTo req = [] then pi_SiteURL info else oq_RedirectTo req)"

text \<open>The plaintext of the secret lives only in the mail.\<close>

definition newEmailOTP :: "AuthHandler \<Rightarrow> request \<Rightarrow> otpRequest \<Rightarrow> string \<Rightarrow> bool \<Rightarrow> (EmailOTP \<times> Message) option" where
  "newEmailOTP h r req redirectTo createUser =
     (let otp = \<lparr>eo_Email = oq_Email req, eo_Kind = oq_Type req, eo_LinkHash = [], eo_CodeHMAC = [], eo_CodeChallenge = oq_CodeChallenge req,
            eo_CreateUser = createUser, eo_Mailed = False, eo_IP = [], eo_Attempts = 0, eo_ExpiresAt = rq_now r + otpTTL, eo_LinkUserID = 0\<rparr>;
          data = [(''userEmail'', oq_Email req), (''expiresMin'', ''10'')];
          msg = \<lparr>msg_ProjectID = rq_project r, msg_To = oq_Email req, msg_Template = [], msg_Data = data\<rparr>
      in if oq_Type req = OTPMagicLink
         then map_option (\<lambda>plaintext. (otp\<lparr>eo_LinkHash := rq_sha r plaintext\<rparr>,
                msg\<lparr>msg_Template := ''magic_link'', msg_Data := data @ [(''linkUrl'',
                  WithParam (rq_url r) (WithParam (rq_url r) redirectTo ''token_hash'' plaintext) ''type'' OTPMagicLink)]\<rparr>)) (rq_token r)
         else map_option (\<lambda>n. (otp\<lparr>eo_CodeHMAC := CodeMAC (rq_hmac_hex r) (coalesce (otpKey h) []) (rq_project r) (oq_Email req) (NewCode n)\<rparr>,
                msg\<lparr>msg_Template := ''email_otp'', msg_Data := data @ [(''code'', NewCode n)]\<rparr>)) (rq_code_draw r))"

definition mayMail :: "request \<Rightarrow> string \<Rightarrow> bool \<Rightarrow> db \<Rightarrow> bool" where
  "mayMail r address mayCreate d =
     (case AccountByAddress (rq_sql r) address d of
        Inr account \<Rightarrow> a_Enabled account
      | Inl e \<Rightarrow> e = ErrNotFound \<and> mayCreate)"

definition saveAndMail :: "AuthHandler \<Rightarrow> request \<Rightarrow> EmailOTP \<Rightarrow> Message \<Rightarrow> string action" where
  "saveAndMail h r otp msg =
     andThen (on_store (\<lambda>e. if e = ErrRateLimited then (429, codeRateLimited) else (500, ''failed to send''))
       (SaveEmailOTP (rq_sql r) otp (otpLimits h))) (\<lambda>mailed.
     andThen (change (\<lambda>s. if mailed then sendMail h r msg s else s)) (\<lambda>_.
     pass otpSentMessage))"

definition link_page :: "request \<Rightarrow> otpRequest \<Rightarrow> ProjectInfo \<Rightarrow> string answer" where
  "link_page r req info = (if oq_Type req = OTPMagicLink then magicLinkTarget r req info else Inr [])"

definition SendOTP :: "AuthHandler \<Rightarrow> request \<Rightarrow> otpRequest option \<Rightarrow> string action" where
  "SendOTP h r body =
     andThen (attempt (decodeOTPRequest r body)) (\<lambda>req.
     andThen (emailSignInSettings h r) (\<lambda>info.
     andThen (attempt (link_page r req info)) (\<lambda>redirectTo.
     andThen (storeFor r) (\<lambda>_.
       let createUser = (oq_CreateUser req = None \<or> oq_CreateUser req = Some True) in
       case newEmailOTP h r req redirectTo createUser of
         None \<Rightarrow> refuse (500, ''internal error'')
       | Some (otp, msg) \<Rightarrow>
           andThen (reading (\<lambda>d. Inr (mayMail r (oq_Email req) (createUser \<and> NewUsersAllowed info) d))) (\<lambda>mailed.
           saveAndMail h r (otp\<lparr>eo_Mailed := mailed, eo_IP := otpSenderKey r (rq_ip r)\<rparr>) msg)))))"

definition asciiOnly :: "string \<Rightarrow> bool" where
  "asciiOnly address = list_all (\<lambda>c. (of_char c :: nat) < 0x80) address"

definition linkTemplate :: "string \<Rightarrow> string" where
  "linkTemplate t = (if t = ''magic_link'' then ''link_magic_link'' else if t = ''email_otp'' then ''link_email_otp'' else [])"

definition StartAddressLink :: "AuthHandler \<Rightarrow> request \<Rightarrow> otpRequest option \<Rightarrow> string action" where
  "StartAddressLink h r body =
     andThen (endUser r) (\<lambda>claims.
     andThen (attempt (decodeOTPRequest r body)) (\<lambda>req.
     andThen (emailSignInSettings h r) (\<lambda>info.
     andThen (freshLinker r claims) (\<lambda>_.
     andThen (require (asciiOnly (oq_Email req)) (400, codeInvalidEmail)) (\<lambda>_.
     andThen (attempt (link_page r req info)) (\<lambda>redirectTo.
     andThen (storeFor r) (\<lambda>_.
     andThen (linkableFresh r claims) (\<lambda>_.
     andThen (second_factor info claims) (\<lambda>_.
       case newEmailOTP h r req redirectTo False of
         None \<Rightarrow> refuse (500, ''internal error'')
       | Some (otp, msg) \<Rightarrow>
           saveAndMail h r (otp\<lparr>eo_LinkUserID := c_UserID claims, eo_Mailed := True, eo_IP := otpSenderKey r (rq_ip r)\<rparr>)
             (msg\<lparr>msg_Template := linkTemplate (msg_Template msg)\<rparr>))))))))))"

record verifyOTPRequest =
  vo_Type :: string
  vo_Email :: string
  vo_Token :: string
  vo_TokenHash :: string
  vo_CodeVerifier :: string

text \<open>The request as it is read, its address trimmed, or \<open>None\<close> where it lacks a part.\<close>

definition validVerifyRequest :: "verifyOTPRequest option \<Rightarrow> verifyOTPRequest option" where
  "validVerifyRequest body =
     (case body of
        None \<Rightarrow> None
      | Some raw \<Rightarrow>
          let req = raw\<lparr>vo_Email := TrimSpace (vo_Email raw)\<rparr> in
          if (vo_Type req = OTPMagicLink \<and> vo_TokenHash req \<noteq> [] \<and> vo_CodeVerifier req \<noteq> []) \<or>
             (vo_Type req = OTPEmailCode \<and> vo_Email req \<noteq> [] \<and> vo_Token req \<noteq> [] \<and> vo_CodeVerifier req \<noteq> [])
          then Some req else None)"

definition otp_lookup :: "request \<Rightarrow> verifyOTPRequest \<Rightarrow> OTPLookup" where
  "otp_lookup r req =
     (if vo_Type req = OTPMagicLink then \<lparr>lk_LinkHash = rq_sha r (vo_TokenHash req), lk_Email = [], lk_CodeChallenge = []\<rparr>
      else \<lparr>lk_LinkHash = [], lk_Email = vo_Email req, lk_CodeChallenge = rq_s256 r (vo_CodeVerifier req)\<rparr>)"

definition otp_check :: "AuthHandler \<Rightarrow> request \<Rightarrow> verifyOTPRequest \<Rightarrow> EmailOTP \<Rightarrow> bool" where
  "otp_check h r req otp =
     (if vo_Type req = OTPMagicLink
      then eo_LinkHash otp = rq_sha r (vo_TokenHash req) \<and> verifier_matches r (vo_CodeVerifier req) (eo_CodeChallenge otp)
      else CodeMatches (rq_hmac_hex r) (coalesce (otpKey h) []) (rq_project r) (vo_Email req) (vo_Token req) (eo_CodeHMAC otp) \<and>
        verifier_matches r (vo_CodeVerifier req) (eo_CodeChallenge otp))"

definition redeemOTP :: "AuthHandler \<Rightarrow> request \<Rightarrow> verifyOTPRequest \<Rightarrow> db \<Rightarrow> EmailOTP outcome" where
  "redeemOTP h r req = RedeemEmailOTP (rq_sql r) (otp_lookup r req) otpMaxAttempts (otp_check h r req)"

definition email_sign_in_failure :: "store_error \<Rightarrow> nat \<times> fault" where
  "email_sign_in_failure e =
     (case e of
        ErrSignupsDisabled \<Rightarrow> (403, errSignupDisabled)
      | ErrAccountDisabled \<Rightarrow> (403, errAccountDisabled)
      | ErrAmbiguousEmail \<Rightarrow> (409, signInFailedMsg)
      | ErrUnavailable \<Rightarrow> (503, errProjectDBUnavailable)
      | _ \<Rightarrow> (500, signInFailedMsg))"

definition signInByEmail :: "AuthHandler \<Rightarrow> request \<Rightarrow> EmailOTP \<Rightarrow> bool \<Rightarrow> (account \<times> IdentityOutcome) action" where
  "signInByEmail h r otp open_to_new =
     (let name = displayName \<lparr>oi_Subject = [], oi_Email = eo_Email otp, oi_Name = []\<rparr> in
      andThen (sign_in_or_create h r (SignInWithEmail (rq_sql r) (eo_Email otp) name) (eo_CreateUser otp \<and> open_to_new)
        \<lparr>nu_Method = ''email'', nu_Provider = [], nu_Email = eo_Email otp, nu_IsGuest = False\<rparr> (429, codeRateLimited) sessionFailure) (\<lambda>res.
      andThen (attempt (map_error email_sign_in_failure res)) (\<lambda>(account, outcome).
      andThen (require (a_Enabled account) (403, errAccountDisabled)) (\<lambda>_.
        case validate_roles (roles_of account) of
          Some e \<Rightarrow> refuse (403, role_message e)
        | None \<Rightarrow> pass (account, outcome)))))"

definition otpMethod :: "string \<Rightarrow> string" where
  "otpMethod kind = (if kind = OTPMagicLink then ''magiclink'' else ''email_otp'')"

definition finishAddressLink :: "AuthHandler \<Rightarrow> request \<Rightarrow> EmailOTP \<Rightarrow> AuthResponse action" where
  "finishAddressLink h r otp =
     andThen (commitLink h r (eo_LinkUserID otp) \<lparr>Provider = EmailProvider, Subject = AddressKey (eo_Email otp), ClaimEmail = eo_Email otp, ClaimFullName = []\<rparr>) (\<lambda>_.
     accountSession h r (eo_LinkUserID otp) False)"

definition email_session :: "AuthHandler \<Rightarrow> request \<Rightarrow> EmailOTP \<Rightarrow> ProjectInfo \<Rightarrow> AuthResponse action" where
  "email_session h r otp info =
     andThen (signInByEmail h r otp (NewUsersAllowed info)) (\<lambda>(account, outcome).
     andThen (change_db (TouchLastLogin (rq_sql r) (a_ID account))) (\<lambda>_.
     andThen (change_db (audit r (a_ID account) (eo_Kind otp) outcome)) (\<lambda>_.
     on_store sessionFailure (generateAuthResponse h r (userInfoOf account) (roles_of account) True (otpMethod (eo_Kind otp))))))"

definition VerifyOTP :: "AuthHandler \<Rightarrow> request \<Rightarrow> verifyOTPRequest option \<Rightarrow> AuthResponse action" where
  "VerifyOTP h r body =
     (case validVerifyRequest body of
        None \<Rightarrow> refuse (400, ''invalid request'')
      | Some req \<Rightarrow>
          andThen (emailSignInSettings h r) (\<lambda>info.
          andThen (storeFor r) (\<lambda>_.
          andThen (on_store (\<lambda>_. (400, errTokenNotRedeemable)) (redeemOTP h r req)) (\<lambda>otp.
            if eo_LinkUserID otp \<noteq> 0 then finishAddressLink h r otp else email_session h r otp info))))"

section \<open>Facts\<close>

text \<open>The row a session is stored as.\<close>

definition session_row :: "request \<Rightarrow> string \<Rightarrow> int \<Rightarrow> RefreshSession \<Rightarrow> refresh_row" where
  "session_row r plaintext uid session =
     \<lparr>r_token_hash = rq_sha r plaintext, r_family_id = FamilyID session, r_user_id = uid, r_expiry_date = Expiry session,
      r_last_auth_at = AuthTime session, r_aal = LevelOf (AAL session), r_amr = JoinAMR (AMR session), r_created_at = sql_now (rq_sql r),
      r_revoked = False\<rparr>"

lemma startSession_stored:
  assumes "startSession h r user roles ev session d = (Inr resp, d')"
  shows "rq_token r = Some (RefreshToken resp)" "refresh_tokens d' = refresh_tokens d @ [session_row r (RefreshToken resp) (ui_ID user) session]"
    "users d' = users d" "auth_codes d' = auth_codes d" "email_otps d' = email_otps d"
    "\<exists>claims. claims_of r user roles ev claims \<and>
      Sign (rq_jwt r) (jwtService h) (rq_now r) (session_claims r claims session) = Some (AccessToken resp)"
proof -
  obtain claims d1 plaintext where c: "claims_of r user roles ev claims" and a: "audit_only d d1" and t: "rq_token r = Some plaintext"
    and i: "InsertRefreshToken (rq_sql r) (rq_sha r plaintext) (ui_ID user) session d1 = (Inr (), d')"
    and g: "Sign (rq_jwt r) (jwtService h) (rq_now r) (session_claims r claims session) = Some (AccessToken resp)"
    and p: "RefreshToken resp = plaintext"
    by (rule startSession_Inr [OF assms])
  note d' = InsertRefreshToken_Inr(1) [OF i] and f = audit_only_fields [OF a]
  show "rq_token r = Some (RefreshToken resp)" using t p by simp
  show "refresh_tokens d' = refresh_tokens d @ [session_row r (RefreshToken resp) (ui_ID user) session]"
    using f(2) p unfolding d' session_row_def by simp
  show "users d' = users d" "auth_codes d' = auth_codes d" "email_otps d' = email_otps d" using f unfolding d' by simp_all
  show "\<exists>claims. claims_of r user roles ev claims \<and>
      Sign (rq_jwt r) (jwtService h) (rq_now r) (session_claims r claims session) = Some (AccessToken resp)" using c g by blast
qed

lemma AccountByID_iff: "AccountByID uid d = Inr a \<longleftrightarrow> (\<exists>u. user_by_id d uid = Some u \<and> a = account_of u)"
  by (auto simp: AccountByID_def split: option.splits)

lemma account_of_simps [simp]: "a_ID (account_of u) = u_id u" "a_Enabled (account_of u) = u_enabled u" "a_IsGuest (account_of u) = u_is_guest u"
  "ui_ID (userInfoOf a) = a_ID a"
  by (simp_all add: account_of_def userInfoOf_def)

text \<open>A session an account was given without its password: enabled, in a role of its own, stored once.\<close>

definition session_granted :: "AuthHandler \<Rightarrow> request \<Rightarrow> RefreshSession \<Rightarrow> bool \<Rightarrow> user_row \<Rightarrow> AuthResponse \<Rightarrow> db \<Rightarrow> db \<Rightarrow> bool" where
  "session_granted h r session verified u resp d d' \<longleftrightarrow>
     u_enabled u \<and> rq_token r = Some (RefreshToken resp) \<and>
     refresh_tokens d' = refresh_tokens d @ [session_row r (RefreshToken resp) (u_id u) session] \<and>
     (\<exists>claims. claims_of r (userInfoOf (account_of u)) (roles_of (account_of u)) verified claims \<and>
        Sign (rq_jwt r) (jwtService h) (rq_now r) (session_claims r claims session) = Some (AccessToken resp))"

lemma TouchLastLogin_tables [simp]: "auth_codes (TouchLastLogin env uid d) = auth_codes d" "email_otps (TouchLastLogin env uid d) = email_otps d"
  by (simp_all add: TouchLastLogin_def update_user_def)

lemma accountSession_Inr:
  assumes "accountSession h r uid signedIn s = (Inr resp, s')"
  obtains u where "user_by_id (sv_db s) uid = Some u"
    "session_granted h r (link_session h r signedIn) (a_EmailVerified (account_of u)) u resp (sv_db s) (sv_db s')"
    "auth_codes (sv_db s') = auth_codes (sv_db s)"
proof -
  from assms obtain u where u: "user_by_id (sv_db s) uid = Some u" "u_enabled u" and
    st: "startSession h r (userInfoOf (account_of u)) (roles_of (account_of u)) (a_EmailVerified (account_of u)) (link_session h r signedIn)
      (TouchLastLogin (rq_sql r) (u_id u) (sv_db s)) = (Inr resp, sv_db s')"
    by (auto simp: accountSession_def granted AccountByID_iff split: option.splits)
  note st' = startSession_stored [OF st]
  show thesis
    using st' u by (intro that [OF u(1)]) (simp_all add: session_granted_def)
qed

text \<open>Outstanding codes, links and states are only ever taken away when an identity is resolved or linked.\<close>

definition secrets_shrink :: "db \<Rightarrow> db \<Rightarrow> bool" where
  "secrets_shrink d d' \<longleftrightarrow> set (auth_codes d') \<subseteq> set (auth_codes d) \<and> set (email_otps d') \<subseteq> set (email_otps d) \<and>
     set (flow_states d') \<subseteq> set (flow_states d)"

lemma shrink_refl [simp]: "secrets_shrink d d"
  by (simp add: secrets_shrink_def)

lemma shrink_trans [trans]: "secrets_shrink d d1 \<Longrightarrow> secrets_shrink d1 d2 \<Longrightarrow> secrets_shrink d d2"
  by (auto simp: secrets_shrink_def)

lemma shrink_delete_users: "delete_users env ids d = (x, d') \<Longrightarrow> secrets_shrink d d'"
  by (auto simp: secrets_shrink_def delete_users_def Let_def cascade_users_def delete_factors_def delete_where_def split: if_splits)

lemma shrink_claimAddress: "claimAddress env uid a d = (x, d') \<Longrightarrow> secrets_shrink d d'"
  by (auto simp: claimAddress_def Let_def dest: shrink_delete_users split: if_splits prod.splits sum.splits)

lemma shrink_insert_identity [simp]: "secrets_shrink d (insert_identity env uid claim w d')= secrets_shrink d d'"
  by (simp add: secrets_shrink_def insert_identity_def)

lemma shrink_upgradeGuest: "upgradeGuest env uid a d = Inr d' \<Longrightarrow> secrets_shrink d d' \<and> identities d' = identities d"
  by (auto simp: secrets_shrink_def upgradeGuest_def Let_def split: if_splits)

lemma shrink_LinkIdentity: "secrets_shrink d (snd (LinkIdentity env uid claim d))"
proof (cases "linkTargetGuest uid d")
  case (Inr guest)
  let ?c = "if Provider claim = EmailProvider \<or> guest then claimAddress env uid (ClaimEmail claim) d else (Inr [], d)"
  obtain x d1 where c: "?c = (x, d1)" by (cases ?c)
  then have d1: "secrets_shrink d d1" by (auto dest: shrink_claimAddress split: if_splits)
  then have "upgradeGuest env uid a (insert_identity env uid claim w d1) = Inr d2 \<Longrightarrow> secrets_shrink d d2" for a w d2
    using shrink_trans [of d "insert_identity env uid claim w d1" d2] by (auto dest: shrink_upgradeGuest)
  then show ?thesis using d1
    by (simp only: LinkIdentity_def Inr sum.case c prod.case) (auto simp: Let_def split: sum.split option.split)
qed (simp add: LinkIdentity_def)

lemma shrink_createProviderUser: "createProviderUser env claim d = (x, d') \<Longrightarrow> secrets_shrink d d'"
  by (auto simp: createProviderUser_def insert_user_def secrets_shrink_def split: if_splits)

lemma shrink_takeOver: "takeOver env uid claim d = (x, d') \<Longrightarrow> secrets_shrink d d'"
  by (auto simp: takeOver_def split: prod.splits sum.splits dest!: shrink_delete_users shrink_createProviderUser intro: shrink_trans)

lemma shrink_addressOwner: "addressOwner env claim b known d = (x, d') \<Longrightarrow> secrets_shrink d d'"
  by (auto simp: addressOwner_def split: prod.splits sum.splits if_splits dest!: shrink_takeOver shrink_createProviderUser)

lemma shrink_SignInWithEmail: "secrets_shrink d (snd (SignInWithEmail env a n b d))"
  by (auto simp: SignInWithEmail_def Let_def split: sum.split prod.split dest!: shrink_addressOwner)

lemma shrink_SignInWithIdentity: "secrets_shrink d (snd (SignInWithIdentity env claim b d))"
proof -
  have "secrets_shrink d d'" if "resolveIdentity env claim b d = (x, d')" for x d'
    using that by (auto simp: resolveIdentity_def secrets_shrink_def insert_identity_def split: option.splits prod.splits sum.splits if_splits
        dest!: shrink_addressOwner)
  then show ?thesis by (auto simp: SignInWithIdentity_def split: prod.split sum.split)
qed

lemma code_spent_shrink: "code_spent hash d \<Longrightarrow> secrets_shrink d d' \<Longrightarrow> code_spent hash d'"
  by (auto simp: code_spent_def secrets_shrink_def)

lemma noticeLinked_kept:
  assumes "audit_proof Q" "Q (sv_db s)"
  shows "Q (sv_db (noticeLinked h r uid m a s))"
  using audit_proof.kept_sendMail [OF assms(1)] assms(2) by (auto simp: noticeLinked_def split: sum.split)

lemma keeps_upgrade_check:
  assumes "audit_proof Q"
  shows "keeps Q (\<lambda>s. case on_db (guestUpgradeAllowed h r uid p a) s of (Some e, s1) \<Rightarrow> (Inl (sessionFailure e), s1) | (None, s1) \<Rightarrow> (Inr (), s1))"
  using audit_proof.kept_guestUpgrade [OF assms, of _ h r uid p a]
  by (auto simp: keeps_def on_db_pair split: option.split)

lemma keeps_commitLink:
  assumes "audit_proof Q" "\<And>d. Q d \<Longrightarrow> Q (snd (LinkIdentity (rq_sql r) uid claim d))"
  shows "keeps Q (commitLink h r uid claim)"
  unfolding commitLink_def using audit_proof.kept_recordAudit [OF assms(1)] audit_proof.kept_recordAudits [OF assms(1)]
  by (intro keeping keeps_upgrade_check [OF assms(1)] keeps_on_store keeps_change_db keeps_change noticeLinked_kept [OF assms(1)] assms(2)) blast+

lemma RedeemAuthCode_spent:
  assumes "wf_db d" "live_code env hash c" "c \<in> set (auth_codes d)"
  obtains redeemed d' where "RedeemAuthCode env hash d = (Inr redeemed, d')" "ac_UserID redeemed = c_user_id c"
    "ac_CodeChallenge redeemed = c_code_challenge c" "Provider (ac_Link redeemed) = coalesce (c_link_provider c) []"
    "code_spent hash d'" "users d' = users d" "refresh_tokens d' = refresh_tokens d"
proof -
  have uniq: "c' = c" if "c' \<in> set (auth_codes d)" "c_code_hash c' = hash" for c'
    using that assms by (auto simp: wf_db_def wf_flows_def live_code_def dest: unique_on_eq)
  have f: "List.find (live_code env hash) (auth_codes d) = Some c"
  proof (cases "List.find (live_code env hash) (auth_codes d)")
    case None
    then show ?thesis using assms(2,3) by (auto simp: find_None_iff)
  next
    case (Some x)
    then show ?thesis using find_Some_mem [OF Some] uniq by (simp add: live_code_def)
  qed
  obtain redeemed d' where rd: "RedeemAuthCode env hash d = (Inr redeemed, d')" by (simp add: RedeemAuthCode_def f)
  then have "fst (redeem_code env hash d) \<noteq> None" "snd (redeem_code env hash d) = d'" by (simp_all add: redeem_code_def handed_def)
  then have "code_spent hash d'" using code_once.redeem_spends [OF assms(1)] by metis
  with rd show thesis by (intro that [OF rd]) (auto simp: RedeemAuthCode_def f)
qed

lemma LinkIdentity_linked:
  assumes "LinkIdentity env uid claim d = (Inr res, d')"
  shows "\<exists>i \<in> set (identities d'). i_user_id i = uid \<and> i_provider i = Provider claim \<and> i_subject i = Subject claim"
proof -
  have new: "\<exists>i \<in> set (identities (insert_identity env uid claim w e)). i_user_id i = uid \<and> i_provider i = Provider claim \<and> i_subject i = Subject claim" for w e
    by (simp add: insert_identity_def)
  obtain guest where g: "linkTargetGuest uid d = Inr guest" using assms by (cases "linkTargetGuest uid d") (auto simp: LinkIdentity_def)
  let ?c = "if Provider claim = EmailProvider \<or> guest then claimAddress env uid (ClaimEmail claim) d else (Inr [], d)"
  obtain x d1 where c: "?c = (x, d1)" by (cases ?c)
  show ?thesis using assms new
    by (simp only: LinkIdentity_def g sum.case c prod.case)
      (auto simp: Let_def dest!: shrink_upgradeGuest split: sum.splits option.splits if_splits)
qed

lemma keeps_accountSession:
  assumes "session_proof Q"
  shows "keeps Q (accountSession h r uid signedIn)"
  unfolding accountSession_def
  by (intro keeping keeps_on_store keeps_change_db session_proof.kept_startSession [OF assms] session_proof.kept_Touch [OF assms])

section \<open>Properties\<close>

lemma verifier_matches_iff: "verifier_matches r v c \<longleftrightarrow> validPKCEValue v \<and> rq_s256 r v = c"
  by (simp add: verifier_matches_def VerifierMatches_def S256_def)

lemma exchangePKCE_redeemed:
  assumes "rq_fresh r = Some info" "OAuthEnabled (rq_url r) info" "rq_pool r = None"
    "RedeemAuthCode (rq_sql r) (rq_sha r code) (sv_db s) = (Inr redeemed, d1)"
  shows "exchangePKCE h r code verifier s =
    (if code \<noteq> [] \<and> verifier_matches r verifier (ac_CodeChallenge redeemed)
     then andThen (if Provider (ac_Link redeemed) \<noteq> [] then commitLink h r (ac_UserID redeemed) (ac_Link redeemed) else pass ())
       (\<lambda>_. accountSession h r (ac_UserID redeemed) (Provider (ac_Link redeemed) = [])) (s\<lparr>sv_db := d1\<rparr>)
     else (Inl (400, errInvalidGrant), s\<lparr>sv_db := d1\<rparr>))"
  using assms
  by (simp add: exchangePKCE_def signInSettings_def andThen_def attempt_def require_def pass_def refuse_def storeFor_def on_store_def Let_def)

lemma keeps_pkce_session:
  "keeps (code_spent hash) (andThen (if linking then commitLink h r uid claim else pass ()) (\<lambda>_. accountSession h r uid b))"
  by (intro keeping keeps_commitLink [OF code_kept.audit_proof_axioms] keeps_accountSession code_kept.session_proof_axioms)
    (rule code_spent_shrink [OF _ shrink_LinkIdentity])

lemma pkce_session:
  assumes "andThen (if linking then commitLink h r uid claim else pass ()) (\<lambda>_. accountSession h r uid b) s = (Inr resp, s')"
  shows "\<exists>u d2. user_by_id d2 uid = Some u \<and>
    session_granted h r (link_session h r b) (a_EmailVerified (account_of u)) u resp d2 (sv_db s') \<and> (\<not> linking \<longrightarrow> d2 = sv_db s)"
proof -
  from assms obtain s2 where s2: "(if linking then commitLink h r uid claim else pass ()) s = (Inr (), s2)"
    "accountSession h r uid b s2 = (Inr resp, s')" by (auto simp: granted)
  obtain u where "user_by_id (sv_db s2) uid = Some u"
    "session_granted h r (link_session h r b) (a_EmailVerified (account_of u)) u resp (sv_db s2) (sv_db s')"
    by (rule accountSession_Inr [OF s2(2)])
  moreover have "\<not> linking \<Longrightarrow> sv_db s2 = sv_db s" using s2(1) by (auto simp: granted)
  ultimately show ?thesis by blast
qed


definition oauth_info :: ProjectInfo where
  "oauth_info = sample_info\<lparr>pi_SiteURL := ''https://app.test/in'', pi_OAuthProviders :=
     [\<lparr>op_Provider = ''google'', op_ClientID = ''cid'', op_CallbackURL = ''https://app.test/in''\<rparr>]\<rparr>"

definition oauth_request :: request where
  "oauth_request = sample_request\<lparr>rq_fresh := Some oauth_info, rq_url := sample_parse\<rparr>"

definition sample_verifier :: string where
  "sample_verifier = replicate 43 (CHR ''v'')"

definition code_state :: service where
  "code_state = sample_service_state\<lparr>sv_db := sample_db\<lparr>auth_codes := [\<lparr>c_code_hash = ''c1'', c_user_id = 1, c_code_challenge = sample_verifier,
     c_link_provider = None, c_link_subject = None, c_link_email = None, c_expires_at = 900, c_consumed_at = None\<rparr>]\<rparr>\<rparr>"

lemma wf_code_state: "wf_db (sv_db code_state)"
  by (simp add: code_state_def sample_defs wf_db_def wf_defs unique_on_def unique_some_def)

lemma oauth_request_simps: "rq_fresh oauth_request = Some oauth_info" "rq_pool oauth_request = None" "rq_url oauth_request = sample_parse"
  "rq_sha oauth_request = (\<lambda>s. s)"
  by (simp_all add: oauth_request_def sample_request_def)

lemma oauth_enabled: "OAuthEnabled (rq_url oauth_request) oauth_info"
  by (simp add: oauth_request_simps OAuthEnabled_def oauth_info_def provider_named_def absoluteURL_def sample_parse_def HasPrefix_def sample_url_def)


text \<open>A code or link that no presentation will be granted for again.\<close>

definition otp_used :: "int \<Rightarrow> db \<Rightarrow> bool" where
  "otp_used i d \<longleftrightarrow> (\<forall>e \<in> set (email_otps d). o_id e = i \<longrightarrow> o_consumed_at e \<noteq> None)"

lemma otp_used_shrink: "otp_used i d \<Longrightarrow> secrets_shrink d d' \<Longrightarrow> otp_used i d'"
  by (auto simp: otp_used_def secrets_shrink_def)

interpretation otp_kept: session_proof "otp_used i"
  by unfold_locales (auto simp: otp_used_def audit_only_fields InsertRefreshToken_def insertRefreshToken_def TouchLastLogin_def update_user_def)

lemma RedeemEmailOTP_Inr:
  assumes "RedeemEmailOTP env lookup perCode check d = (Inr otp, d')"
  obtains e where "live_row env lookup perCode d = Some e" "otp = otp_of e" "check otp" "otp_used (o_id e) d'"
  using assms by (auto simp: RedeemEmailOTP_def Let_def otp_used_def ball_update_where split: option.splits if_splits)

lemma keeps_sign_in_or_create:
  assumes "audit_proof Q" "\<And>b d. Q d \<Longrightarrow> Q (snd (try_it b d))"
  shows "keeps Q (sign_in_or_create h r try_it mayCreate user limited denied)"
  unfolding keeps_def
proof (intro allI impI)
  fix s :: service
  assume "Q (sv_db s)"
  then have s1: "Q (snd (try_it False (sv_db s)))" by (rule assms(2))
  obtain a s2 where A: "AllowSignup r (s\<lparr>sv_db := snd (try_it False (sv_db s))\<rparr>) = (a, s2)" by fastforce
  then have s2: "Q (sv_db s2)" using s1 AllowSignup_db [of r "s\<lparr>sv_db := snd (try_it False (sv_db s))\<rparr>"] by simp
  then have s3: "Q (snd (allowNewUser h r user (sv_db s2)))" by (rule audit_proof.kept_allowNewUser [OF assms(1)])
  show "Q (sv_db (snd (sign_in_or_create h r try_it mayCreate user limited denied s)))"
    using s1 s2 s3 assms(2) [OF s3, of True]
    by (simp add: sign_in_or_create_def on_db_pair A split: option.split)
qed

lemma keeps_signInByEmail:
  assumes "audit_proof Q" "\<And>n b d. Q d \<Longrightarrow> Q (snd (SignInWithEmail (rq_sql r) (eo_Email otp) n b d))"
  shows "keeps Q (signInByEmail h r otp b)"
  unfolding signInByEmail_def by (intro keeping keeps_sign_in_or_create assms)

lemma sign_in_or_create_Inr:
  assumes "sign_in_or_create h r try_it mayCreate user limited denied s = (Inr res, s')"
  shows "\<exists>create d. try_it create d = (res, sv_db s') \<and> (create \<longrightarrow> mayCreate)"
proof -
  obtain x d1 where t: "try_it False (sv_db s) = (x, d1)" by fastforce
  obtain a s2 where A: "AllowSignup r (s\<lparr>sv_db := d1\<rparr>) = (a, s2)" by fastforce
  obtain y d3 where N: "allowNewUser h r user (sv_db s2) = (y, d3)" by fastforce
  obtain x' d4 where t': "try_it True d3 = (x', d4)" by fastforce
  from assms have "try_it False (sv_db s) = (res, sv_db s') \<or> try_it True d3 = (res, sv_db s') \<and> mayCreate"
    by (auto simp: sign_in_or_create_def on_db_pair t A N t' split: if_splits option.splits)
  then show ?thesis by blast
qed

lemma signInByEmail_Inr:
  assumes "signInByEmail h r otp b s = (Inr (account, outcome), s')"
  shows "a_Enabled account" "validate_roles (roles_of account) = None"
    "\<exists>create d. SignInWithEmail (rq_sql r) (eo_Email otp) (displayName \<lparr>oi_Subject = [], oi_Email = eo_Email otp, oi_Name = []\<rparr>) create d
       = (Inr (account, outcome), sv_db s') \<and> (create \<longrightarrow> eo_CreateUser otp \<and> b)"
  using assms by (auto simp: signInByEmail_def granted dest!: sign_in_or_create_Inr split: option.splits)

lemma SignInWithEmail_account:
  "SignInWithEmail env a n b d = (Inr (account, outcome), d') \<Longrightarrow> \<exists>u. user_by_id d' (u_id u) = Some u \<and> account = account_of u"
  by (auto simp: SignInWithEmail_def Let_def AccountByID_def user_by_id_def split: prod.splits sum.splits option.splits
      dest: find_Some_mem)

lemma audit_fields [simp]: "refresh_tokens (audit r u m how d) = refresh_tokens d" "email_otps (audit r u m how d) = email_otps d"
  by (simp_all add: audit_def recordAudit_def RecordAudit_def)

lemma keeps_email_session:
  assumes "session_proof Q" "\<And>n b d. Q d \<Longrightarrow> Q (snd (SignInWithEmail (rq_sql r) (eo_Email otp) n b d))"
  shows "keeps Q (email_session h r otp info)"
  unfolding email_session_def audit_def
  by (intro keeping keeps_signInByEmail keeps_change_db keeps_on_store session_proof.kept_generateAuthResponse [OF assms(1)]
      session_proof.kept_Touch [OF assms(1)] session_proof.axioms(1) audit_proof.kept_recordAudit [OF session_proof.axioms(1) [OF assms(1)]] assms)

lemma keeps_finishAddressLink:
  assumes "session_proof Q" "\<And>uid claim d. Q d \<Longrightarrow> Q (snd (LinkIdentity (rq_sql r) uid claim d))"
  shows "keeps Q (finishAddressLink h r otp)"
  unfolding finishAddressLink_def
  by (intro keeping keeps_commitLink keeps_accountSession session_proof.axioms(1) assms)

lemma email_session_Inr:
  assumes "email_session h r otp info s = (Inr resp, s')"
  shows "\<exists>u d1. session_granted h r (newRefreshSession h r (otpMethod (eo_Kind otp))) True u resp d1 (sv_db s')"
proof -
  from assms obtain account outcome s1 where si: "signInByEmail h r otp (NewUsersAllowed info) s = (Inr (account, outcome), s1)"
    and st: "startSession h r (userInfoOf account) (roles_of account) True (newRefreshSession h r (otpMethod (eo_Kind otp)))
      (audit r (a_ID account) (eo_Kind otp) outcome (TouchLastLogin (rq_sql r) (a_ID account) (sv_db s1))) = (Inr resp, sv_db s')"
    by (auto simp: email_session_def granted generateAuthResponse_def)
  note acc = signInByEmail_Inr [OF si]
  from acc(3) SignInWithEmail_account obtain u where u: "account = account_of u" by blast
  show ?thesis
    using startSession_stored [OF st] acc(1) unfolding u
    by (intro exI [of _ u] exI [of _ "sv_db s1"]) (simp add: session_granted_def)
qed

lemma finishAddressLink_Inr:
  assumes "finishAddressLink h r otp s = (Inr resp, s')"
  shows "\<exists>u d1. u_id u = eo_LinkUserID otp \<and>
    session_granted h r (link_session h r False) (a_EmailVerified (account_of u)) u resp d1 (sv_db s')"
proof -
  from assms obtain s1 where "accountSession h r (eo_LinkUserID otp) False s1 = (Inr resp, s')"
    by (auto simp: finishAddressLink_def granted)
  then show ?thesis by (rule accountSession_Inr) (auto dest: user_by_id_Some)
qed


definition link_sent_row :: otp_row where
  "link_sent_row = \<lparr>o_id = 1, o_email = ''a@b.c'', o_kind = OTPMagicLink, o_link_hash = Some ''l1'', o_code_hmac = None,
     o_code_challenge = sample_verifier, o_create_user = False, o_mailed = True, o_ip = None, o_attempts = 0, o_expires_at = 900,
     o_consumed_at = None, o_created_at = 50, o_link_user_id = None\<rparr>"

definition link_sent_state :: service where
  "link_sent_state = sample_service_state\<lparr>sv_db := sample_db\<lparr>email_otps := [link_sent_row], next_otp := 2\<rparr>\<rparr>"

definition sample_verify :: verifyOTPRequest where
  "sample_verify = \<lparr>vo_Type = OTPMagicLink, vo_Email = [], vo_Token = [], vo_TokenHash = ''l1'', vo_CodeVerifier = sample_verifier\<rparr>"

lemma emailed_sample_granted:
  "\<exists>resp s'. VerifyOTP sample_handler oauth_request (Some sample_verify) link_sent_state = (Inr resp, s')"
proof -
  let ?rd = "redeemOTP sample_handler oauth_request sample_verify (sv_db link_sent_state)"
  have "fst ?rd = Inr (otp_of link_sent_row)" by code_simp
  then obtain d where rd: "?rd = (Inr (otp_of link_sent_row), d)" and d: "snd ?rd = d" by (cases ?rd) simp
  have "\<not> isl (fst (email_session sample_handler oauth_request (otp_of link_sent_row) oauth_info (link_sent_state\<lparr>sv_db := d\<rparr>)))"
    unfolding d [symmetric] by code_simp
  moreover have "validVerifyRequest (Some sample_verify) = Some sample_verify" "otpKey sample_handler \<noteq> None" "pi_EmailOTPEnabled oauth_info"
    "eo_LinkUserID (otp_of link_sent_row) = 0" by code_simp+
  ultimately have "\<not> isl (fst (VerifyOTP sample_handler oauth_request (Some sample_verify) link_sent_state))"
    using oauth_request_simps(1,2)
    by (simp add: VerifyOTP_def emailSignInSettings_def signInSettings_def andThen_def attempt_def require_def pass_def storeFor_def on_store_def rd)
  then show ?thesis by (rule not_isl_run)
qed


text \<open>Who may change how an account signs in: its own end user, in the account's project, who signed in within the window, or a
  guest with a token issued within it, and at the second level where the account has a verified factor.\<close>

definition fresh_caller :: "request \<Rightarrow> Claims \<Rightarrow> bool \<Rightarrow> bool" where
  "fresh_caller r claims guest \<longleftrightarrow>
     (let since = (\<lambda>t. rq_now r - t * second) in
      (c_AuthTime claims \<noteq> 0 \<and> - minute < since (c_AuthTime claims) \<and> since (c_AuthTime claims) \<le> reauthWindow) \<or>
      (guest \<and> c_IssuedAt claims \<noteq> 0 \<and> - minute < since (c_IssuedAt claims) \<and> since (c_IssuedAt claims) \<le> reauthWindow))"

definition own_end_user :: "request \<Rightarrow> Claims \<Rightarrow> bool" where
  "own_end_user r claims \<longleftrightarrow> rq_claims r = Some claims \<and> c_ProjectID claims = rq_project r \<and> IsAccess claims \<and> c_UserID claims \<noteq> 0 \<and>
     c_Scope claims = ''authenticated''"

definition stepped_up :: "request \<Rightarrow> Claims \<Rightarrow> db \<Rightarrow> bool" where
  "stepped_up r claims d \<longleftrightarrow>
     (\<exists>info. rq_fresh r = Some info \<and> (pi_MFAEnabled info \<and> HasVerifiedFactor (c_UserID claims) d \<longrightarrow> c_AAL claims = claimAAL2))"

lemma fresh_caller_iff: "fresh_caller r claims guest \<longleftrightarrow> freshEnough claims guest (rq_now r)"
  by (auto simp: fresh_caller_def freshEnough_def recentlySignedIn_def Let_def)

lemma endUser_steps: "endUser r s = (Inr claims, s') \<longleftrightarrow> own_end_user r claims \<and> s' = s"
  by (auto simp: endUser_def granted requireEndUser_def own_end_user_def split: option.splits if_splits)

lemma second_factor_steps: "second_factor info claims s = (Inr u, s') \<longleftrightarrow>
    (pi_MFAEnabled info \<and> HasVerifiedFactor (c_UserID claims) (sv_db s) \<longrightarrow> c_AAL claims = claimAAL2) \<and> s' = s"
  by (auto simp: second_factor_def granted enrolledNeedsAAL2_def atAAL2_def split: option.splits if_splits)

lemma linkTargetGuest_iff: "linkTargetGuest uid d = Inr guest \<longleftrightarrow>
    (\<exists>u. user_by_id d uid = Some u \<and> u_enabled u \<and> (proven u \<or> u_is_guest u) \<and> guest = u_is_guest u)"
  by (auto simp: linkTargetGuest_def split: option.splits if_splits)

lemma linkableFresh_steps: "linkableFresh r claims s = (Inr u, s') \<Longrightarrow>
    s' = s \<and> (\<exists>u. user_by_id (sv_db s) (c_UserID claims) = Some u \<and> u_enabled u \<and> (proven u \<or> u_is_guest u) \<and> fresh_caller r claims (u_is_guest u))"
  by (auto simp: linkableFresh_def granted linkable_def LinkableAccount_def linkTargetGuest_iff AccountByID_iff fresh_caller_iff freshEnough_def
      split: sum.splits if_splits)

lemma still_guards: "still (endUser r)" "still (linkingSettings r)" "still (freshLinker r claims)" "still (freshEndUser r claims)"
  "still (linkableFresh r claims)" "still (second_factor info claims)" "still (emailSignInSettings h r)"
  unfolding endUser_def linkingSettings_def freshLinker_def freshEndUser_def linkableFresh_def second_factor_def emailSignInSettings_def linkable_def
  by (intro still_andThen still_if still_steps)+

lemma linkingSettings_steps: "linkingSettings r s = (Inr info, s') \<Longrightarrow> rq_fresh r = Some info"
  by (auto simp: linkingSettings_def granted signInSettings_def split: option.splits)

lemma emailSignInSettings_steps: "emailSignInSettings h r s = (Inr info, s') \<Longrightarrow> rq_fresh r = Some info"
  by (auto simp: emailSignInSettings_def granted signInSettings_def split: option.splits)

definition may_link :: "request \<Rightarrow> db \<Rightarrow> bool" where
  "may_link r d \<longleftrightarrow> (\<exists>claims u. own_end_user r claims \<and> user_by_id d (c_UserID claims) = Some u \<and> u_enabled u \<and> (proven u \<or> u_is_guest u) \<and>
     fresh_caller r claims (u_is_guest u) \<and> stepped_up r claims d)"

definition may_unlink :: "request \<Rightarrow> db \<Rightarrow> bool" where
  "may_unlink r d \<longleftrightarrow> (\<exists>claims. own_end_user r claims \<and> fresh_caller r claims False \<and> stepped_up r claims d)"

text \<open>C14: How an account signs in is only changed by its own end user, freshly signed in. Starting to link a provider or an address,
  and unlinking an identity, are refused and change nothing at all, unless the caller holds an access token of an end
  user of this project whose sign-in lies within five minutes (a refresh does not renew it), or, to link, is a guest
  whose token was issued within them; the account to link to must be enabled and proven or a guest; and an account
  with a verified factor must have shown it.\<close>

theorem sign_in_methods_guarded:
  "guarded (may_link r (sv_db s)) (StartProviderLink h r body) s \<and>
   guarded (may_link r (sv_db s)) (StartAddressLink h r request_body) s \<and>
   guarded (may_unlink r (sv_db s)) (unlinkIdentity r identityID) s"
proof (intro conjI)
  note steps = guarded_andThen guarded_option guarded_refuse still_guards still_steps
  have link: "guarded (may_link r (sv_db s)) m s" if "endUser r s = (Inr claims, s)" "rq_fresh r = Some info"
    "linkableFresh r claims s = (Inr u, s)" "second_factor info claims s = (Inr v, s)" for claims info u v and m :: "string action"
    using that by (intro guarded_True) (auto simp: may_link_def stepped_up_def endUser_steps second_factor_steps dest!: linkableFresh_steps)
  show "guarded (may_link r (sv_db s)) (StartProviderLink h r body) s"
    unfolding StartProviderLink_def
    by (intro steps) (rule link; (assumption | erule linkingSettings_steps))
  show "guarded (may_link r (sv_db s)) (StartAddressLink h r request_body) s"
    unfolding StartAddressLink_def
    by (intro steps) (rule link; (assumption | erule emailSignInSettings_steps))
  show "guarded (may_unlink r (sv_db s)) (unlinkIdentity r identityID) s"
    unfolding unlinkIdentity_def
    by (intro steps guarded_True)
      (auto simp: may_unlink_def stepped_up_def endUser_steps second_factor_steps freshEndUser_def granted fresh_caller_iff freshEnough_def
        dest!: linkingSettings_steps)
qed

end
