(* ===== verification/HandlerLinks.thy ===== *)
theory HandlerLinks
  imports Service Text
begin

text \<open>
  Sign-up by password and the mailed links (\<open>internal/handler\<close>: \<open>auth.go\<close> register, \<open>single_use_token.go\<close>,
  \<open>email_verification.go\<close>, \<open>password_reset.go\<close>, \<open>password_policy.go\<close>). A request body is given decoded;
  \<open>None\<close> is a body that does not decode.
\<close>

section \<open>Single-use links\<close>

definition verificationTTL :: duration where "verificationTTL = 24 * hour"
definition resetTTL :: duration where "resetTTL = hour"

definition issue :: "TokenKind \<Rightarrow> request \<Rightarrow> int \<Rightarrow> duration \<Rightarrow> bool \<Rightarrow> db \<Rightarrow> string option \<times> db" where
  "issue kind r userID ttl confirmsPassword d =
     (case rq_token r of
        None \<Rightarrow> (None, d)
      | Some plaintext \<Rightarrow>
          (case IssueToken (rq_sql r) kind userID (rq_sha r plaintext) (rq_now r + ttl) confirmsPassword d of
             (Inl _, d1) \<Rightarrow> (None, d1)
           | (Inr _, d1) \<Rightarrow> (Some plaintext, d1)))"

definition lookup :: "TokenKind \<Rightarrow> request \<Rightarrow> string \<Rightarrow> db \<Rightarrow> SingleUseToken option" where
  "lookup kind r plaintext d =
     (if plaintext = [] then None
      else case LookupToken (rq_sql r) kind (rq_sha r plaintext) d of
          Inl _ \<Rightarrow> None
        | Inr found \<Rightarrow> if LinkHash found \<noteq> rq_sha r plaintext then None else Some found)"

definition claim :: "TokenKind \<Rightarrow> request \<Rightarrow> int \<Rightarrow> db \<Rightarrow> bool \<times> db" where
  "claim kind r rowID d = ClaimToken (rq_sql r) kind rowID d"

definition redeem :: "TokenKind \<Rightarrow> request \<Rightarrow> string \<Rightarrow> db \<Rightarrow> int option \<times> db" where
  "redeem kind r plaintext d =
     (case lookup kind r plaintext d of
        None \<Rightarrow> (None, d)
      | Some found \<Rightarrow>
          (case claim kind r (RowID found) d of
             (claimed, d1) \<Rightarrow> (if claimed then Some (LinkUserID found) else None, d1)))"

definition peek :: "TokenKind \<Rightarrow> request \<Rightarrow> string \<Rightarrow> db \<Rightarrow> int option" where
  "peek kind r plaintext d = map_option LinkUserID (lookup kind r plaintext d)"

section \<open>Password policy\<close>

definition minPasswordChars :: nat where "minPasswordChars = 8"
definition maxPasswordBytes :: nat where "maxPasswordBytes = 256"

definition validatePassword :: "string \<Rightarrow> fault option" where
  "validatePassword password =
     (if RuneCountInString password < minPasswordChars then Some ''password must be at least 8 characters''
      else if length password > maxPasswordBytes then Some ''password must be at most 256 bytes''
      else if blank password then Some ''password must not be only whitespace''
      else None)"

text \<open>\<open>writeHashFailure\<close>.\<close>

definition hashFailure :: "hash_failure \<Rightarrow> nat \<times> fault" where
  "hashFailure e = (case e of hash_busy \<Rightarrow> (503, errHashingBusy) | hash_broken \<Rightarrow> (500, ''internal error''))"

section \<open>Verification mail\<close>

definition verificationLink :: "string \<Rightarrow> string \<Rightarrow> string" where
  "verificationLink site plaintext = site @ ''/verify?token='' @ QueryEscape plaintext"

definition resetLink :: "string \<Rightarrow> string \<Rightarrow> string" where
  "resetLink site plaintext = site @ ''/reset-password?token='' @ QueryEscape plaintext"

definition verification_message :: "request \<Rightarrow> string \<Rightarrow> string \<Rightarrow> string \<Rightarrow> Message" where
  "verification_message r address site plaintext =
     \<lparr>msg_ProjectID = rq_project r, msg_To = address, msg_Template = ''verify_email'',
      msg_Data = [(''userEmail'', address), (''verifyUrl'', verificationLink site plaintext), (''expiresHour'', ''24'')]\<rparr>"

definition reset_message :: "request \<Rightarrow> string \<Rightarrow> string \<Rightarrow> string \<Rightarrow> Message" where
  "reset_message r address site plaintext =
     \<lparr>msg_ProjectID = rq_project r, msg_To = address, msg_Template = ''password_reset'',
      msg_Data = [(''userEmail'', address), (''resetUrl'', resetLink site plaintext), (''expiresMin'', ''60'')]\<rparr>"

definition sendVerification :: "AuthHandler \<Rightarrow> request \<Rightarrow> int \<Rightarrow> string \<Rightarrow> string \<Rightarrow> bool \<Rightarrow> service \<Rightarrow> service" where
  "sendVerification h r userID address site confirmsPassword s =
     (if site = [] then s
      else case on_db (issue EmailVerification r userID verificationTTL confirmsPassword) s of
          (None, s1) \<Rightarrow> s1
        | (Some plaintext, s1) \<Rightarrow> sendMail h r (verification_message r address site plaintext) s1)"

definition mailPasswordReset :: "AuthHandler \<Rightarrow> request \<Rightarrow> int \<Rightarrow> string \<Rightarrow> service \<Rightarrow> service" where
  "mailPasswordReset h r userID address s =
     (if ps_siteURL (settingsFor h r) = [] then s
      else case on_db (issue PasswordReset r userID resetTTL False) s of
          (None, s1) \<Rightarrow> s1
        | (Some plaintext, s1) \<Rightarrow> sendMail h r (reset_message r address (ps_siteURL (settingsFor h r)) plaintext) s1)"

definition siteURLRequired :: "nat \<times> fault" where
  "siteURLRequired = (422, ''site_url_required'')"

section \<open>Verifying an address\<close>

definition unprovenHashMarker :: string where "unprovenHashMarker = ''!reset-required''"

record redeemedVerification =
  rv_userID :: int
  rv_confirmsPassword :: bool

definition redeemVerification :: "request \<Rightarrow> string \<Rightarrow> db \<Rightarrow> redeemedVerification option \<times> db" where
  "redeemVerification r plaintext d =
     (case lookup EmailVerification r plaintext d of
        None \<Rightarrow> (None, d)
      | Some found \<Rightarrow>
          (case claim EmailVerification r (RowID found) d of
             (claimed, d1) \<Rightarrow>
               (if claimed then Some \<lparr>rv_userID = LinkUserID found, rv_confirmsPassword = ConfirmsPassword found\<rparr> else None, d1)))"

definition markVerified :: "request \<Rightarrow> redeemedVerification \<Rightarrow> db \<Rightarrow> string outcome" where
  "markVerified r redeemed d = MarkVerified (rq_sql r) (rv_userID redeemed) (rv_confirmsPassword redeemed) unprovenHashMarker d"

text \<open>The answer says whether a new password is required. The token comes from the query or, on \<open>POST\<close>, the body.\<close>

definition VerifyEmail :: "AuthHandler \<Rightarrow> request \<Rightarrow> string \<Rightarrow> service \<Rightarrow> bool answer \<times> service" where
  "VerifyEmail h r plaintext s =
     (case rq_pool r of
        Some e \<Rightarrow> (Inl (poolFailure e), s)
      | None \<Rightarrow>
          (case on_db (redeemVerification r plaintext) s of
             (None, s1) \<Rightarrow> (Inl (400, errTokenNotRedeemable), s1)
           | (Some redeemed, s1) \<Rightarrow>
               (case on_db (markVerified r redeemed) s1 of
                  (Inl _, s2) \<Rightarrow> (Inl (500, ''failed to verify email''), s2)
                | (Inr address, s2) \<Rightarrow>
                    if rv_confirmsPassword redeemed then (Inr False, s2)
                    else (Inr True, mailPasswordReset h r (rv_userID redeemed) address s2))))"

definition resendVerificationFor :: "AuthHandler \<Rightarrow> request \<Rightarrow> string \<Rightarrow> service \<Rightarrow> service" where
  "resendVerificationFor h r address s =
     (case rq_pool r of
        Some _ \<Rightarrow> s
      | None \<Rightarrow>
          (case AccountByEmail address (sv_db s) of
             Inl _ \<Rightarrow> s
           | Inr account \<Rightarrow>
               if a_EmailVerified account then s
               else sendVerification h r (a_ID account) address (ps_siteURL (settingsFor h r)) False s))"

definition errEmailRequired :: fault where "errEmailRequired = ''email is required''"
definition errTooManyRequests :: fault where "errTooManyRequests = ''too_many_requests''"

definition ResendVerification :: "AuthHandler \<Rightarrow> request \<Rightarrow> string option \<Rightarrow> service \<Rightarrow> string answer \<times> service" where
  "ResendVerification h r body s =
     (case body of
        None \<Rightarrow> (Inl (400, ''invalid request''), s)
      | Some email \<Rightarrow>
          if email = [] then (Inl (400, errEmailRequired), s)
          else (case throttle_Allow (rq_now r) (rq_sha r (rq_project r @ ''|'' @ email)) (sv_resend s) of
              (allowed, t) \<Rightarrow>
                let s1 = s\<lparr>sv_resend := t\<rparr> in
                if \<not> allowed then (Inl (429, errTooManyRequests), s1)
                else if ps_siteURL (settingsFor h r) = [] then (Inl siteURLRequired, s1)
                else (Inr ''If the account exists and is unverified, a verification email has been sent'',
                      resendVerificationFor h r email s1)))"

section \<open>Resetting a password\<close>

definition sendPasswordReset :: "AuthHandler \<Rightarrow> request \<Rightarrow> string \<Rightarrow> service \<Rightarrow> service" where
  "sendPasswordReset h r address s =
     (case rq_pool r of
        Some _ \<Rightarrow> s
      | None \<Rightarrow>
          (case AccountByEmail address (sv_db s) of
             Inl _ \<Rightarrow> s
           | Inr account \<Rightarrow> mailPasswordReset h r (a_ID account) address s))"

text \<open>The second budget is drawn on only when the first allows.\<close>

definition ForgotPassword :: "AuthHandler \<Rightarrow> request \<Rightarrow> string option \<Rightarrow> service \<Rightarrow> string answer \<times> service" where
  "ForgotPassword h r body s =
     (case body of
        None \<Rightarrow> (Inl (400, ''invalid request''), s)
      | Some email \<Rightarrow>
          if email = [] then (Inl (400, errEmailRequired), s)
          else (case throttle_Allow (rq_now r) (rq_sha r (rq_project r @ ''|'' @ email)) (sv_forgot s) of
              (byAddress, t) \<Rightarrow>
                if \<not> byAddress then (Inl (429, errTooManyRequests), s\<lparr>sv_forgot := t\<rparr>)
                else (case throttle_Allow (rq_now r) (rq_sha r (rq_project r @ ''|ip|'' @ rq_ip r)) t of
                    (byIP, t') \<Rightarrow>
                      let s1 = s\<lparr>sv_forgot := t'\<rparr> in
                      if \<not> byIP then (Inl (429, errTooManyRequests), s1)
                      else if ps_siteURL (settingsFor h r) = [] then (Inl siteURLRequired, s1)
                      else (Inr ''If the account exists, a password reset email has been sent'', sendPasswordReset h r email s1))))"

definition applyNewPassword :: "request \<Rightarrow> int \<Rightarrow> string \<Rightarrow> db \<Rightarrow> db" where
  "applyNewPassword r userID hash d = RevokeUserRefreshTokens (rq_sql r) userID (SetPassword userID hash d)"

definition ResetPassword :: "request \<Rightarrow> (string \<times> string) option \<Rightarrow> db \<Rightarrow> string answer \<times> db" where
  "ResetPassword r body d =
     (case body of
        None \<Rightarrow> (Inl (400, ''invalid request''), d)
      | Some (tok, newPassword) \<Rightarrow>
          if tok = [] then (Inl (400, ''token is required''), d)
          else (case validatePassword newPassword of
              Some e \<Rightarrow> (Inl (400, e), d)
            | None \<Rightarrow>
                (case rq_pool r of
                   Some e \<Rightarrow> (Inl (poolFailure e), d)
                 | None \<Rightarrow>
                     if peek PasswordReset r tok d = None then (Inl (400, errTokenNotRedeemable), d)
                     else (case rq_hash r newPassword of
                         Inl e \<Rightarrow> (Inl (hashFailure e), d)
                       | Inr hash \<Rightarrow>
                           (case redeem PasswordReset r tok d of
                              (None, d1) \<Rightarrow> (Inl (400, errTokenNotRedeemable), d1)
                            | (Some userID, d1) \<Rightarrow> (Inr ''Password has been reset'', applyNewPassword r userID hash d1))))))"

section \<open>Signing up\<close>

record RegisterRequest =
  reg_Email :: string
  reg_Password :: string
  reg_FullName :: string

datatype registered = Accepted string string | SignedIn AuthResponse

definition signupsOpen :: "request \<Rightarrow> bool option" where
  "signupsOpen r =
     (case rq_fresh r of
        Some info \<Rightarrow> Some (NewUsersAllowed info)
      | None \<Rightarrow>
          (case rq_cached r of
             Some cached \<Rightarrow> if pi_AllowNewUsers cached \<noteq> None then None else Some True
           | None \<Rightarrow> Some True))"

definition decodeRegisterRequest :: "RegisterRequest option \<Rightarrow> RegisterRequest answer" where
  "decodeRegisterRequest body =
     (case body of
        None \<Rightarrow> Inl (400, ''invalid request'')
      | Some req \<Rightarrow>
          if reg_Email req = [] \<or> reg_FullName req = [] then Inl (400, errEmailAndNameRequired)
          else (case validatePassword (reg_Password req) of Some e \<Rightarrow> Inl (400, e) | None \<Rightarrow> Inr req))"

definition defaultAccountRole :: string where "defaultAccountRole = ''user''"

text \<open>The new account's id, or \<open>None\<close> where the address is taken.\<close>

definition insertUser :: "request \<Rightarrow> RegisterRequest \<Rightarrow> string \<Rightarrow> db \<Rightarrow> (store_error + UserInfo option) \<times> db" where
  "insertUser r req hash d =
     (case InsertUser (rq_sql r) (reg_Email req) hash (reg_FullName req) d of
        (Inl e, d1) \<Rightarrow> (Inl e, d1)
      | (Inr (i, created), d1) \<Rightarrow>
          (Inr (if created then Some \<lparr>ui_ID = i, ui_Email = reg_Email req, ui_FullName = reg_FullName req, ui_IsGuest = False\<rparr>
                else None), d1))"

definition replaceUnverified :: "AuthHandler \<Rightarrow> request \<Rightarrow> RegisterRequest \<Rightarrow> string \<Rightarrow> string \<Rightarrow> service \<Rightarrow> service" where
  "replaceUnverified h r req hash site s =
     (case throttle_Allow (rq_now r) (rq_sha r (rq_project r @ ''|'' @ reg_Email req)) (sv_resend s) of
        (allowed, t) \<Rightarrow>
          let s1 = s\<lparr>sv_resend := t\<rparr> in
          if \<not> allowed then s1
          else (case on_db (ReplaceUnverified (reg_Email req) hash (reg_FullName req)) s1 of
              (Inl _, s2) \<Rightarrow> s2
            | (Inr userID, s2) \<Rightarrow>
                sendVerification h r userID (reg_Email req) site True
                  (s2\<lparr>sv_db := RevokeUserRefreshTokens (rq_sql r) userID (sv_db s2)\<rparr>)))"

definition Register :: "AuthHandler \<Rightarrow> request \<Rightarrow> RegisterRequest option \<Rightarrow> service \<Rightarrow> registered answer \<times> service" where
  "Register h r body s =
     (case decodeRegisterRequest body of
        Inl e \<Rightarrow> (Inl e, s)
      | Inr req \<Rightarrow>
          (case signupsOpen r of
             None \<Rightarrow> (Inl (503, errSettingsUnreadable), s)
           | Some False \<Rightarrow> (Inl (403, errSignupDisabled), s)
           | Some True \<Rightarrow>
               let settings = settingsFor h r in
               if ps_requireEmailVerification settings \<and> ps_siteURL settings = [] then (Inl siteURLRequired, s)
               else
                 (case on_db (allowNewUser h r \<lparr>nu_Method = ''password'', nu_Provider = [], nu_Email = reg_Email req, nu_IsGuest = False\<rparr>) s of
                    (Some e, s1) \<Rightarrow> (Inl (sessionFailure e), s1)
                  | (None, s1) \<Rightarrow>
                      (case rq_pool r of
                         Some e \<Rightarrow> (Inl (poolFailure e), s1)
                       | None \<Rightarrow>
                           (case rq_hash r (reg_Password req) of
                              Inl e \<Rightarrow> (Inl (hashFailure e), s1)
                            | Inr hash \<Rightarrow>
                                (case on_db (insertUser r req hash) s1 of
                                   (Inl _, s2) \<Rightarrow> (Inl (500, ''failed to create user''), s2)
                                 | (Inr created, s2) \<Rightarrow>
                                     if ps_requireEmailVerification settings
                                     then (Inr (Accepted (reg_Email req) (reg_FullName req)),
                                           case created of
                                             Some user \<Rightarrow> sendVerification h r (ui_ID user) (reg_Email req) (ps_siteURL settings) True s2
                                           | None \<Rightarrow> replaceUnverified h r req hash (ps_siteURL settings) s2)
                                     else
                                       (case created of
                                          None \<Rightarrow> (Inl (409, errCannotRegister), s2)
                                        | Some user \<Rightarrow>
                                            (case on_db (generateAuthResponse h r user \<lparr>ar_role = defaultAccountRole, ar_allowed = None\<rparr>
                                                   False ''password'') s2 of
                                               (Inl e, s3) \<Rightarrow> (Inl (sessionFailure e), s3)
                                             | (Inr resp, s3) \<Rightarrow> (Inr (SignedIn resp), s3)))))))))"

section \<open>Facts\<close>

text \<open>A link that is found, and what claiming it leaves.\<close>

lemma lookup_Some:
  assumes "lookup kind r plaintext d = Some found"
  obtains t where "t \<in> set (link_table kind d)" "live_link (rq_sql r) (rq_sha r plaintext) t" "RowID found = t_id t"
    "LinkUserID found = t_user_id t" "ConfirmsPassword found = (kind = EmailVerification \<and> t_confirms_password t)" "plaintext \<noteq> []"
  using assms by (auto simp: lookup_def LookupToken_def split: if_splits option.splits dest!: find_Some_mem)

lemma claim_live:
  assumes "wf_db d" "t \<in> set (link_table kind d)" "t_consumed_at t = None"
  shows "claim kind r (t_id t) d = (True, set_link_table kind
     (update_where (\<lambda>x. x = t) (\<lambda>x. x\<lparr>t_consumed_at := Some (sql_now (rq_sql r))\<rparr>) (link_table kind d)) d)"
proof -
  have uniq: "unique_on t_id (link_table kind d)"
    using wf_link_table [OF assms(1), of kind] by (simp add: wf_link_table_def)
  have only: "t_id x = t_id t \<and> t_consumed_at x = None \<longleftrightarrow> x = t" if "x \<in> set (link_table kind d)" for x
    using uniq that assms(2,3) by (auto dest: unique_on_eq)
  have "filter (\<lambda>x. t_id x = t_id t \<and> t_consumed_at x = None) (link_table kind d) = filter (\<lambda>x. t_id x = t_id t) (link_table kind d)"
    using uniq assms(2,3) by (intro filter_cong refl) (auto dest: unique_on_eq)
  then have "length (filter (\<lambda>x. t_id x = t_id t \<and> t_consumed_at x = None) (link_table kind d)) = 1"
    using unique_on_count_one [OF uniq assms(2) refl] by simp
  moreover have "update_where (\<lambda>x. t_id x = t_id t \<and> t_consumed_at x = None) f (link_table kind d) =
      update_where (\<lambda>x. x = t) f (link_table kind d)" for f
    using only by (auto simp: update_where_def)
  ultimately show ?thesis by (simp add: claim_def ClaimToken_def Let_def count_where_def)
qed

lemma consumed_not_live:
  assumes "wf_db d" "t \<in> set (link_table kind d)" "t_token_hash t = hash"
    "link_table kind d' = update_where (\<lambda>x. x = t) (\<lambda>x. x\<lparr>t_consumed_at := Some now\<rparr>) (link_table kind d)"
  shows "LookupToken env kind hash d' = Inl ErrNotFound"
proof -
  have uniq: "unique_on t_token_hash (link_table kind d)"
    using wf_link_table [OF assms(1), of kind] by (simp add: wf_link_table_def)
  have "List.find (live_link env hash) (link_table kind d') = None"
    using uniq assms(2,3) by (auto simp: find_None_iff assms(4) set_update_where live_link_def dest: unique_on_eq)
  then show ?thesis by (simp add: LookupToken_def)
qed

lemma redeem_found:
  assumes "wf_db d" "lookup kind r plaintext d = Some found"
  obtains t where "t \<in> set (link_table kind d)" "live_link (rq_sql r) (rq_sha r plaintext) t" "t_id t = RowID found"
    "t_user_id t = LinkUserID found" "ConfirmsPassword found = (kind = EmailVerification \<and> t_confirms_password t)"
    "claim kind r (RowID found) d = (True, set_link_table kind
       (update_where (\<lambda>x. x = t) (\<lambda>x. x\<lparr>t_consumed_at := Some (sql_now (rq_sql r))\<rparr>) (link_table kind d)) d)"
proof (rule lookup_Some [OF assms(2)])
  fix t assume t: "t \<in> set (link_table kind d)" "live_link (rq_sql r) (rq_sha r plaintext) t" "RowID found = t_id t"
    "LinkUserID found = t_user_id t" "ConfirmsPassword found = (kind = EmailVerification \<and> t_confirms_password t)"
  have "t_consumed_at t = None" using t(2) by (simp add: live_link_def)
  from claim_live [OF assms(1) t(1) this, of r] t that show thesis by simp
qed

lemma revoke_user_fields [simp]:
  "users (RevokeUserRefreshTokens env uid d) = users d"
  "email_verification_tokens (RevokeUserRefreshTokens env uid d) = email_verification_tokens d"
  "password_reset_tokens (RevokeUserRefreshTokens env uid d) = password_reset_tokens d"
  "refresh_tokens (RevokeUserRefreshTokens env uid d) =
     update_where (\<lambda>r. r_user_id r = uid \<and> \<not> r_revoked r) (\<lambda>r. r\<lparr>r_revoked := True\<rparr>) (refresh_tokens d)"
  by (simp_all add: RevokeUserRefreshTokens_def endSessionsAndLinks_def endChangesQuery_def revoke_where_def Let_def)

section \<open>Properties\<close>



text \<open>What mailing a link leaves alone.\<close>

lemma sendMail_fields [simp]:
  "users (sv_db (sendMail h r msg s)) = users (sv_db s)" "refresh_tokens (sv_db (sendMail h r msg s)) = refresh_tokens (sv_db s)"
  "email_verification_tokens (sv_db (sendMail h r msg s)) = email_verification_tokens (sv_db s)"
  "password_reset_tokens (sv_db (sendMail h r msg s)) = password_reset_tokens (sv_db s)"
  "sv_resend (sendMail h r msg s) = sv_resend s" "sv_forgot (sendMail h r msg s) = sv_forgot s" "sv_limits (sendMail h r msg s) = sv_limits s"
  using audit_only_fields [OF audit_only_hookFailure [of "sv_db s" r "''send_email''" 0]]
  by (auto simp: sendMail_def split: option.split)

lemma IssueToken_fields [simp]:
  "users (snd (IssueToken env kind uid hash e c d)) = users d" "refresh_tokens (snd (IssueToken env kind uid hash e c d)) = refresh_tokens d"
  "kind \<noteq> kind' \<Longrightarrow> link_table kind' (snd (IssueToken env kind uid hash e c d)) = link_table kind' d"
  by (cases kind; cases kind'; simp add: IssueToken_def Let_def set_link_table_def draw_link_id_def link_table_def)+

lemma snd_issue: "snd (issue kind r uid ttl c d) =
  (case rq_token r of None \<Rightarrow> d | Some p \<Rightarrow> snd (IssueToken (rq_sql r) kind uid (rq_sha r p) (rq_now r + ttl) c d))"
  by (auto simp: issue_def split: option.split sum.split prod.split)

lemma issue_fields [simp]:
  "users (snd (issue kind r uid ttl c d)) = users d" "refresh_tokens (snd (issue kind r uid ttl c d)) = refresh_tokens d"
  "kind \<noteq> kind' \<Longrightarrow> link_table kind' (snd (issue kind r uid ttl c d)) = link_table kind' d"
  by (simp_all add: snd_issue split: option.split)

lemma on_db_fst_snd: "fst (on_db f s) = fst (f (sv_db s))" "sv_db (snd (on_db f s)) = snd (f (sv_db s))"
  "sv_resend (snd (on_db f s)) = sv_resend s" "sv_forgot (snd (on_db f s)) = sv_forgot s" "sv_mail (snd (on_db f s)) = sv_mail s"
  by (simp_all add: on_db_def case_prod_beta Let_def)

lemma mailPasswordReset_fields [simp]:
  "users (sv_db (mailPasswordReset h r uid a s)) = users (sv_db s)"
  "refresh_tokens (sv_db (mailPasswordReset h r uid a s)) = refresh_tokens (sv_db s)"
  "email_verification_tokens (sv_db (mailPasswordReset h r uid a s)) = email_verification_tokens (sv_db s)"
proof -
  let ?x = "on_db (issue PasswordReset r uid resetTTL False) s"
  have "link_table EmailVerification (snd (issue PasswordReset r uid resetTTL False (sv_db s))) = link_table EmailVerification (sv_db s)"
    by (rule issue_fields) simp
  then have "users (sv_db (snd ?x)) = users (sv_db s)" "refresh_tokens (sv_db (snd ?x)) = refresh_tokens (sv_db s)"
    "email_verification_tokens (sv_db (snd ?x)) = email_verification_tokens (sv_db s)"
    by (simp_all add: on_db_fst_snd link_table_def)
  then show "users (sv_db (mailPasswordReset h r uid a s)) = users (sv_db s)"
    "refresh_tokens (sv_db (mailPasswordReset h r uid a s)) = refresh_tokens (sv_db s)"
    "email_verification_tokens (sv_db (mailPasswordReset h r uid a s)) = email_verification_tokens (sv_db s)"
    by (auto simp: mailPasswordReset_def split: option.split prod.split)
qed

text \<open>C23: What following a verification link does. It is granted only for a live link, and then the link's account
  counts as verified, all its sessions end and the link is spent; no other account and no other session is touched.
  The password stays only where the link was mailed by the sign-up that set it; otherwise the stored hash is
  replaced by a marker that is no usable password, and the answer asks for a reset. Any other link is refused with
  one and the same answer and changes nothing.\<close>

theorem verify_email_effect:
  assumes "wf_db (sv_db s)" "rq_pool r = None" "VerifyEmail h r plaintext s = (res, s')"
  shows "case res of
      Inl e \<Rightarrow> e = (400, errTokenNotRedeemable) \<and> s' = s
    | Inr reset \<Rightarrow> (\<exists>t \<in> set (email_verification_tokens (sv_db s)). live_link (rq_sql r) (rq_sha r plaintext) t \<and>
        reset = (\<not> t_confirms_password t) \<and> \<not> HasUsablePassword unprovenHashMarker \<and>
        users (sv_db s') = update_where (\<lambda>u. u_id u = t_user_id t) (\<lambda>u. u\<lparr>u_email_verified := True,
          u_email_verified_at := Some (sql_now (rq_sql r)),
          u_password := (if t_confirms_password t then u_password u else Some unprovenHashMarker)\<rparr>) (users (sv_db s)) \<and>
        (\<forall>x \<in> set (refresh_tokens (sv_db s')). r_user_id x = t_user_id t \<longrightarrow> r_revoked x) \<and>
        filter (\<lambda>x. r_user_id x \<noteq> t_user_id t) (refresh_tokens (sv_db s')) =
          filter (\<lambda>x. r_user_id x \<noteq> t_user_id t) (refresh_tokens (sv_db s)) \<and>
        (\<forall>env. LookupToken env EmailVerification (rq_sha r plaintext) (sv_db s') = Inl ErrNotFound))"
proof (cases "lookup EmailVerification r plaintext (sv_db s)")
  case None
  then show ?thesis using assms(2,3) by (auto simp: VerifyEmail_def on_db_def redeemVerification_def)
next
  case (Some found)
  let ?d = "sv_db s" and ?now = "sql_now (rq_sql r)"
  obtain t where t: "t \<in> set (link_table EmailVerification ?d)" "live_link (rq_sql r) (rq_sha r plaintext) t" "t_id t = RowID found"
    "t_user_id t = LinkUserID found" and c: "ConfirmsPassword found = (EmailVerification = EmailVerification \<and> t_confirms_password t)" and
    cl: "claim EmailVerification r (RowID found) ?d = (True, set_link_table EmailVerification
       (update_where (\<lambda>x. x = t) (\<lambda>x. x\<lparr>t_consumed_at := Some (sql_now (rq_sql r))\<rparr>) (link_table EmailVerification ?d)) ?d)"
    by (rule redeem_found [OF assms(1) Some])
  let ?tab = "update_where (\<lambda>x. x = t) (\<lambda>x. x\<lparr>t_consumed_at := Some ?now\<rparr>) (link_table EmailVerification ?d)"
  let ?d1 = "set_link_table EmailVerification ?tab ?d"
  have "t_user_id t \<in> set (user_ids ?d)"
    using assms(1) t(1) by (auto simp: wf_db_def wf_links_def link_table_def refers_def list_all_iff)
  then obtain u where u: "user_by_id ?d1 (t_user_id t) = Some u"
    using user_by_id_None [of ?d1 "t_user_id t"] by (cases "user_by_id ?d1 (t_user_id t)") auto
  define d2 where "d2 = snd (MarkVerified (rq_sql r) (t_user_id t) (t_confirms_password t) unprovenHashMarker ?d1)"
  have mv: "MarkVerified (rq_sql r) (t_user_id t) (t_confirms_password t) unprovenHashMarker ?d1 = (Inr (coalesce (u_email u) []), d2)"
    using u by (simp add: d2_def MarkVerified_def Let_def)
  have fields: "users d2 = update_where (\<lambda>u. u_id u = t_user_id t) (\<lambda>u. u\<lparr>u_email_verified := True, u_email_verified_at := Some ?now,
          u_password := (if t_confirms_password t then u_password u else Some unprovenHashMarker)\<rparr>) (users ?d)"
    "refresh_tokens d2 = update_where (\<lambda>x. r_user_id x = t_user_id t \<and> \<not> r_revoked x) (\<lambda>x. x\<lparr>r_revoked := True\<rparr>) (refresh_tokens ?d)"
    "email_verification_tokens d2 = ?tab"
    using u by (simp_all add: d2_def MarkVerified_def Let_def endChangesQuery_def revoke_where_def update_user_def set_link_table_def)
  have run: "res = Inr (\<not> t_confirms_password t)" "s' = (if t_confirms_password t then s\<lparr>sv_db := d2\<rparr>
      else mailPasswordReset h r (t_user_id t) (coalesce (u_email u) []) (s\<lparr>sv_db := d2\<rparr>))"
    using assms(2,3) Some cl t(4) c mv
    by (auto simp: VerifyEmail_def on_db_def redeemVerification_def markVerified_def split: if_splits)
  have db: "users (sv_db s') = users d2" "refresh_tokens (sv_db s') = refresh_tokens d2"
    "link_table EmailVerification (sv_db s') = ?tab"
    using fields(3) by (simp_all add: run(2) link_table_def)
  have dead: "LookupToken env EmailVerification (rq_sha r plaintext) (sv_db s') = Inl ErrNotFound" for env
    using t(2) by (intro consumed_not_live [OF assms(1) t(1) _ db(3)]) (simp add: live_link_def)
  have "filter (\<lambda>x. r_user_id x \<noteq> t_user_id t) (refresh_tokens d2) = filter (\<lambda>x. r_user_id x \<noteq> t_user_id t) (refresh_tokens ?d)"
    unfolding fields by (rule filter_update_where) simp
  moreover have "\<forall>x \<in> set (refresh_tokens d2). r_user_id x = t_user_id t \<longrightarrow> r_revoked x"
    unfolding fields by (simp add: ball_update_where)
  moreover have "\<not> HasUsablePassword unprovenHashMarker" by (simp add: HasUsablePassword_def unprovenHashMarker_def HasPrefix_def)
  ultimately show ?thesis
    using t(1,2) dead fields(1) unfolding run(1) db
    by (simp only: sum.case) (intro bexI [of _ t] conjI allI; simp add: link_table_def)
qed

definition sample_verify_state :: service where
  "sample_verify_state = sample_service_state\<lparr>sv_db := snd (IssueToken sample_env EmailVerification 1 ''v1'' 900 False sample_db)\<rparr>"

lemma wf_sample_verify: "wf_db (sv_db sample_verify_state)"
  by (simp add: sample_verify_state_def wf_IssueToken [OF wf_sample_db])

theorem verify_email_effect_witness:
  "\<exists>s'. VerifyEmail sample_handler sample_request ''v1'' sample_verify_state = (Inr True, s') \<and>
     LookupToken sample_env EmailVerification ''v1'' (sv_db s') = Inl ErrNotFound"
proof -
  have g: "fst (VerifyEmail sample_handler sample_request ''v1'' sample_verify_state) = Inr True" by code_simp
  then obtain s' where res: "VerifyEmail sample_handler sample_request ''v1'' sample_verify_state = (Inr True, s')"
    by (cases "VerifyEmail sample_handler sample_request ''v1'' sample_verify_state") auto
  have "rq_pool sample_request = None" "rq_sha sample_request ''v1'' = ''v1''" by (simp_all add: sample_request_def)
  with verify_email_effect [OF wf_sample_verify this(1) res]
  have "LookupToken sample_env EmailVerification ''v1'' (sv_db s') = Inl ErrNotFound"
    by (simp only: sum.case) (elim bexE conjE, simp)
  then show ?thesis using res by blast
qed

lemma fst_allowNewUser: "fst (allowNewUser h r u d) = fst (allowNewUser h r u d')"
  by (auto simp: allowNewUser_def Let_def split: option.split)

lemma insertUser_Inr: "\<exists>x. fst (insertUser r req hash d) = Inr x"
  by (auto simp: insertUser_def InsertUser_def)

definition register_answer :: "AuthHandler \<Rightarrow> request \<Rightarrow> RegisterRequest option \<Rightarrow> fault option \<Rightarrow> registered answer" where
  "register_answer h r body refusal =
     (case decodeRegisterRequest body of
        Inl e \<Rightarrow> Inl e
      | Inr req \<Rightarrow>
          (case signupsOpen r of
             None \<Rightarrow> Inl (503, errSettingsUnreadable)
           | Some False \<Rightarrow> Inl (403, errSignupDisabled)
           | Some True \<Rightarrow>
               if ps_siteURL (settingsFor h r) = [] then Inl siteURLRequired
               else (case refusal of
                   Some e \<Rightarrow> Inl (sessionFailure e)
                 | None \<Rightarrow>
                     (case rq_pool r of
                        Some e \<Rightarrow> Inl (poolFailure e)
                      | None \<Rightarrow> (case rq_hash r (reg_Password req) of
                            Inl e \<Rightarrow> Inl (hashFailure e) | Inr _ \<Rightarrow> Inr (Accepted (reg_Email req) (reg_FullName req)))))))"

lemma Register_answer:
  assumes "ps_requireEmailVerification (settingsFor h r)"
  shows "fst (Register h r body s) = register_answer h r body
     (case decodeRegisterRequest body of Inl _ \<Rightarrow> None
      | Inr req \<Rightarrow> fst (allowNewUser h r \<lparr>nu_Method = ''password'', nu_Provider = [], nu_Email = reg_Email req, nu_IsGuest = False\<rparr> empty_db))"
proof (cases "decodeRegisterRequest body")
  case (Inr req)
  let ?u = "\<lparr>nu_Method = ''password'', nu_Provider = [], nu_Email = reg_Email req, nu_IsGuest = False\<rparr>"
  have a: "fst (allowNewUser h r ?u (sv_db s)) = fst (allowNewUser h r ?u empty_db)" by (rule fst_allowNewUser)
  have i: "\<exists>x. fst (insertUser r req hash d) = Inr x" for hash d by (rule insertUser_Inr)
  show ?thesis
  proof (cases "rq_pool r = None \<and> (\<exists>hash. rq_hash r (reg_Password req) = Inr hash)")
    case True
    then obtain hash where hash: "rq_hash r (reg_Password req) = Inr hash" by blast
    obtain x where "fst (insertUser r req hash (snd (allowNewUser h r ?u (sv_db s)))) = Inr x" using i by blast
    then show ?thesis using Inr a assms True hash
      by (auto simp: Register_def register_answer_def on_db_pair Let_def split: option.split bool.split)
  next
    case False
    then show ?thesis using Inr a assms
      by (auto simp: Register_def register_answer_def on_db_pair Let_def split: option.split bool.split sum.split)
  qed
qed (simp add: Register_def register_answer_def)

text \<open>C24: The answers of the mail routes and of a sign-up that must be verified do not tell whether an address has an
  account: whatever two databases hold, with the same throttles behind them asking for a reset, asking for a
  verification mail, and signing up with an address answer exactly alike.\<close>

theorem answers_hide_accounts:
  assumes "sv_resend s = sv_resend s'" "sv_forgot s = sv_forgot s'"
  shows "fst (ForgotPassword h r email s) = fst (ForgotPassword h r email s') \<and>
    fst (ResendVerification h r email s) = fst (ResendVerification h r email s') \<and>
    (ps_requireEmailVerification (settingsFor h r) \<longrightarrow> fst (Register h r body s) = fst (Register h r body s'))"
proof (intro conjI impI)
  show "fst (ForgotPassword h r email s) = fst (ForgotPassword h r email s')"
    using assms by (auto simp: ForgotPassword_def Let_def split: option.split prod.split)
  show "fst (ResendVerification h r email s) = fst (ResendVerification h r email s')"
    using assms by (auto simp: ResendVerification_def Let_def split: option.split prod.split)
  show "fst (Register h r body s) = fst (Register h r body s')" if "ps_requireEmailVerification (settingsFor h r)"
    using that by (simp add: Register_answer)
qed

definition verifying_request :: request where
  "verifying_request = sample_request\<lparr>rq_info := Some (sample_info\<lparr>pi_RequireEmailVerification := True\<rparr>)\<rparr>"

theorem answers_hide_accounts_witness:
  "ps_requireEmailVerification (settingsFor sample_handler verifying_request) \<and>
   fst (Register sample_handler verifying_request
     (Some \<lparr>reg_Email = ''a@b.c'', reg_Password = ''correct horse'', reg_FullName = ''A''\<rparr>) sample_service_state) =
   fst (Register sample_handler verifying_request
     (Some \<lparr>reg_Email = ''a@b.c'', reg_Password = ''correct horse'', reg_FullName = ''A''\<rparr>) (sample_service_state\<lparr>sv_db := empty_db\<rparr>))"
proof -
  have "ps_requireEmailVerification (settingsFor sample_handler verifying_request)"
    by (simp add: settingsFor_def verifying_request_def Let_def)
  then show ?thesis
    using answers_hide_accounts [of sample_service_state "sample_service_state\<lparr>sv_db := empty_db\<rparr>" sample_handler verifying_request] by simp
qed

section \<open>A sign-up between the steps of another\<close>

text \<open>
  \<open>replaceUnverified\<close> is three statements of its own, and \<open>VerifyEmail\<close> three more. When the owner of an
  unverified sign-up follows its link after someone else's sign-up stored a new hash and before that sign-up spent
  the link, the account ends up verified with a password its owner never chose. The same happens when the new hash
  is stored between the claim of the link and the update that marks the account verified.
\<close>

definition unverified_state :: service where
  "unverified_state = sample_service_state\<lparr>sv_db := snd (IssueToken sample_env EmailVerification 1 ''v1'' 900 True
     (sample_db\<lparr>users := [sample_user\<lparr>u_email_verified := False, u_password := Some ''owner''\<rparr>]\<rparr>))\<rparr>"

definition intrude :: "db \<Rightarrow> db" where
  "intrude d = snd (ReplaceUnverified ''a@b.c'' ''intruder'' ''X'' d)"

definition intrude_end :: "db \<Rightarrow> db" where
  "intrude_end d = snd (issue EmailVerification sample_request 1 verificationTTL True (RevokeUserRefreshTokens sample_env 1 d))"

definition ends_with_intruder :: "db \<Rightarrow> bool" where
  "ends_with_intruder d = list_all (\<lambda>u. u_email_verified u \<and> u_password u = Some ''intruder'') (users d)"

theorem re_sign_up_race:
  "fst (VerifyEmail sample_handler sample_request ''v1'' (unverified_state\<lparr>sv_db := intrude (sv_db unverified_state)\<rparr>)) = Inr False \<and>
   ends_with_intruder (intrude_end (sv_db (snd (VerifyEmail sample_handler sample_request ''v1''
     (unverified_state\<lparr>sv_db := intrude (sv_db unverified_state)\<rparr>))))) \<and>
   (case redeemVerification sample_request ''v1'' (sv_db unverified_state) of
      (Some redeemed, d1) \<Rightarrow> ends_with_intruder (intrude_end (snd (markVerified sample_request redeemed (intrude d1))))
    | _ \<Rightarrow> False)"
proof (intro conjI)
  show "fst (VerifyEmail sample_handler sample_request ''v1'' (unverified_state\<lparr>sv_db := intrude (sv_db unverified_state)\<rparr>)) = Inr False"
    by code_simp
  show "ends_with_intruder (intrude_end (sv_db (snd (VerifyEmail sample_handler sample_request ''v1''
     (unverified_state\<lparr>sv_db := intrude (sv_db unverified_state)\<rparr>)))))"
    by code_simp
  show "case redeemVerification sample_request ''v1'' (sv_db unverified_state) of
      (Some redeemed, d1) \<Rightarrow> ends_with_intruder (intrude_end (snd (markVerified sample_request redeemed (intrude d1))))
    | _ \<Rightarrow> False"
    by code_simp
qed

end
