(* ===== verification/HandlerAccount.thy ===== *)
theory HandlerAccount
  imports HandlerSignIn HandlerLinks
begin

text \<open>
  A signed-in user's own account and guests (\<open>internal/handler\<close>: \<open>user.go\<close>, \<open>email_change.go\<close>, \<open>guest.go\<close>). The metadata a
  body carries is raw JSON, decoded by the library behind \<open>metadata_lib\<close>; the captcha service is a parameter. The routes
  run behind \<open>requireUserAPI\<close>, the access token and \<open>requireEndUser\<close>.
\<close>

section \<open>Updating an account\<close>

definition codeInvalidMetadata :: fault where "codeInvalidMetadata = ''invalid_metadata''"
definition codeMetadataTooLarge :: fault where "codeMetadataTooLarge = ''metadata_too_large''"
definition codeInvalidFullName :: fault where "codeInvalidFullName = ''invalid_full_name''"
definition codeSameEmail :: fault where "codeSameEmail = ''email_unchanged''"
definition codeOneSensitiveChange :: fault where "codeOneSensitiveChange = ''password_and_email_separately''"
definition emailChangeTTL :: duration where "emailChangeTTL = hour"
definition codeEmailExists :: fault where "codeEmailExists = ''email_exists''"
definition codeUserReferenced :: fault where "codeUserReferenced = ''user_referenced''"

record metadata_lib =
  ml_tokens :: "string \<Rightarrow> json_token list \<times> json_end"
  ml_decode :: "string \<Rightarrow> ((string \<rightharpoonup> string) option \<times> bool) option"
  ml_json :: json_lib

record updateUserRequest =
  ur_FullName :: "string option"
  ur_Data :: "string option"
  ur_Email :: "string option"
  ur_EmailRedirectTo :: string
  ur_Password :: "string option"
  ur_CurrentPassword :: "string option"

record userUpdate =
  uu_request :: updateUserRequest
  uu_profile :: ProfileChange
  uu_email :: string

definition sensitive :: "userUpdate \<Rightarrow> bool" where
  "sensitive u = (ur_Password (uu_request u) \<noteq> None \<or> uu_email u \<noteq> [])"

definition validFullName :: "string \<Rightarrow> bool" where
  "validFullName name = (name \<noteq> [] \<and> RuneCountInString name \<le> maxFullName \<and> \<not> contains_control name)"

definition update_name :: "string option \<Rightarrow> fault + string option" where
  "update_name given =
     (case given of
        None \<Rightarrow> Inr None
      | Some raw \<Rightarrow> let name = TrimSpace raw in if validFullName name then Inr (Some name) else Inl codeInvalidFullName)"

definition update_data :: "metadata_lib \<Rightarrow> string option \<Rightarrow> fault + (string \<rightharpoonup> string) option" where
  "update_data lib given =
     (case given of
        None \<Rightarrow> Inr None
      | Some raw \<Rightarrow> map_sum (\<lambda>_. codeInvalidMetadata) Some (ParseMetadataPatch (ml_tokens lib) (ml_decode lib) raw))"

definition update_email :: "request \<Rightarrow> string option \<Rightarrow> fault + string" where
  "update_email r given =
     (case given of
        None \<Rightarrow> Inr []
      | Some raw \<Rightarrow>
          let address = TrimSpace raw in if validAddress r address \<and> asciiOnly address then Inr address else Inl codeInvalidEmail)"

text \<open>\<open>validate\<close>: every field is checked before anything is changed.\<close>

definition validateUpdate :: "request \<Rightarrow> metadata_lib \<Rightarrow> updateUserRequest \<Rightarrow> fault + userUpdate" where
  "validateUpdate r lib req =
     (case update_name (ur_FullName req) of
        Inl e \<Rightarrow> Inl e
      | Inr name \<Rightarrow>
          (case update_data lib (ur_Data req) of
             Inl e \<Rightarrow> Inl e
           | Inr patch \<Rightarrow>
               (case (case ur_Password req of None \<Rightarrow> None | Some p \<Rightarrow> validatePassword p) of
                  Some e \<Rightarrow> Inl e
                | None \<Rightarrow>
                    if ur_Email req \<noteq> None \<and> ur_Password req \<noteq> None then Inl codeOneSensitiveChange
                    else (case update_email r (ur_Email req) of
                        Inl e \<Rightarrow> Inl e
                      | Inr address \<Rightarrow>
                          Inr \<lparr>uu_request = req, uu_profile = \<lparr>pc_FullName = name, pc_UserMetadata = patch, pc_AppMetadata = None\<rparr>,
                               uu_email = address\<rparr>))))"

definition decodeUserUpdate :: "request \<Rightarrow> metadata_lib \<Rightarrow> updateUserRequest option \<Rightarrow> userUpdate answer" where
  "decodeUserUpdate r lib body =
     (case body of
        None \<Rightarrow> Inl (400, codeInvalidRequest)
      | Some req \<Rightarrow> map_error (\<lambda>code. (400, code)) (validateUpdate r lib req))"

definition userAccount :: "int \<Rightarrow> account action" where
  "userAccount userID =
     andThen (reading (\<lambda>d. map_error (\<lambda>e. storeFailure e errUserNotFound) (AccountByID userID d))) (\<lambda>account.
     andThen (require (a_Enabled account) (403, errAccountDisabled)) (\<lambda>_. pass account))"

text \<open>The current password is checked under the address's sign-in lock.\<close>

definition password_unlocked :: "request \<Rightarrow> string \<Rightarrow> unit action" where
  "password_unlocked r address s =
     (case PasswordLockedOut r address s of (locked, s1) \<Rightarrow> (if locked then Inl (429, codeRateLimited) else Inr (), s1))"

definition currentPasswordMatches :: "request \<Rightarrow> userUpdate \<Rightarrow> account \<Rightarrow> unit action" where
  "currentPasswordMatches r update account =
     (case ur_CurrentPassword (uu_request update) of
        None \<Rightarrow> refuse (403, codeReauthRequired)
      | Some current \<Rightarrow>
          andThen (require (HasUsablePassword (a_PasswordHash account)) (403, codeReauthRequired)) (\<lambda>_.
          andThen (password_unlocked r (a_Email account)) (\<lambda>_.
            case checkPassword r current (a_PasswordHash account) of
              None \<Rightarrow> refuse (503, errHashingBusy)
            | Some matched \<Rightarrow>
                andThen (change (RecordPasswordCheck r (a_Email account) matched)) (\<lambda>_.
                require matched (403, codeReauthRequired)))))"

definition mayChangeSensitive :: "request \<Rightarrow> userUpdate \<Rightarrow> Claims \<Rightarrow> account \<Rightarrow> unit action" where
  "mayChangeSensitive r update claims account =
     (if \<not> sensitive update then pass ()
      else
        let password = (ur_Password (uu_request update) \<noteq> None); recent = freshEnough claims (a_IsGuest account) (rq_now r) in
        andThen (require (\<not> (password \<and> a_IsGuest account)) (400, codeAddressRequired)) (\<lambda>_.
        andThen (require (\<not> (uu_email update \<noteq> [] \<and> AddressKey (uu_email update) = AddressKey (a_Email account))) (400, codeSameEmail)) (\<lambda>_.
        andThen (require (\<not> (uu_email update \<noteq> [] \<and> \<not> recent)) (403, codeReauthRequired)) (\<lambda>_.
        andThen (if password \<and> \<not> recent then currentPasswordMatches r update account else pass ()) (\<lambda>_.
        if uu_email update = [] then pass () else linkable (a_ID account))))))"

section \<open>Changing the password\<close>

definition carried_password_session :: "AuthHandler \<Rightarrow> request \<Rightarrow> Claims \<Rightarrow> RefreshSession" where
  "carried_password_session h r caller =
     (carriedSession (newRefreshSession h r ''password'') (Some caller))\<lparr>AuthTime :=
        (if c_AuthTime caller \<noteq> 0 then Some (c_AuthTime caller * second) else None)\<rparr>"

definition changePassword :: "AuthHandler \<Rightarrow> request \<Rightarrow> Claims \<Rightarrow> account \<Rightarrow> string \<Rightarrow> AuthResponse action" where
  "changePassword h r caller account password =
     andThen (attempt (map_error (\<lambda>e. case e of hash_busy \<Rightarrow> (503, errHashingBusy) | hash_broken \<Rightarrow> (500, ''internal error'')) (rq_hash r password))) (\<lambda>hash.
     andThen (on_store (\<lambda>_. (500, ''failed to change password'')) (ChangePassword (rq_sql r) (a_ID account) hash)) (\<lambda>_.
     andThen (change_db (recordAudit r (a_ID account) ''password_changed'' [] (rq_ip r))) (\<lambda>_.
     on_store sessionFailure (startSession h r (userInfoOf account) (roles_of account) (a_EmailVerified account) (carried_password_session h r caller)))))"

section \<open>Changing the address\<close>

definition emailChangeTarget :: "request \<Rightarrow> string \<Rightarrow> ProjectInfo \<Rightarrow> string answer" where
  "emailChangeTarget r requested info = redirect_target r info (if requested = [] then pi_SiteURL info else requested)"

definition change_message :: "request \<Rightarrow> string \<Rightarrow> string \<Rightarrow> Message" where
  "change_message r newEmail link =
     \<lparr>msg_ProjectID = rq_project r, msg_To = newEmail, msg_Template = ''email_change'',
      msg_Data = [(''userEmail'', newEmail), (''linkUrl'', link), (''expiresMin'', ''60'')]\<rparr>"

definition change_notice :: "request \<Rightarrow> string \<Rightarrow> string \<Rightarrow> Message" where
  "change_notice r oldEmail newEmail =
     \<lparr>msg_ProjectID = rq_project r, msg_To = oldEmail, msg_Template = ''email_change_notice'',
      msg_Data = [(''userEmail'', oldEmail), (''newEmail'', newEmail)]\<rparr>"

definition mailEmailChange :: "AuthHandler \<Rightarrow> request \<Rightarrow> string \<Rightarrow> string \<Rightarrow> string \<Rightarrow> service \<Rightarrow> service" where
  "mailEmailChange h r oldEmail newEmail link s =
     (let s1 = (if link \<noteq> [] then sendMail h r (change_message r newEmail link) s else s)
      in if oldEmail = [] then s1 else sendMail h r (change_notice r oldEmail newEmail) s1)"

definition change_failure :: "store_error \<Rightarrow> nat \<times> fault" where
  "change_failure e = (if e = ErrRateLimited then (429, codeRateLimited) else linkFailure e)"

definition new_user_step :: "AuthHandler \<Rightarrow> request \<Rightarrow> newUser \<Rightarrow> unit action" where
  "new_user_step h r user s =
     (case on_db (allowNewUser h r user) s of (Some e, s1) \<Rightarrow> (Inl (sessionFailure e), s1) | (None, s1) \<Rightarrow> (Inr (), s1))"

definition requestEmailChange :: "AuthHandler \<Rightarrow> request \<Rightarrow> account \<Rightarrow> string \<Rightarrow> string \<Rightarrow> unit action" where
  "requestEmailChange h r account newEmail redirectTo =
     (case rq_token r of
        None \<Rightarrow> refuse (500, ''internal error'')
      | Some plaintext \<Rightarrow>
          andThen (if a_IsGuest account
            then new_user_step h r \<lparr>nu_Method = ''guest_upgrade'', nu_Provider = EmailProvider, nu_Email = newEmail, nu_IsGuest = False\<rparr>
            else pass ()) (\<lambda>_.
          andThen (on_store change_failure (SaveEmailChange (rq_sql r)
            \<lparr>ec_UserID = a_ID account, ec_NewEmail = newEmail, ec_TokenHash = rq_sha r plaintext, ec_ExpiresAt = rq_now r + emailChangeTTL,
             ec_GuestClient = (if a_IsGuest account then otpSenderKey r (rq_ip r) else [])\<rparr> (emailChangeLimits h))) (\<lambda>mail.
          andThen (change_db (recordAudit r (a_ID account) ''email_change_requested'' [] (rq_ip r))) (\<lambda>_.
            let link = (if cm_Link mail
              then WithParam (rq_url r) (WithParam (rq_url r) redirectTo ''token_hash'' plaintext) ''type'' ''email_change'' else [])
            in change (\<lambda>s. if cm_Notice mail then mailEmailChange h r (a_Email account) newEmail link s else s)))))"

definition recordEmailChange :: "request \<Rightarrow> ChangedEmail \<Rightarrow> db \<Rightarrow> db" where
  "recordEmailChange r changed d =
     recordAudit r (ce_UserID changed) ''email_changed'' [] (rq_ip r)
       (fold (\<lambda>replaced. recordAudit r replaced ''takeover'' EmailProvider (rq_ip r)) (ce_Replaced changed) d)"

definition confirm_failure :: "store_error \<Rightarrow> nat \<times> fault" where
  "confirm_failure e =
     (case e of
        ErrNotFound \<Rightarrow> (400, errTokenNotRedeemable)
      | ErrIdentityExists \<Rightarrow> (409, codeEmailExists)
      | ErrUserReferenced \<Rightarrow> (409, codeUserReferenced)
      | _ \<Rightarrow> linkFailure e)"

definition userRoute :: "request \<Rightarrow> Claims action" where
  "userRoute r = andThen (attempt (userAPISettings r)) (\<lambda>_. endUser r)"

definition confirmEmailChange :: "request \<Rightarrow> string option \<Rightarrow> string action" where
  "confirmEmailChange r body =
     andThen (userRoute r) (\<lambda>claims.
       case body of
         None \<Rightarrow> refuse (400, codeInvalidRequest)
       | Some tokenHash \<Rightarrow>
           andThen (require (tokenHash \<noteq> []) (400, codeInvalidRequest)) (\<lambda>_.
           andThen (storeFor r) (\<lambda>_.
           andThen (on_store confirm_failure (ConfirmEmailChange (rq_sql r) (c_UserID claims) (rq_sha r tokenHash))) (\<lambda>changed.
           andThen (change_db (recordEmailChange r changed)) (\<lambda>_.
           pass ''Email address changed'')))))"

section \<open>The update\<close>

record updateUserResponse =
  up_profile :: account_profile
  up_HasPassword :: bool
  up_EmailChangeRequested :: bool
  up_Session :: "AuthResponse option"

definition applyUserUpdate :: "AuthHandler \<Rightarrow> request \<Rightarrow> metadata_lib \<Rightarrow> Claims \<Rightarrow> userUpdate \<Rightarrow> account \<Rightarrow> string \<Rightarrow> updateUserResponse action" where
  "applyUserUpdate h r lib claims update account redirectTo =
     andThen (on_store (\<lambda>e. if e = ErrMetadataTooLarge then (400, codeMetadataTooLarge) else storeFailure e errUserNotFound)
       (UpdateProfile (ml_json lib) (a_ID account) (uu_profile update))) (\<lambda>profile.
     andThen (case ur_Password (uu_request update) of
         None \<Rightarrow> pass None
       | Some password \<Rightarrow> andThen (changePassword h r claims account password) (\<lambda>resp. pass (Some resp))) (\<lambda>session.
     andThen (if uu_email update \<noteq> [] then requestEmailChange h r account (uu_email update) redirectTo else pass ()) (\<lambda>_.
     pass \<lparr>up_profile = profile,
       up_HasPassword = (HasUsablePassword (a_PasswordHash (pr_Account profile)) \<or> ur_Password (uu_request update) \<noteq> None),
       up_EmailChangeRequested = (uu_email update \<noteq> []), up_Session = session\<rparr>)))"

definition GetUser :: "request \<Rightarrow> account_profile action" where
  "GetUser r =
     andThen (userRoute r) (\<lambda>claims.
     andThen (storeFor r) (\<lambda>_.
     reading (\<lambda>d. map_error (\<lambda>e. storeFailure e errUserNotFound) (Profile (c_UserID claims) d))))"

definition UpdateUser :: "AuthHandler \<Rightarrow> request \<Rightarrow> metadata_lib \<Rightarrow> updateUserRequest option \<Rightarrow> updateUserResponse action" where
  "UpdateUser h r lib body =
     andThen (userRoute r) (\<lambda>claims.
     andThen (attempt (userAPISettings r)) (\<lambda>info.
     andThen (attempt (decodeUserUpdate r lib body)) (\<lambda>update.
     andThen (attempt (if uu_email update \<noteq> [] then emailChangeTarget r (ur_EmailRedirectTo (uu_request update)) info else Inr [])) (\<lambda>redirectTo.
     andThen (storeFor r) (\<lambda>_.
     andThen (userAccount (c_UserID claims)) (\<lambda>account.
     andThen (if sensitive update then second_factor info claims else pass ()) (\<lambda>_.
     andThen (mayChangeSensitive r update claims account) (\<lambda>_.
     applyUserUpdate h r lib claims update account redirectTo))))))))"

section \<open>Guests\<close>

definition codeCaptchaRequired :: fault where "codeCaptchaRequired = ''captcha_required''"
definition codeCaptchaFailed :: fault where "codeCaptchaFailed = ''captcha_failed''"
definition codeCaptchaUnavailable :: fault where "codeCaptchaUnavailable = ''captcha_unavailable''"
definition maxCaptchaToken :: nat where "maxCaptchaToken = 4096"
definition guestSweepEvery :: duration where "guestSweepEvery = 24 * hour"
definition guestSweepBatch :: int where "guestSweepBatch = 10000"

text \<open>The project's captcha secret, and the service's answer to a form: its status and, where it decodes, its verdict.\<close>

record captcha_service =
  cs_secret :: "string option"
  cs_post :: "string \<Rightarrow> (nat \<times> bool option) option"

definition captcha_form :: "string \<Rightarrow> string \<Rightarrow> string \<Rightarrow> query_values" where
  "captcha_form secret captchaToken clientIP =
     (let form = [(''secret'', secret), (''response'', captchaToken)]
      in if clientIP \<noteq> [] then Values_Set ''remoteip'' clientIP form else form)"

definition verifyCaptcha :: "captcha_service \<Rightarrow> string \<Rightarrow> string \<Rightarrow> string \<Rightarrow> bool option" where
  "verifyCaptcha cs secret captchaToken clientIP =
     (case cs_post cs (Values_Encode (captcha_form secret captchaToken clientIP)) of
        None \<Rightarrow> None
      | Some (status, verdict) \<Rightarrow> if status \<noteq> 200 then None else verdict)"

definition captchaPassed :: "captcha_service \<Rightarrow> request \<Rightarrow> string \<Rightarrow> unit action" where
  "captchaPassed cs r captchaToken =
     (if captchaToken = [] then refuse (400, codeCaptchaRequired)
      else case cs_secret cs of
          None \<Rightarrow> refuse (503, codeCaptchaUnavailable)
        | Some secret \<Rightarrow>
            (case verifyCaptcha cs secret captchaToken (rq_ip r) of
               None \<Rightarrow> refuse (503, codeCaptchaUnavailable)
             | Some passed \<Rightarrow> require passed (400, codeCaptchaFailed)))"

definition guestSettings :: "request \<Rightarrow> ProjectInfo action" where
  "guestSettings r =
     andThen (attempt (signInSettings r)) (\<lambda>info.
     andThen (require (GuestSignInOn info) (404, codeMethodOff)) (\<lambda>_.
     andThen (require (NewUsersAllowed info) (403, errSignupDisabled)) (\<lambda>_. pass info)))"

text \<open>An empty body is no captcha token.\<close>

definition decodeGuestRequest :: "string option \<Rightarrow> string answer" where
  "decodeGuestRequest body =
     (case body of
        None \<Rightarrow> Inl (400, codeInvalidRequest)
      | Some captchaToken \<Rightarrow> if length captchaToken > maxCaptchaToken then Inl (400, codeCaptchaFailed) else Inr captchaToken)"

definition SignInAsGuest :: "AuthHandler \<Rightarrow> captcha_service \<Rightarrow> request \<Rightarrow> string option \<Rightarrow> AuthResponse action" where
  "SignInAsGuest h cs r body =
     andThen (guestSettings r) (\<lambda>info.
     andThen (attempt (decodeGuestRequest body)) (\<lambda>captchaToken.
     andThen (if pi_GuestCaptchaEnabled info then captchaPassed cs r captchaToken else pass ()) (\<lambda>_.
     andThen (storeFor r) (\<lambda>_.
     andThen (new_user_step h r \<lparr>nu_Method = ''guest'', nu_Provider = [], nu_Email = [], nu_IsGuest = True\<rparr>) (\<lambda>_.
     andThen (on_store (\<lambda>e. if e = ErrRateLimited then (429, codeRateLimited) else storeFailure e ''failed to create guest'')
       (CreateGuest (rq_sql r) (otpSenderKey r (rq_ip r)) (guestLimits h))) (\<lambda>account.
     andThen (change_db (recordAudit r (a_ID account) ''sign_up'' ''guest'' (rq_ip r))) (\<lambda>_.
     on_store sessionFailure (generateAuthResponse h r (userInfoOf account) (roles_of account) False ''guest''))))))))"

text \<open>A project's round of the sweeper, while the guest flag is on for it; the claim keeps other replicas out.\<close>

definition sweepProject :: "AuthHandler \<Rightarrow> request \<Rightarrow> db \<Rightarrow> db" where
  "sweepProject h r d =
     (case rq_fresh r of
        None \<Rightarrow> d
      | Some info \<Rightarrow>
          if \<not> GuestsOn info then d
          else (case ClaimGuestCleanup (rq_sql r) guestSweepEvery d of
              (claimed, d1) \<Rightarrow>
                if \<not> claimed then d1 else snd (DeleteInactiveGuests (rq_sql r) (rq_now r - guestInactiveAfter h) guestSweepBatch d1)))"

text \<open>\<open>WithGuestInactivity\<close>.\<close>

definition WithGuestInactivity :: "int \<Rightarrow> AuthHandler \<Rightarrow> AuthHandler" where
  "WithGuestInactivity days h = (if 1 \<le> days then h\<lparr>guestInactiveAfter := days * 24 * hour\<rparr> else h)"

section \<open>Facts\<close>

lemma ChangePassword_Inr:
  assumes "ChangePassword env uid hash d = (Inr (), d')"
  shows "user_by_id d' uid = map_option (\<lambda>u. u\<lparr>u_password := Some hash\<rparr>) (user_by_id d uid)"
    and "\<forall>t \<in> set (refresh_tokens d'). r_user_id t = uid \<longrightarrow> r_revoked t"
proof -
  let ?d1 = "update_user uid (\<lambda>u. u\<lparr>u_password := Some hash\<rparr>) d"
  have d': "users d' = users ?d1" "refresh_tokens d' = refresh_tokens (revoke_where (\<lambda>r. r_user_id r = uid) ?d1)"
    using assms by (auto simp: ChangePassword_def Let_def endSessionsAndLinks_def endChangesQuery_def revoke_where_def split: if_splits)
  have "user_by_id d' uid = user_by_id ?d1 uid" by (simp add: user_by_id_def d'(1))
  then show "user_by_id d' uid = map_option (\<lambda>u. u\<lparr>u_password := Some hash\<rparr>) (user_by_id d uid)"
    by (simp add: user_by_id_update)
  show "\<forall>t \<in> set (refresh_tokens d'). r_user_id t = uid \<longrightarrow> r_revoked t"
    by (simp add: d'(2) revoke_where_def ball_update_where)
qed

lemma UpdateProfile_Inr:
  assumes "UpdateProfile json uid ch d = (Inr profile, d')"
  shows "\<exists>u v. user_by_id d uid = Some u \<and> user_by_id d' uid = Some v \<and> refresh_tokens d' = refresh_tokens d"
  using assms
  by (auto simp: UpdateProfile_def Let_def user_by_id_update split: option.splits sum.splits)

lemma userAccount_steps: "userAccount uid s = (Inr account, s') \<longleftrightarrow>
    s' = s \<and> (\<exists>u. user_by_id (sv_db s) uid = Some u \<and> account = account_of u \<and> u_enabled u)"
  by (auto simp: userAccount_def granted AccountByID_iff)

lemma userRoute_steps: "userRoute r s = (Inr claims, s') \<longleftrightarrow> own_end_user r claims \<and> s' = s \<and> (\<exists>info. userAPISettings r = Inr info)"
  by (auto simp: userRoute_def granted endUser_steps)

lemma userAPISettings_Inr: "userAPISettings r = Inr info \<longleftrightarrow> rq_fresh r = Some info \<and> pi_UserAPIEnabled info"
  by (auto simp: userAPISettings_def split: option.splits if_splits)

lemma optional_factor: "(if b then second_factor info claims else pass ()) s = (Inr u, s') \<longleftrightarrow>
    (b \<longrightarrow> pi_MFAEnabled info \<and> HasVerifiedFactor (c_UserID claims) (sv_db s) \<longrightarrow> c_AAL claims = claimAAL2) \<and> s' = s"
  by (auto simp: second_factor_steps granted)

lemma validateUpdate_password:
  assumes "validateUpdate r lib req = Inr update" "ur_Password req = Some password"
  shows "uu_request update = req" "uu_email update = []" "validatePassword password = None"
  using assms by (auto simp: validateUpdate_def update_email_def split: sum.splits option.splits if_splits)

lemma password_lock_db: "PasswordLockedOut r a s = (b, s') \<Longrightarrow> sv_db s' = sv_db s"
  by (auto simp: PasswordLockedOut_def case_prod_beta Let_def split: option.splits)

lemma password_check_db: "sv_db (RecordPasswordCheck r a b s) = sv_db s"
  by (simp add: RecordPasswordCheck_def Let_def split: option.split)

lemma currentPasswordMatches_steps:
  assumes "currentPasswordMatches r update account s = (Inr u, s')"
  shows "sv_db s' = sv_db s"
    "\<exists>current. ur_CurrentPassword (uu_request update) = Some current \<and> checkPassword r current (a_PasswordHash account) = Some True"
  using assms
  by (auto simp: currentPasswordMatches_def password_unlocked_def granted password_check_db split: option.splits prod.splits if_splits
      dest: password_lock_db)

lemma mayChangeSensitive_password:
  assumes "mayChangeSensitive r update claims account s = (Inr u, s')" "ur_Password (uu_request update) = Some password"
    "uu_email update = []"
  shows "sv_db s' = sv_db s" "\<not> a_IsGuest account"
    "freshEnough claims False (rq_now r) \<or> (\<exists>current. ur_CurrentPassword (uu_request update) = Some current \<and>
       checkPassword r current (a_PasswordHash account) = Some True)"
  using assms currentPasswordMatches_steps [of r update account]
  by (auto simp: mayChangeSensitive_def sensitive_def granted split: if_splits)

lemma changePassword_Inr:
  assumes "changePassword h r caller account password s = (Inr resp, s')"
  obtains hash d1 where "rq_hash r password = Inr hash" "ChangePassword (rq_sql r) (a_ID account) hash (sv_db s) = (Inr (), d1)"
    "users (sv_db s') = users d1"
    "refresh_tokens (sv_db s') = refresh_tokens d1 @ [session_row r (RefreshToken resp) (a_ID account) (carried_password_session h r caller)]"
proof -
  from assms obtain hash d1 where h: "rq_hash r password = Inr hash" and c: "ChangePassword (rq_sql r) (a_ID account) hash (sv_db s) = (Inr (), d1)"
    and g: "startSession h r (userInfoOf account) (roles_of account) (a_EmailVerified account) (carried_password_session h r caller)
      (recordAudit r (a_ID account) ''password_changed'' [] (rq_ip r) d1) = (Inr resp, sv_db s')"
    by (auto simp: changePassword_def granted)
  show thesis
    using startSession_stored(2,3) [OF g] audit_only_fields [OF audit_only_recordAudit, of r "a_ID account" "''password_changed''" "[]" "rq_ip r" d1]
    by (intro that [OF h c]) (simp_all add: userInfoOf_def)
qed


text \<open>The sample account with the current password in hand, long after its sign-in.\<close>

definition own_request :: request where
  "own_request = sample_request\<lparr>rq_claims := Some (sample_claims\<lparr>c_UserID := 1, c_AuthTime := 0\<rparr>)\<rparr>"

definition sample_metadata :: metadata_lib where
  "sample_metadata = \<lparr>ml_tokens = (\<lambda>_. ([], BadInput)), ml_decode = (\<lambda>_. None),
     ml_json = \<lparr>json_unmarshal = (\<lambda>_. None), json_marshal = (\<lambda>_. None), json_compact = (\<lambda>_. None), jsonb_text = (\<lambda>t. t)\<rparr>\<rparr>"

definition password_update :: updateUserRequest where
  "password_update = \<lparr>ur_FullName = None, ur_Data = None, ur_Email = None, ur_EmailRedirectTo = [], ur_Password = Some ''correct horse'',
     ur_CurrentPassword = Some ''h''\<rparr>"


text \<open>Who may sign in as a guest: the method and sign-ups are on and, where the project asks for a captcha, the service said of this
  token, from this address, that it was solved.\<close>

definition guest_allowed :: "captcha_service \<Rightarrow> request \<Rightarrow> string option \<Rightarrow> bool" where
  "guest_allowed cs r body \<longleftrightarrow> (\<exists>info captchaToken. rq_fresh r = Some info \<and> GuestSignInOn info \<and> NewUsersAllowed info \<and>
     body = Some captchaToken \<and> length captchaToken \<le> maxCaptchaToken \<and>
     (pi_GuestCaptchaEnabled info \<longrightarrow> captchaToken \<noteq> [] \<and>
       (\<exists>secret. cs_secret cs = Some secret \<and> cs_post cs (Values_Encode (captcha_form secret captchaToken (rq_ip r))) = Some (200, Some True))))"

lemma guestSettings_steps: "guestSettings r s = (Inr info, s') \<longleftrightarrow>
    rq_fresh r = Some info \<and> GuestSignInOn info \<and> NewUsersAllowed info \<and> s' = s"
  by (auto simp: guestSettings_def granted signInSettings_def split: option.splits)

lemma captcha_steps: "(if on then captchaPassed cs r captchaToken else pass ()) s = (Inr u, s') \<longleftrightarrow> s' = s \<and> (on \<longrightarrow> captchaToken \<noteq> [] \<and>
    (\<exists>secret. cs_secret cs = Some secret \<and> cs_post cs (Values_Encode (captcha_form secret captchaToken (rq_ip r))) = Some (200, Some True)))"
  by (auto simp: captchaPassed_def verifyCaptcha_def granted split: option.splits if_splits)

lemma decodeGuestRequest_Inr: "decodeGuestRequest body = Inr t \<longleftrightarrow> body = Some t \<and> length t \<le> maxCaptchaToken"
  by (auto simp: decodeGuestRequest_def split: option.splits if_splits)

lemma still_guest_guards: "still (guestSettings r)" "still (if on then captchaPassed cs r captchaToken else pass ())"
  unfolding guestSettings_def captchaPassed_def by (auto intro!: still_andThen still_steps split: option.split)

lemma new_user_step_db: "new_user_step h r user s = (Inr u, s') \<Longrightarrow> audit_only (sv_db s) (sv_db s')"
  using audit_only_allowNewUser [of "sv_db s" h r user] by (auto simp: new_user_step_def on_db_pair split: option.splits)

lemma guest_session_Inr:
  assumes "generateAuthResponse h r (userInfoOf a) roles False ''guest'' d = (Inr resp, d')"
  shows "users d' = users d" "refresh_tokens d' = refresh_tokens d @ [session_row r (RefreshToken resp) (a_ID a) (newRefreshSession h r ''guest'')]"
  using startSession_stored(2,3) [OF assms [unfolded generateAuthResponse_def]] by (simp_all add: userInfoOf_def)

text \<open>C27: Guest sign-in fails closed. A request is refused and changes nothing at all, neither a table nor a limit, unless guests and
  sign-ups are on and, where the project asks for one, the captcha service answered with success for the presented
  token: a missing token, a missing secret, an unreachable service, any other status and an unreadable or negative
  verdict all refuse. A granted request adds exactly one account, a guest without address, password or proof, in the
  guest role, and one session of it.\<close>

theorem guest_sign_in_guarded:
  assumes "SignInAsGuest h cs r body s = (res, s')"
  shows "(isl res \<and> s' = s \<or> guest_allowed cs r body) \<and>
    (\<forall>resp. res = Inr resp \<longrightarrow> (\<exists>u. users (sv_db s') = users (sv_db s) @ [u] \<and> u_is_guest u \<and> u_email u = None \<and> u_password u = None \<and>
       \<not> u_email_verified u \<and> u_role u = GuestRole \<and>
       refresh_tokens (sv_db s') = refresh_tokens (sv_db s) @ [session_row r (RefreshToken resp) (u_id u) (newRefreshSession h r ''guest'')]))"
proof (intro conjI allI impI)
  have "guarded (guest_allowed cs r body) (SignInAsGuest h cs r body) s"
    unfolding SignInAsGuest_def
    by (intro guarded_andThen still_guest_guards still_steps guarded_True)
      (auto simp: guest_allowed_def guestSettings_steps captcha_steps granted decodeGuestRequest_Inr)
  then show "isl res \<and> s' = s \<or> guest_allowed cs r body" using assms by (auto simp: guarded_def)
next
  fix resp
  assume "res = Inr resp"
  with assms obtain s1 s2 d a where s1: "new_user_step h r \<lparr>nu_Method = ''guest'', nu_Provider = [], nu_Email = [], nu_IsGuest = True\<rparr> s = (Inr s1, s2)"
    and a: "CreateGuest (rq_sql r) (otpSenderKey r (rq_ip r)) (guestLimits h) (sv_db s2) = (Inr a, d)"
    and g: "generateAuthResponse h r (userInfoOf a) (roles_of a) False ''guest'' (recordAudit r (a_ID a) ''sign_up'' ''guest'' (rq_ip r) d) = (Inr resp, sv_db s')"
    unfolding SignInAsGuest_def by (auto simp: granted guestSettings_steps captcha_steps)
  have same: "users (sv_db s2) = users (sv_db s)" "refresh_tokens (sv_db s2) = refresh_tokens (sv_db s)"
    using audit_only_fields [OF new_user_step_db [OF s1]] by simp_all
  from a obtain u where u: "a = account_of u" "users d = users (sv_db s2) @ [u]" "refresh_tokens d = refresh_tokens (sv_db s2)"
    "u_is_guest u" "u_email u = None" "u_password u = None" "\<not> u_email_verified u" "u_role u = GuestRole"
    by (auto simp: CreateGuest_def Let_def insert_user_def guest_row_def split: if_splits)
  then show "\<exists>u. users (sv_db s') = users (sv_db s) @ [u] \<and> u_is_guest u \<and> u_email u = None \<and> u_password u = None \<and>
       \<not> u_email_verified u \<and> u_role u = GuestRole \<and>
       refresh_tokens (sv_db s') = refresh_tokens (sv_db s) @ [session_row r (RefreshToken resp) (u_id u) (newRefreshSession h r ''guest'')]"
    using guest_session_Inr [OF g] same audit_only_fields [OF audit_only_recordAudit, of r "a_ID a" "''sign_up''" "''guest''" "rq_ip r" d] by auto
qed

definition sample_captcha :: captcha_service where
  "sample_captcha = \<lparr>cs_secret = Some ''s'', cs_post = (\<lambda>form. Some (200, Some (form = ''remoteip=10.0.0.1&response=tok&secret=s'')))\<rparr>"

definition guest_request :: request where
  "guest_request = sample_request\<lparr>rq_fresh := Some (sample_info\<lparr>pi_GuestCaptchaEnabled := True\<rparr>)\<rparr>"

definition guest_state :: service where
  "guest_state = sample_service_state\<lparr>sv_db := sample_db\<lparr>guest_lock := Some None\<rparr>\<rparr>"

theorem guest_sign_in_guarded_witness:
  "\<exists>resp s' res. SignInAsGuest sample_handler sample_captcha guest_request (Some ''tok'') guest_state = (Inr resp, s') \<and>
     (\<exists>u. users (sv_db s') = [sample_user, u] \<and> u_is_guest u) \<and>
     SignInAsGuest sample_handler sample_captcha guest_request (Some ''forged'') guest_state = (res, guest_state)"
proof -
  have "\<not> isl (fst (SignInAsGuest sample_handler sample_captcha guest_request (Some ''tok'') guest_state))" by code_simp
  then obtain resp s' where run: "SignInAsGuest sample_handler sample_captcha guest_request (Some ''tok'') guest_state = (Inr resp, s')"
    using not_isl_run by blast
  obtain res s'' where forged: "SignInAsGuest sample_handler sample_captcha guest_request (Some ''forged'') guest_state = (res, s'')" by fastforce
  have "Values_Encode (captcha_form ''s'' ''forged'' ''10.0.0.1'') \<noteq> ''remoteip=10.0.0.1&response=tok&secret=s''" by code_simp
  then have "\<not> guest_allowed sample_captcha guest_request (Some ''forged'')"
    by (simp add: guest_allowed_def sample_captcha_def guest_request_def sample_request_def sample_info_def)
  with guest_sign_in_guarded [OF forged] have "s'' = guest_state" by simp
  moreover have "users (sv_db guest_state) = [sample_user]" by (simp add: guest_state_def sample_db_def)
  ultimately show ?thesis using guest_sign_in_guarded [OF run] run forged by (auto simp: guest_allowed_def)
qed

end
