(* ===== verification/HandlerAdmin.thy ===== *)
theory HandlerAdmin
  imports HandlerAccount
begin

text \<open>
  The project's own administration (\<open>internal/handler\<close>: \<open>apikey.go\<close>, \<open>user_admin.go\<close>, \<open>user_admin_detail.go\<close>, the reset of
  \<open>mfa_verify.go\<close> and the listing of \<open>mfa.go\<close>), the generation of API keys (\<open>internal/service/apikey.go\<close>) and the check of
  a bearer token in front of the routes (\<open>internal/middleware/require_jwt.go\<close>). Times in answers, sent in RFC 3339, are
  left as times.
\<close>

section \<open>Bearer tokens\<close>

text \<open>The request as it goes on, with the verified claims in its context.\<close>

definition RequireJWT :: "AuthHandler \<Rightarrow> request \<Rightarrow> string \<Rightarrow> request answer" where
  "RequireJWT h r authHeader =
     (if authHeader = [] then Inl (401, ''missing Authorization header'')
      else if \<not> HasPrefix authHeader ''Bearer '' then Inl (401, ''Authorization header must be a Bearer token'')
      else case Verify (rq_jwt r) (jwtService h) (rq_now r) (TrimPrefix authHeader ''Bearer '') of
          None \<Rightarrow> Inl (401, ''invalid or expired token'')
        | Some claims \<Rightarrow> Inr (r\<lparr>rq_claims := Some claims\<rparr>))"

section \<open>Decimal numbers\<close>

text \<open>\<open>strconv.ParseInt(s, 10, 64)\<close>, which \<open>Atoi\<close> agrees with on a 64-bit machine.\<close>

definition digits_value :: "string \<Rightarrow> int" where
  "digits_value s = int (foldl (\<lambda>acc c. acc * 10 + (of_char c - 48)) 0 s)"

definition ParseInt :: "string \<Rightarrow> int option" where
  "ParseInt s =
     (let negative = HasPrefix s ''-''; digits = (if negative \<or> HasPrefix s ''+'' then drop 1 s else s);
          value = (if negative then - digits_value digits else digits_value digits)
      in if digits = [] \<or> \<not> list_all is_digit digits \<or> value < - (2 ^ 63) \<or> 2 ^ 63 \<le> value then None else Some value)"

section \<open>API keys\<close>

definition publishableNamespace :: string where "publishableNamespace = ''esk_pub_live_''"
definition secretNamespace :: string where "secretNamespace = ''esk_sec_live_''"
definition randomLen :: nat where "randomLen = 24"
definition prefixLen :: nat where "prefixLen = 12"
definition base62alphabet :: string where
  "base62alphabet = ''0123456789abcdefghijklmnopqrstuvwxyzABCDEFGHIJKLMNOPQRSTUVWXYZ''"

text \<open>\<open>draws\<close> are the numbers below 62 the random source yields, in order; \<open>None\<close> is a failure of the source.\<close>

fun randomBase62 :: "nat option list \<Rightarrow> nat \<Rightarrow> string option" where
  "randomBase62 draws 0 = Some []"
| "randomBase62 (Some idx # draws) (Suc n) = map_option ((#) (base62alphabet ! idx)) (randomBase62 draws n)"
| "randomBase62 _ (Suc n) = None"

definition HashAPIKey :: "request \<Rightarrow> string \<Rightarrow> string" where
  "HashAPIKey r plaintext = rq_sha r plaintext"

definition GenerateAPIKey :: "request \<Rightarrow> nat option list \<Rightarrow> string \<Rightarrow> (string \<times> string \<times> string) option" where
  "GenerateAPIKey r draws keyType =
     (case (if keyType = ''publishable'' then Some publishableNamespace else if keyType = ''secret'' then Some secretNamespace else None) of
        None \<Rightarrow> None
      | Some namespace \<Rightarrow>
          map_option (\<lambda>random. (namespace @ random, HashAPIKey r (namespace @ random), take prefixLen random)) (randomBase62 draws randomLen))"

text \<open>The lifetime is computed in 64-bit nanoseconds, which wrap.\<close>

definition isPlatformTokenFor :: "Claims \<Rightarrow> string \<Rightarrow> bool" where
  "isPlatformTokenFor claims projectID =
     (let lifetime = signed_take_bit 63 (signed_take_bit 63 (c_ExpiresAt claims - c_IssuedAt claims) * second)
      in c_IssuedAt claims \<noteq> 0 \<and> 0 < lifetime \<and> lifetime \<le> MaxKeyAdminLifetime \<and> KeyAdminAudience projectID \<in> set (c_Audience claims))"

definition canManageAPIKeys :: "Claims \<Rightarrow> string \<Rightarrow> bool" where
  "canManageAPIKeys claims projectID =
     (if c_TokenUse claims = TokenUseKeyAdmin then isPlatformTokenFor claims projectID
      else IsAccess claims \<and> c_Scope claims = ''service'')"

text \<open>The checks the three handlers start with.\<close>

definition keyManager :: "request \<Rightarrow> unit answer" where
  "keyManager r =
     (case rq_claims r of
        None \<Rightarrow> Inl (401, ''missing claims'')
      | Some claims \<Rightarrow>
          if c_ProjectID claims \<noteq> rq_project r then Inl (403, ''token project mismatch'')
          else if \<not> canManageAPIKeys claims (rq_project r) then Inl (403, ''insufficient scope to manage api keys'')
          else Inr ())"

definition errKeyType :: fault where
  "errKeyType = ''keyType must be '' @ [CHR 0x27] @ ''publishable'' @ [CHR 0x27] @ '' or '' @ [CHR 0x27] @ ''secret'' @ [CHR 0x27]"

record CreateAPIKeyRequest =
  kq_Name :: string
  kq_KeyType :: string

record CreateAPIKeyResponse =
  kp_ID :: int
  kp_Plaintext :: string
  kp_KeyPrefix :: string
  kp_KeyType :: string
  kp_Name :: string
  kp_CreatedAt :: time

definition createAPIKey :: "request \<Rightarrow> nat option list \<Rightarrow> CreateAPIKeyRequest option \<Rightarrow> CreateAPIKeyResponse action" where
  "createAPIKey r draws body =
     andThen (attempt (keyManager r)) (\<lambda>_.
       case body of
         None \<Rightarrow> refuse (400, ''invalid request'')
       | Some req \<Rightarrow>
           andThen (require (kq_KeyType req = ''publishable'' \<or> kq_KeyType req = ''secret'') (400, errKeyType)) (\<lambda>_.
           andThen (storeFor r) (\<lambda>_.
             case GenerateAPIKey r draws (kq_KeyType req) of
               None \<Rightarrow> refuse (500, ''failed to generate api key'')
             | Some (plaintext, hash, prefix) \<Rightarrow>
                 andThen (on_store (\<lambda>_. (500, ''failed to persist api key'')) (CreateAPIKey (rq_sql r) hash prefix (kq_KeyType req) (kq_Name req))) (\<lambda>(i, createdAt).
                 pass \<lparr>kp_ID = i, kp_Plaintext = plaintext, kp_KeyPrefix = prefix, kp_KeyType = kq_KeyType req, kp_Name = kq_Name req, kp_CreatedAt = createdAt\<rparr>))))"

definition listAPIKeys :: "request \<Rightarrow> APIKeyListing list action" where
  "listAPIKeys r =
     andThen (attempt (keyManager r)) (\<lambda>_.
     andThen (storeFor r) (\<lambda>_.
     reading (\<lambda>d. Inr (ListAPIKeys d))))"

text \<open>Revoking again, or a key that is not there, is answered as done.\<close>

definition revokeAPIKey :: "request \<Rightarrow> string \<Rightarrow> bool action" where
  "revokeAPIKey r idStr =
     andThen (attempt (keyManager r)) (\<lambda>_.
       case ParseInt idStr of
         None \<Rightarrow> refuse (400, ''invalid api key id'')
       | Some i \<Rightarrow>
           andThen (storeFor r) (\<lambda>_.
           on_store (\<lambda>e. e) (\<lambda>d. case RevokeAPIKey (rq_sql r) i d of (revoked, d1) \<Rightarrow> (Inr revoked, d1))))"

section \<open>End users\<close>

definition defaultUsersLimit :: int where "defaultUsersLimit = 100"
definition maxUsersLimit :: int where "maxUsersLimit = 500"
definition maxActorLength :: nat where "maxActorLength = 256"

definition validActor :: "string \<Rightarrow> bool" where
  "validActor actor = (TrimSpace actor \<noteq> [] \<and> length actor \<le> maxActorLength \<and> \<not> contains_control actor)"

definition userManagerActor :: "Claims \<Rightarrow> string \<Rightarrow> string option" where
  "userManagerActor claims projectID =
     (if c_TokenUse claims = TokenUseUserAdmin then
        if \<not> isPlatformTokenFor claims projectID \<or> \<not> validActor (c_Actor claims) then None else Some (''studio:'' @ c_Actor claims)
      else if IsAccess claims \<and> c_Role claims = RoleService \<and> c_Scope claims = ''service'' \<and> 0 < c_KeyID claims
      then Some (''service-key:'' @ FormatInt (c_KeyID claims))
      else None)"

text \<open>\<open>requireUserManager\<close>: who the caller is, for the audit trail.\<close>

definition requireUserManager :: "request \<Rightarrow> string answer" where
  "requireUserManager r =
     (case rq_claims r of
        None \<Rightarrow> Inl (401, ''missing_token'')
      | Some claims \<Rightarrow>
          if c_ProjectID claims \<noteq> rq_project r then Inl (403, ''token_project_mismatch'')
          else case userManagerActor claims (rq_project r) of None \<Rightarrow> Inl (403, ''insufficient_scope'') | Some actor \<Rightarrow> Inr actor)"

definition queryInt :: "string \<Rightarrow> int \<Rightarrow> int option" where
  "queryInt raw fallback = (if raw = [] then Some fallback else ParseInt raw)"

definition parsePagination :: "string \<Rightarrow> string \<Rightarrow> (nat \<times> nat) option" where
  "parsePagination rawLimit rawOffset =
     (case queryInt rawLimit defaultUsersLimit of
        None \<Rightarrow> None
      | Some l \<Rightarrow>
          if l < 1 \<or> l > maxUsersLimit then None
          else (case queryInt rawOffset 0 of None \<Rightarrow> None | Some off \<Rightarrow> if off < 0 then None else Some (nat l, nat off)))"

definition listUsers :: "request \<Rightarrow> string \<Rightarrow> string \<Rightarrow> ManagedUser list action" where
  "listUsers r rawLimit rawOffset =
     andThen (attempt (requireUserManager r)) (\<lambda>_.
       case parsePagination rawLimit rawOffset of
         None \<Rightarrow> refuse (400, ''invalid_pagination'')
       | Some (l, off) \<Rightarrow> andThen (storeFor r) (\<lambda>_. reading (\<lambda>d. Inr (ListUsers l off d))))"

record SetRoleRequest =
  sr_Role :: string
  sr_AllowedRoles :: "string list option"

definition account_id :: "string \<Rightarrow> int option" where
  "account_id raw = (case ParseInt raw of None \<Rightarrow> None | Some i \<Rightarrow> if i \<le> 0 then None else Some i)"

definition SetUserRole :: "request \<Rightarrow> string \<Rightarrow> SetRoleRequest option \<Rightarrow> ManagedUser action" where
  "SetUserRole r userId body =
     andThen (attempt (requireUserManager r)) (\<lambda>actor.
       case account_id userId of
         None \<Rightarrow> refuse (400, ''invalid_user_id'')
       | Some userID \<Rightarrow>
           (case body of
              None \<Rightarrow> refuse (400, ''invalid_request'')
            | Some req \<Rightarrow>
                andThen (attempt (map_error (\<lambda>e. (400, role_message e)) (NormalizeAllowedRoles (sr_Role req) (sr_AllowedRoles req)))) (\<lambda>allowed.
                andThen (storeFor r) (\<lambda>_.
                on_store (\<lambda>e. if e = ErrNotFound then (404, errUserNotFound) else (500, ''failed_to_change_role''))
                  (ApplyRoleChange (rq_sql r) \<lparr>rc_UserID = userID, rc_Role = sr_Role req, rc_Allowed = allowed,
                     rc_Stored = (if sr_AllowedRoles req \<noteq> None then Some allowed else None), rc_Actor = actor\<rparr>)))))"

section \<open>One end user\<close>

record managedUserChange =
  mc_AppMetadata :: "string option"
  mc_UserMetadata :: "string option"
  mc_FullName :: "string option"

record ManagedUserDetail =
  md_User :: ManagedUser
  md_FullName :: string
  md_UserMetadata :: string
  md_AppMetadata :: string
  md_CreatedAt :: time
  md_LastLoginAt :: "time option"

definition managedUserDetail :: "account_profile \<Rightarrow> ManagedUserDetail" where
  "managedUserDetail profile =
     (let a = pr_Account profile in
      \<lparr>md_User = \<lparr>mu_ID = a_ID a, mu_Email = a_Email a, mu_Role = a_Role a,
         mu_AllowedRoles = (case a_AllowedRoles a of None \<Rightarrow> [a_Role a] | Some rs \<Rightarrow> rs),
         mu_Enabled = a_Enabled a, mu_EmailVerified = a_EmailVerified a, mu_IsGuest = a_IsGuest a\<rparr>,
       md_FullName = a_FullName a, md_UserMetadata = pr_UserMetadata profile, md_AppMetadata = pr_AppMetadata profile,
       md_CreatedAt = pr_CreatedAt profile, md_LastLoginAt = pr_LastLoginAt profile\<rparr>)"

definition managedTarget :: "request \<Rightarrow> string \<Rightarrow> int action" where
  "managedTarget r userId =
     andThen (attempt (userAPISettings r)) (\<lambda>_.
       case account_id userId of
         None \<Rightarrow> refuse (400, ''invalid_user_id'')
       | Some userID \<Rightarrow> andThen (storeFor r) (\<lambda>_. pass userID))"

definition GetManagedUser :: "request \<Rightarrow> string \<Rightarrow> ManagedUserDetail action" where
  "GetManagedUser r userId =
     andThen (attempt (requireUserManager r)) (\<lambda>_.
     andThen (managedTarget r userId) (\<lambda>userID.
     andThen (reading (\<lambda>d. map_error (\<lambda>e. storeFailure e errUserNotFound) (Profile userID d))) (\<lambda>profile.
     pass (managedUserDetail profile))))"

definition decodeManagedChange :: "metadata_lib \<Rightarrow> managedUserChange option \<Rightarrow> fault + ProfileChange" where
  "decodeManagedChange lib body =
     (case body of
        None \<Rightarrow> Inl codeInvalidRequest
      | Some req \<Rightarrow>
          (case update_name (mc_FullName req) of
             Inl e \<Rightarrow> Inl e
           | Inr name \<Rightarrow>
               (case update_data lib (mc_AppMetadata req) of
                  Inl e \<Rightarrow> Inl e
                | Inr app \<Rightarrow>
                    (case update_data lib (mc_UserMetadata req) of
                       Inl e \<Rightarrow> Inl e
                     | Inr user \<Rightarrow> Inr \<lparr>pc_FullName = name, pc_UserMetadata = user, pc_AppMetadata = app\<rparr>))))"

definition UpdateManagedUser :: "request \<Rightarrow> metadata_lib \<Rightarrow> string \<Rightarrow> managedUserChange option \<Rightarrow> ManagedUserDetail action" where
  "UpdateManagedUser r lib userId body =
     andThen (attempt (requireUserManager r)) (\<lambda>_.
     andThen (managedTarget r userId) (\<lambda>userID.
     andThen (attempt (map_error (\<lambda>code. (400, code)) (decodeManagedChange lib body))) (\<lambda>ch.
     andThen (on_store (\<lambda>e. if e = ErrMetadataTooLarge then (400, codeMetadataTooLarge) else storeFailure e errUserNotFound)
       (UpdateProfile (ml_json lib) userID ch)) (\<lambda>profile.
     pass (managedUserDetail profile)))))"

definition auditActorKind :: "string \<Rightarrow> string" where
  "auditActorKind actor = fst (Cut (CHR '':'') actor)"

definition DeleteManagedUser :: "request \<Rightarrow> string \<Rightarrow> unit action" where
  "DeleteManagedUser r userId =
     andThen (attempt (requireUserManager r)) (\<lambda>actor.
     andThen (managedTarget r userId) (\<lambda>userID.
     andThen (on_store (\<lambda>e. if e = ErrUserReferenced then (409, codeUserReferenced) else storeFailure e errUserNotFound)
       (DeleteUser (rq_sql r) userID)) (\<lambda>_.
     change_db (recordAudit r userID ''user_deleted'' (auditActorKind actor) (rq_ip r)))))"

section \<open>Second factors\<close>

definition ResetUserMFA :: "request \<Rightarrow> string \<Rightarrow> unit action" where
  "ResetUserMFA r userId =
     andThen (attempt (requireUserManager r)) (\<lambda>actor.
       case account_id userId of
         None \<Rightarrow> refuse (404, errUserNotFound)
       | Some userID \<Rightarrow>
           andThen (storeFor r) (\<lambda>_.
           andThen (on_store (\<lambda>e. storeFailure e errUserNotFound) (ResetMFA userID)) (\<lambda>_.
           change_db (recordAudit r userID ''mfa_reset'' (auditActorKind actor) (rq_ip r)))))"

text \<open>\<open>uuid_rank\<close> orders factor ids as the database does.\<close>

definition listFactors :: "(string \<Rightarrow> nat) \<Rightarrow> request \<Rightarrow> Claims \<Rightarrow> FactorListing action" where
  "listFactors uuid_rank r claims = andThen (storeFor r) (\<lambda>_. reading (\<lambda>d. Inr (ListFactors uuid_rank (c_UserID claims) d)))"

section \<open>Facts\<close>

lemma ParseInt_FormatInt:
  assumes "- (2 ^ 63) \<le> i" "i < 2 ^ 63"
  shows "ParseInt (FormatInt i) = Some i"
proof -
  have plain: "\<not> HasPrefix (decimal n) ''-''" "\<not> HasPrefix (decimal n) ''+''" for n
    using decimal_digits [of n] by (cases "decimal n"; auto simp: HasPrefix_def is_digit_def)+
  show ?thesis
    using assms plain decimal_digits [of "nat i"] decimal_digits [of "nat (- i)"]
    by (simp add: ParseInt_def FormatInt_def digits_value_def decimal_value HasPrefix_def Let_def) linarith
qed

lemma randomBase62_length: "randomBase62 draws n = Some x \<Longrightarrow> length x = n"
  by (induction draws n arbitrary: x rule: randomBase62.induct) auto

text \<open>A token the control plane signed for the project: its audience names the project, and it lives at most a minute, as long as its
  times are such that 64-bit nanoseconds can hold their distance.\<close>

definition platform_token :: "Claims \<Rightarrow> string \<Rightarrow> bool" where
  "platform_token claims projectID \<longleftrightarrow> ''excalibase-auth:'' @ projectID \<in> set (c_Audience claims) \<and> c_IssuedAt claims \<noteq> 0 \<and>
     (\<bar>c_ExpiresAt claims - c_IssuedAt claims\<bar> \<le> 9 * 10 ^ 9 \<longrightarrow>
        c_IssuedAt claims < c_ExpiresAt claims \<and> c_ExpiresAt claims \<le> c_IssuedAt claims + 60)"

lemma isPlatformTokenFor_token:
  assumes "isPlatformTokenFor claims projectID"
  shows "platform_token claims projectID"
proof -
  have "signed_take_bit 63 (signed_take_bit 63 x * second) = x * second" if "\<bar>x\<bar> \<le> 9 * 10 ^ 9" for x :: int
    using that by (simp add: signed_take_bit_int_eq_self)
  then show ?thesis using assms
    by (auto simp: isPlatformTokenFor_def platform_token_def KeyAdminAudience_def MaxKeyAdminLifetime_def Let_def)
qed

definition key_admin :: "request \<Rightarrow> bool" where
  "key_admin r \<longleftrightarrow> (\<exists>claims. rq_claims r = Some claims \<and> c_ProjectID claims = rq_project r \<and>
     (c_TokenUse claims = ''key_admin'' \<and> platform_token claims (rq_project r) \<or> IsAccess claims \<and> c_Scope claims = ''service''))"

definition user_admin :: "request \<Rightarrow> bool" where
  "user_admin r \<longleftrightarrow> (\<exists>claims. rq_claims r = Some claims \<and> c_ProjectID claims = rq_project r \<and>
     (c_TokenUse claims = ''user_admin'' \<and> platform_token claims (rq_project r) \<and> validActor (c_Actor claims) \<or>
      IsAccess claims \<and> c_Scope claims = ''service'' \<and> c_Role claims = ''service'' \<and> 0 < c_KeyID claims))"

lemma keyManager_Inr: "keyManager r = Inr u \<Longrightarrow> key_admin r"
  by (auto simp: keyManager_def key_admin_def canManageAPIKeys_def TokenUseKeyAdmin_def split: option.splits if_splits dest: isPlatformTokenFor_token)

lemma requireUserManager_Inr: "requireUserManager r = Inr actor \<Longrightarrow> user_admin r"
  by (auto simp: requireUserManager_def user_admin_def userManagerActor_def TokenUseUserAdmin_def RoleService_def
      split: option.splits if_splits dest: isPlatformTokenFor_token)

lemma CreateAPIKey_Inr:
  assumes "CreateAPIKey env hash prefix keyType name d = (Inr (i, created), d')"
  obtains k where "api_keys d' = api_keys d @ [k]" "k_key_hash k = hash" "k_id k = i" "k_key_type k = keyType" "k_created_by k = None"
    "k_revoked_at k = None" "\<forall>k \<in> set (api_keys d). k_key_hash k \<noteq> hash"
  using assms by (auto simp: CreateAPIKey_def Let_def exists_where_def list_ex_iff split: if_splits)

lemma find_none: "\<forall>x \<in> set xs. \<not> P x \<Longrightarrow> List.find P xs = None"
  by (simp add: find_None_iff)

lemma revoked_key_unknown:
  assumes "api_keys d = ks @ [k]" "k_key_hash k = hash" "k_id k = i" "\<forall>k \<in> set ks. k_key_hash k \<noteq> hash"
    "RevokeAPIKey env i d = (ok, d')"
  shows "APIKeyByHash hash d' = Inl ErrNotFound"
proof -
  have "api_keys d' = update_where (\<lambda>k. k_id k = i \<and> k_revoked_at k = None) (\<lambda>k. k\<lparr>k_revoked_at := Some (sql_now env)\<rparr>) (ks @ [k])"
    using assms(1,5) by (auto simp: RevokeAPIKey_def Let_def)
  then have "List.find (\<lambda>k. k_key_hash k = hash \<and> k_revoked_at k = None) (api_keys d') = None"
    using assms(2-4) by (intro find_none) (auto simp: update_where_def)
  then show ?thesis by (simp add: APIKeyByHash_def)
qed

lemma guarded_attempt:
  assumes "\<And>y. x = Inr y \<Longrightarrow> P"
  shows "guarded P (andThen (attempt x) f) s"
  by (rule guarded_andThen [OF still_steps(4)]) (rule guarded_True, auto simp: attempt_Inr intro: assms)

text \<open>C25: Administration is for the project alone. The API-key routes refuse, and leave every table and limit as it is, unless the
  verified token is of this project and is either a session of one of its secret keys or a key-admin token of the control
  plane with this project's audience and a life of at most a minute; the end-user routes likewise ask for a secret key's
  session in the service role or a user-admin token that names who acts. An end user's token, and that of a publishable
  key, is neither, so no sign-up reaches them.\<close>

theorem administration_guarded:
  "guarded (key_admin r) (createAPIKey r draws body) s \<and> guarded (key_admin r) (listAPIKeys r) s \<and>
   guarded (key_admin r) (revokeAPIKey r i) s \<and>
   guarded (user_admin r) (listUsers r l off) s \<and> guarded (user_admin r) (SetUserRole r i role) s \<and>
   guarded (user_admin r) (GetManagedUser r i) s \<and> guarded (user_admin r) (UpdateManagedUser r lib i update) s \<and>
   guarded (user_admin r) (DeleteManagedUser r i) s \<and> guarded (user_admin r) (ResetUserMFA r i) s \<and>
   (\<forall>claims. rq_claims r = Some claims \<and> c_Scope claims \<in> {''authenticated'', ''public''} \<and> IsAccess claims \<longrightarrow> \<not> key_admin r \<and> \<not> user_admin r)"
  by (auto simp: createAPIKey_def listAPIKeys_def revokeAPIKey_def listUsers_def SetUserRole_def GetManagedUser_def UpdateManagedUser_def
      DeleteManagedUser_def ResetUserMFA_def key_admin_def user_admin_def IsAccess_def TokenUseAccess_def
      intro!: guarded_attempt dest: keyManager_Inr requireUserManager_Inr)

theorem administration_guarded_witness:
  "\<exists>e. createAPIKey own_request [] (Some \<lparr>kq_Name = ''k'', kq_KeyType = ''secret''\<rparr>) sample_service_state = (Inl e, sample_service_state)"
proof -
  have own: "rq_claims own_request = Some (sample_claims\<lparr>c_UserID := 1, c_AuthTime := 0\<rparr>)"
    "c_Scope sample_claims = ''authenticated''" "IsAccess (sample_claims\<lparr>c_UserID := 1, c_AuthTime := 0\<rparr>)"
    by (simp_all add: own_request_def sample_claims_def IsAccess_def)
  note all = administration_guarded [of own_request "[]" "Some \<lparr>kq_Name = ''k'', kq_KeyType = ''secret''\<rparr>" sample_service_state "[]" "[]" "[]" None sample_metadata None]
  have g: "guarded (key_admin own_request) (createAPIKey own_request [] (Some \<lparr>kq_Name = ''k'', kq_KeyType = ''secret''\<rparr>)) sample_service_state"
    by (rule conjunct1 [OF all])
  have no: "\<not> key_admin own_request" using all own by auto
  obtain x s' where run: "createAPIKey own_request [] (Some \<lparr>kq_Name = ''k'', kq_KeyType = ''secret''\<rparr>) sample_service_state = (x, s')" by fastforce
  with g no have "isl x" "s' = sample_service_state" by (auto simp: guarded_def)
  then show ?thesis using run by (cases x) auto
qed


definition admin_request :: request where
  "admin_request = sample_request\<lparr>rq_claims := Some (sample_claims\<lparr>c_UserID := 0, c_Scope := ''service'', c_Role := ''service'', c_KeyID := 4\<rparr>)\<rparr>"


end
