(* ===== verification/StoreSteps.thy ===== *)
theory StoreSteps
  imports HandlerAdmin
begin

text \<open>
  What the handlers may do to a project's database: the operations of the store interface, one step each
  (\<open>internal/store/store.go\<close>). Each runs in a transaction, so that requests served at once interleave at these steps.
  \<open>store_proof\<close> is the contract of an invariant of the steps: every handler, and the sweep, keeps it.
\<close>

section \<open>Steps\<close>

inductive db_step :: "db \<Rightarrow> db \<Rightarrow> bool" where
  step_audit: "audit_only d d' \<Longrightarrow> db_step d d'"
| step_InsertUser: "db_step d (snd (InsertUser env email hash name d))"
| step_ReplaceUnverified: "db_step d (snd (ReplaceUnverified email hash name d))"
| step_TouchLastLogin: "db_step d (TouchLastLogin env uid d)"
| step_SetPassword: "db_step d (SetPassword uid hash d)"
| step_MarkVerified: "db_step d (snd (MarkVerified env uid keep replacement d))"
| step_ApplyRoleChange: "db_step d (snd (ApplyRoleChange env ch d))"
| step_UpdateProfile: "db_step d (snd (UpdateProfile json uid profile d))"
| step_ChangePassword: "db_step d (snd (ChangePassword env uid hash d))"
| step_DeleteUser: "db_step d (snd (DeleteUser env uid d))"
| step_InsertRefreshToken: "db_step d (snd (InsertRefreshToken env hash uid session d))"
| step_RotateRefreshToken: "db_step d (snd (RotateRefreshToken env presented successor check d))"
| step_ElevateRefreshToken: "db_step d (snd (ElevateRefreshToken env uid presented successor m d))"
| step_RevokeRefreshFamily: "db_step d (RevokeRefreshFamily family d)"
| step_RevokeRefreshToken: "db_step d (RevokeRefreshToken hash d)"
| step_RevokeUserRefreshTokens: "db_step d (RevokeUserRefreshTokens env uid d)"
| step_RevokeOtherSessions: "db_step d (RevokeOtherSessions uid family d)"
| step_IssueToken: "db_step d (snd (IssueToken env kind uid hash expires confirms d))"
| step_ClaimToken: "db_step d (snd (ClaimToken env kind i d))"
| step_CreateAPIKey: "db_step d (snd (CreateAPIKey env hash prefix keyType name d))"
| step_RevokeAPIKey: "db_step d (snd (RevokeAPIKey env i d))"
| step_TouchAPIKey: "db_step d (TouchAPIKey env i d)"
| step_SignInWithIdentity: "db_step d (snd (SignInWithIdentity env identity create d))"
| step_SignInWithEmail: "db_step d (snd (SignInWithEmail env email name create d))"
| step_SaveFlowState: "db_step d (snd (SaveFlowState env flow d))"
| step_ConsumeFlowState: "db_step d (snd (ConsumeFlowState env hash d))"
| step_SaveAuthCode: "db_step d (snd (SaveAuthCode env code d))"
| step_RedeemAuthCode: "db_step d (snd (RedeemAuthCode env hash d))"
| step_LinkIdentity: "db_step d (snd (LinkIdentity env uid identity d))"
| step_UnlinkIdentity: "db_step d (snd (UnlinkIdentity uid i d))"
| step_SaveEmailOTP: "db_step d (snd (SaveEmailOTP env otp otp_limits d))"
| step_RedeemEmailOTP: "db_step d (snd (RedeemEmailOTP env otp_query perCode otp_ok d))"
| step_SaveEmailChange: "db_step d (snd (SaveEmailChange env email_change change_limits d))"
| step_ConfirmEmailChange: "db_step d (snd (ConfirmEmailChange env uid hash d))"
| step_CreateGuest: "db_step d (snd (CreateGuest env client guest_limits d))"
| step_ClaimGuestCleanup: "db_step d (snd (ClaimGuestCleanup env every d))"
| step_DeleteInactiveGuests: "db_step d (snd (DeleteInactiveGuests env cutoff n d))"
| step_CreateFactor: "db_step d (snd (CreateFactor env factor mfa_limits d))"
| step_CreateChallenge: "db_step d (snd (CreateChallenge uuid env uid factorID challengeID ip expires d))"
| step_VerifyFactor: "db_step d (snd (VerifyFactor uuid env factor_try mfa_limits factor_ok d))"
| step_DeleteFactor: "db_step d (snd (DeleteFactor uuid uid factorID d))"
| step_ReplaceRecoveryCodes: "db_step d (snd (ReplaceRecoveryCodes uid hashes d))"
| step_AddRecoveryCodesIfNone: "db_step d (snd (AddRecoveryCodesIfNone uid hashes d))"
| step_RedeemRecoveryCode: "db_step d (snd (RedeemRecoveryCode env uid family hash mfa_limits d))"
| step_ResetMFA: "db_step d (snd (ResetMFA uid d))"

lemma wf_step: "db_step d d' \<Longrightarrow> wf_db d \<Longrightarrow> wf_db d'"
proof (induction rule: db_step.induct)
  case (step_DeleteInactiveGuests d env cutoff n)
  obtain k d' where run: "guestLoop env cutoff n 0 0 d = (k, d')" by fastforce
  have "behind env cutoff 0 d" using step_DeleteInactiveGuests by (auto simp: behind_def wf_db_def wf_users_def)
  from guestLoop_effect [OF step_DeleteInactiveGuests this run] show ?case by (simp add: DeleteInactiveGuests_def run)
qed (simp_all add: wf_audit_only wf_InsertUser wf_ReplaceUnverified wf_MarkVerified wf_ApplyRoleChange wf_UpdateProfile wf_ChangePassword wf_DeleteUser
    wf_insertRefreshToken InsertRefreshToken_def wf_rotate RotateRefreshToken_def ElevateRefreshToken_def RevokeRefreshFamily_def RevokeRefreshToken_def
    RevokeUserRefreshTokens_def wf_endSessionsAndLinks RevokeOtherSessions_def wf_IssueToken wf_ClaimToken wf_CreateAPIKey wf_RevokeAPIKey
    wf_TouchAPIKey wf_SignInWithIdentity wf_SignInWithEmail wf_SaveFlowState wf_ConsumeFlowState wf_SaveAuthCode wf_RedeemAuthCode wf_LinkIdentity
    wf_UnlinkIdentity wf_SaveEmailOTP wf_RedeemEmailOTP wf_SaveEmailChange wf_ConfirmEmailChange wf_CreateGuest wf_ClaimGuestCleanup wf_CreateFactor
    wf_CreateChallenge wf_VerifyFactor wf_DeleteFactor wf_ReplaceRecoveryCodes wf_AddRecoveryCodesIfNone wf_RedeemRecoveryCode wf_ResetMFA)

section \<open>Reading a handler off its branches\<close>

text \<open>The state a run leaves behind satisfies a predicate: one rule per construct a handler is written with.\<close>

definition leaves :: "('s \<Rightarrow> bool) \<Rightarrow> 'a \<times> 's \<Rightarrow> bool" where
  "leaves P p = P (snd p)"

named_theorems leaving \<open>what runs leave behind\<close>

lemma leaves_pair [leaving]: "P s \<Longrightarrow> leaves P (x, s)"
  by (simp add: leaves_def)

lemma leaves_run [leaving]: "leaves P p \<Longrightarrow> (\<And>x s. P s \<Longrightarrow> leaves P (f x s)) \<Longrightarrow> leaves P (case p of (x, s) \<Rightarrow> f x s)"
  by (cases p) (simp add: leaves_def)

lemma leaves_if [leaving]: "leaves P p \<Longrightarrow> leaves P q \<Longrightarrow> leaves P (if b then p else q)"
  by simp

lemma leaves_option [leaving]: "leaves P p \<Longrightarrow> (\<And>y. leaves P (f y)) \<Longrightarrow> leaves P (case x of None \<Rightarrow> p | Some y \<Rightarrow> f y)"
  by (cases x) simp_all

lemma leaves_sum [leaving]: "(\<And>e. leaves P (f e)) \<Longrightarrow> (\<And>y. leaves P (g y)) \<Longrightarrow> leaves P (case x of Inl e \<Rightarrow> f e | Inr y \<Rightarrow> g y)"
  by (cases x) simp_all

lemma leaves_let [leaving]: "leaves P (f x) \<Longrightarrow> leaves P (let y = x in f y)"
  by simp

lemma leaves_bool [leaving]: "leaves P p \<Longrightarrow> leaves P q \<Longrightarrow> leaves P (case b of True \<Rightarrow> p | False \<Rightarrow> q)"
  by (cases b) simp_all

lemma leaves_values: "(\<And>a b. leaves P (f a b)) \<Longrightarrow> leaves P (case p of (a, b) \<Rightarrow> f a b)"
  by (cases p) simp

lemma leaves_error:
  assumes "leaves P p1" "leaves P p2" "leaves P p3" "leaves P p4" "leaves P p5" "leaves P p6" "leaves P p7" "leaves P p8" "leaves P p9"
    "leaves P p10" "leaves P p11" "leaves P p12" "leaves P p13" "leaves P p14" "leaves P p15" "leaves P p16" "leaves P p17" "leaves P p18"
    "leaves P p19" "leaves P p20" "leaves P p21" "leaves P p22" "leaves P p23" "leaves P p24" "\<And>n f. leaves P (p25 n f)"
  shows "leaves P (case_store_error p1 p2 p3 p4 p5 p6 p7 p8 p9 p10 p11 p12 p13 p14 p15 p16 p17 p18 p19 p20 p21 p22 p23 p24 p25 e)"
  using assms by (cases e) simp_all

lemma leaves_on_db [leaving]:
  "leaves Q (f (sv_db s)) \<Longrightarrow> leaves (\<lambda>s. Q (sv_db s)) (on_db f s)"
  by (simp add: leaves_def on_db_def case_prod_beta Let_def)

lemma keeps_leaves: "keeps Q m \<longleftrightarrow> (\<forall>s. Q (sv_db s) \<longrightarrow> leaves (\<lambda>s. Q (sv_db s)) (m s))"
  by (simp add: keeps_def leaves_def)

section \<open>What the handlers keep\<close>

locale store_proof =
  fixes Q :: "db \<Rightarrow> bool"
  assumes kept_step: "db_step d d' \<Longrightarrow> Q d \<Longrightarrow> Q d'"

sublocale store_proof \<subseteq> session_proof Q
  by unfold_locales (blast intro: kept_step db_step.intros)+

context store_proof
begin

text \<open>An operation of the store, and what a handler is composed of beside them.\<close>

lemma leaves_step: "db_step d (snd p) \<Longrightarrow> Q d \<Longrightarrow> leaves Q p"
  by (simp add: leaves_def kept_step)

lemmas operations [leaving] = db_step.intros(2-) [THEN kept_step, folded leaves_def]

lemma leaves_accessClaims [leaving]: "Q d \<Longrightarrow> leaves Q (accessClaims h r user roles ev d)"
  unfolding leaves_def by (rule kept_audit [OF audit_only_accessClaims])

lemma leaves_generateAuthResponse [leaving]: "Q d \<Longrightarrow> leaves Q (generateAuthResponse h r user roles ev m d)"
  unfolding leaves_def by (rule kept_generateAuthResponse)

lemma leaves_refreshPreview [leaving]: "Q d \<Longrightarrow> leaves Q (refreshPreview h r hash d)"
  unfolding leaves_def by (rule kept_audit [OF audit_only_refreshPreview])

lemma leaves_allowNewUser [leaving]: "Q d \<Longrightarrow> leaves Q (allowNewUser h r user d)"
  unfolding leaves_def by (rule kept_allowNewUser)

lemmas kept_rows [leaving] = kept_recordAudit kept_Touch kept_sendMail

text \<open>The same constructs around a step that answers nothing.\<close>

lemma state_rules:
  "leaves (\<lambda>s. Q (sv_db s)) p \<Longrightarrow> (\<And>x s. Q (sv_db s) \<Longrightarrow> Q (sv_db (f x s))) \<Longrightarrow> Q (sv_db (case p of (x, s) \<Rightarrow> f x s))"
  "Q (sv_db s) \<Longrightarrow> (\<And>y. Q (sv_db (g y))) \<Longrightarrow> Q (sv_db (case x of None \<Rightarrow> s | Some y \<Rightarrow> g y))"
  "(\<And>e. Q (sv_db (k e))) \<Longrightarrow> (\<And>y. Q (sv_db (g y))) \<Longrightarrow> Q (sv_db (case x' of Inl e \<Rightarrow> k e | Inr y \<Rightarrow> g y))"
  "Q (sv_db s) \<Longrightarrow> Q (sv_db s') \<Longrightarrow> Q (sv_db (if b then s else s'))"
  "Q (sv_db (g y)) \<Longrightarrow> Q (sv_db (let z = y in g z))"
  "Q d \<Longrightarrow> Q (sv_db (s\<lparr>sv_db := d\<rparr>))"
  "Q (sv_db s) \<Longrightarrow> Q (sv_db (s\<lparr>sv_resend := t\<rparr>))"
  "Q (sv_db s) \<Longrightarrow> Q (sv_db (s\<lparr>sv_forgot := t\<rparr>))"
  by (auto simp: leaves_def split: prod.split option.split sum.split)

lemma state_values: "(\<And>a b. Q (sv_db (f a b))) \<Longrightarrow> Q (sv_db (case p of (a, b) \<Rightarrow> f a b))"
  by (cases p) simp

lemma leaves_exchangePassword [leaving]: "Q d \<Longrightarrow> leaves Q (exchangePassword h r email password d)"
  unfolding exchangePassword_def by (assumption | rule leaving)+

lemma leaves_rejectDead [leaving]: "Q d \<Longrightarrow> leaves Q (rejectDeadRefreshToken hash d)"
  unfolding rejectDeadRefreshToken_def by (assumption | rule leaving)+

lemma leaves_exchangeAPIKey [leaving]: "Q d \<Longrightarrow> leaves Q (exchangeAPIKey h r apiKey d)"
  unfolding exchangeAPIKey_def by (assumption | rule leaving)+

lemma leaves_Logout [leaving]: "Q d \<Longrightarrow> leaves Q (Logout r scope refreshToken d)"
  unfolding Logout_def logoutLocal_def logoutScoped_def by (assumption | rule leaving)+

lemma leaves_exchangeRefreshToken [leaving]: "Q d \<Longrightarrow> leaves Q (exchangeRefreshToken h r refreshToken d)"
  unfolding exchangeRefreshToken_def by (assumption | rule leaving | rule leaves_error leaves_values)+

subsection \<open>Mailed links and sign-up\<close>

lemma leaves_issue [leaving]: "Q d \<Longrightarrow> leaves Q (issue kind r uid ttl b d)"
  unfolding issue_def by (assumption | rule leaving)+

lemma leaves_redeem [leaving]: "Q d \<Longrightarrow> leaves Q (redeem kind r plaintext d)" "Q d \<Longrightarrow> leaves Q (redeemVerification r plaintext d)"
  unfolding redeem_def redeemVerification_def claim_def by (assumption | rule leaving)+

lemma kept_mails [leaving]:
  "Q (sv_db s) \<Longrightarrow> Q (sv_db (sendVerification h r uid address site b s))"
  "Q (sv_db s) \<Longrightarrow> Q (sv_db (mailPasswordReset h r uid address s))"
  unfolding sendVerification_def mailPasswordReset_def by (assumption | rule leaving state_rules)+

lemma leaves_VerifyEmail [leaving]: "Q (sv_db s) \<Longrightarrow> leaves (\<lambda>s. Q (sv_db s)) (VerifyEmail h r plaintext s)"
  unfolding VerifyEmail_def markVerified_def by (assumption | rule leaving)+

lemma kept_mail_requests [leaving]:
  "Q (sv_db s) \<Longrightarrow> Q (sv_db (resendVerificationFor h r address s))"
  "Q (sv_db s) \<Longrightarrow> Q (sv_db (sendPasswordReset h r address s))"
  unfolding resendVerificationFor_def sendPasswordReset_def by (assumption | rule leaving state_rules)+

lemma leaves_mail_requests [leaving]:
  "Q (sv_db s) \<Longrightarrow> leaves (\<lambda>s. Q (sv_db s)) (ResendVerification h r body s)"
  "Q (sv_db s) \<Longrightarrow> leaves (\<lambda>s. Q (sv_db s)) (ForgotPassword h r body s)"
  unfolding ResendVerification_def ForgotPassword_def
  by (assumption | rule leaving | simp | rule leaves_values)+

lemma leaves_ResetPassword [leaving]: "Q d \<Longrightarrow> leaves Q (ResetPassword r body d)"
  unfolding ResetPassword_def applyNewPassword_def by (assumption | rule leaving | rule leaves_values)+

lemma kept_replaceUnverified [leaving]: "Q (sv_db s) \<Longrightarrow> Q (sv_db (replaceUnverified h r req hash site s))"
  unfolding replaceUnverified_def by (assumption | rule leaving state_rules | rule state_values)+

lemma leaves_insertUser [leaving]: "Q d \<Longrightarrow> leaves Q (insertUser r req hash d)"
  unfolding insertUser_def by (assumption | rule leaving | rule leaves_values)+

lemma leaves_Register [leaving]: "Q (sv_db s) \<Longrightarrow> leaves (\<lambda>s. Q (sv_db s)) (Register h r body s)"
  unfolding Register_def by (assumption | rule leaving state_rules)+

subsection \<open>Second factors\<close>

lemma leaves_factorRoute [leaving]:
  "(\<And>claims d. Q d \<Longrightarrow> leaves Q (next claims d)) \<Longrightarrow> Q d \<Longrightarrow> leaves Q (factorRoute r next d)"
  unfolding factorRoute_def by (assumption | rule leaving)+

lemma leaves_EnrollFactor [leaving]: "Q d \<Longrightarrow> leaves Q (EnrollFactor h r body claims d)"
  unfolding EnrollFactor_def by (assumption | rule leaving)+

lemma leaves_ChallengeFactor [leaving]: "Q d \<Longrightarrow> leaves Q (ChallengeFactor r fid claims d)"
  unfolding ChallengeFactor_def by (assumption | rule leaving)+

lemma leaves_UnenrollFactor [leaving]: "Q d \<Longrightarrow> leaves Q (UnenrollFactor r fid claims d)"
  unfolding UnenrollFactor_def by (assumption | rule leaving)+

lemma leaves_newStepUp [leaving]: "Q d \<Longrightarrow> leaves Q (newStepUp r claims tok d)"
  unfolding newStepUp_def by (assumption | rule leaving)+

lemma leaves_codeFailure [leaving]: "Q d \<Longrightarrow> leaves Q (codeFailure r uid m e d)"
  unfolding codeFailure_def by (assumption | rule leaving leaves_error)+

lemma leaves_recovery_codes [leaving]:
  "Q d \<Longrightarrow> leaves Q (stepUpRecoveryCodes r keys uid d)"
  "Q d \<Longrightarrow> leaves Q (issueRecoveryCodes r keys uid d)"
  unfolding stepUpRecoveryCodes_def issueRecoveryCodes_def by (assumption | rule leaving | rule leaves_values)+

lemma leaves_finishStepUp [leaving]: "Q d \<Longrightarrow> leaves Q (finishStepUp h r keys session m d)"
  unfolding finishStepUp_def by (assumption | rule leaving | rule leaves_values)+

lemma leaves_verifyFactorCode [leaving]: "Q d \<Longrightarrow> leaves Q (verifyFactorCode h r fid body claims d)"
  unfolding verifyFactorCode_def by (assumption | rule leaving)+

lemma leaves_RecoverWithCode [leaving]: "Q d \<Longrightarrow> leaves Q (RecoverWithCode h r body claims d)"
  unfolding RecoverWithCode_def by (assumption | rule leaving | rule leaves_values)+

lemma leaves_RegenerateRecoveryCodes [leaving]: "Q d \<Longrightarrow> leaves Q (RegenerateRecoveryCodes r claims d)"
  unfolding RegenerateRecoveryCodes_def by (assumption | rule leaving)+

subsection \<open>Steps of an action\<close>

lemma kept_on_store [keeping]: "(\<And>d. Q d \<Longrightarrow> leaves Q (f d)) \<Longrightarrow> keeps Q (on_store answer f)"
  by (simp add: keeps_on_store leaves_def)

lemmas kept_change [keeping] = keeps_change_db keeps_change

lemma kept_answered [keeping]:
  "keeps Q m \<Longrightarrow> keeps Q (\<lambda>s. case m s of (Inl e, s1) \<Rightarrow> (f e, s1) | (Inr x, s1) \<Rightarrow> (g x, s1))"
  by (auto simp: keeps_def split: prod.split sum.split)

lemma kept_gated: "still m \<Longrightarrow> keeps Q m"
  by (simp add: still_def keeps_def)

lemma leaves_startSession [leaving]: "Q d \<Longrightarrow> leaves Q (startSession h r user roles ev session d)"
  unfolding leaves_def by (rule kept_startSession)

lemmas kept_notices [leaving] = noticeLinked_kept [OF audit_proof_axioms] kept_recordAudits

lemma kept_audit_row [leaving]: "Q d \<Longrightarrow> Q (audit r uid m outcome d)"
  unfolding audit_def by (rule kept_recordAudit)

lemma keeps_sign_in_step [keeping]:
  "(\<And>b d. Q d \<Longrightarrow> leaves Q (try_it b d)) \<Longrightarrow> keeps Q (sign_in_or_create h r try_it mayCreate user limited denied)"
  by (rule keeps_sign_in_or_create [OF audit_proof_axioms]) (simp add: leaves_def)

subsection \<open>Providers, links and emailed codes\<close>

lemma keeps_startAtProvider [keeping]: "keeps Q (startAtProvider r provider settings app)"
  unfolding startAtProvider_def by (assumption | rule keeping leaving)+

lemma keeps_Authorize [keeping]: "keeps Q (Authorize h r q)"
  unfolding Authorize_def authorizeLink_def by (assumption | rule keeping leaving)+

lemma keeps_issueAuthCode [keeping]: "keeps Q (issueAuthCode r code)"
  unfolding issueAuthCode_def by (assumption | rule keeping leaving)+

lemma keeps_signInIdentity [keeping]: "keeps Q (signInIdentity h r provider identity b)"
  unfolding signInIdentity_def by (assumption | rule keeping leaving)+

lemma keeps_finishSignIn [keeping]: "keeps Q (finishSignIn h r flow code)"
  unfolding finishSignIn_def by (assumption | rule keeping leaving state_rules)+

lemma keeps_Callback [keeping]: "keeps Q (Callback h r q)"
  unfolding Callback_def by (assumption | rule keeping leaving)+

lemmas gates = still_guards [THEN kept_gated]

lemma keeps_gates [keeping]: "keeps Q (emailSignInSettings h r)" "keeps Q (linkable uid)" "keeps Q (userAccount uid)" "keeps Q (userRoute r)"
  "keeps Q (guestSettings r)" "keeps Q (captchaPassed cs r captchaToken)" "keeps Q (managedTarget r userId)"
  unfolding emailSignInSettings_def linkable_def userAccount_def userRoute_def guestSettings_def captchaPassed_def managedTarget_def
  by (assumption | rule gates keeping)+

lemma keeps_StartProviderLink [keeping]: "keeps Q (StartProviderLink h r body)"
  unfolding StartProviderLink_def save_ticket_def by (assumption | rule gates keeping leaving)+

lemma keeps_unlinkIdentity [keeping]: "keeps Q (unlinkIdentity r i)"
  unfolding unlinkIdentity_def unlink_own_def by (assumption | rule gates keeping leaving)+

lemma keeps_saveAndMail [keeping]: "keeps Q (saveAndMail h r otp msg)"
  unfolding saveAndMail_def by (assumption | rule keeping leaving state_rules)+

lemma keeps_SendOTP [keeping]: "keeps Q (SendOTP h r body)"
  unfolding SendOTP_def by (assumption | rule keeping leaving)+

lemma keeps_StartAddressLink [keeping]: "keeps Q (StartAddressLink h r body)"
  unfolding StartAddressLink_def by (assumption | rule gates keeping leaving)+

lemma keeps_links [keeping]: "keeps Q (commitLink h r uid link)" "keeps Q (accountSession h r uid b)"
  by (rule keeps_commitLink [OF audit_proof_axioms kept_step [OF step_LinkIdentity]] keeps_accountSession [OF session_proof_axioms]; assumption)+

lemma keeps_exchangePKCE [keeping]: "keeps Q (exchangePKCE h r code verifier)"
  unfolding exchangePKCE_def by (assumption | rule keeping leaving)+

lemma leaves_redeemOTP [leaving]: "Q d \<Longrightarrow> leaves Q (redeemOTP h r req d)"
  unfolding redeemOTP_def by (assumption | rule leaving)+

lemma keeps_VerifyOTP [keeping]: "keeps Q (VerifyOTP h r body)"
  unfolding VerifyOTP_def finishAddressLink_def email_session_def signInByEmail_def by (assumption | rule keeping leaving)+

subsection \<open>The account and its administration\<close>

lemma keeps_new_user [keeping]: "keeps Q (new_user_step h r user)"
  unfolding new_user_step_def keeps_leaves by (intro allI impI) (assumption | rule leaving)+

lemma keeps_password_lock [keeping]: "keeps Q (password_unlocked r address)" "keeps Q (change (RecordPasswordCheck r address ok))"
  by (auto simp: keeps_def password_unlocked_def PasswordLockedOut_def RecordPasswordCheck_def Let_def change_def split: option.split prod.split)

lemma keeps_mayChangeSensitive [keeping]: "keeps Q (mayChangeSensitive r update claims account)"
  unfolding mayChangeSensitive_def currentPasswordMatches_def by (assumption | rule keeps_password_lock keeping)+

lemma keeps_changePassword [keeping]: "keeps Q (changePassword h r caller account password)"
  unfolding changePassword_def by (assumption | rule keeping leaving)+

lemma kept_mailEmailChange [leaving]: "Q (sv_db s) \<Longrightarrow> Q (sv_db (mailEmailChange h r old new link s))"
  unfolding mailEmailChange_def by (assumption | rule leaving state_rules)+

lemma keeps_requestEmailChange [keeping]: "keeps Q (requestEmailChange h r account newEmail redirectTo)"
  unfolding requestEmailChange_def by (assumption | rule keeping leaving state_rules)+

lemma keeps_UpdateUser [keeping]: "keeps Q (UpdateUser h r lib body)"
  unfolding UpdateUser_def applyUserUpdate_def by (assumption | rule gates keeping leaving)+

lemma keeps_confirmEmailChange [keeping]: "keeps Q (confirmEmailChange r body)"
  unfolding confirmEmailChange_def recordEmailChange_def by (assumption | rule keeping leaving)+

lemma keeps_SignInAsGuest [keeping]: "keeps Q (SignInAsGuest h cs r body)"
  unfolding SignInAsGuest_def by (assumption | rule keeping leaving)+

lemma kept_sweepProject [leaving]: "Q d \<Longrightarrow> Q (sweepProject h r d)"
  using operations unfolding sweepProject_def leaves_def by (auto split: option.split prod.split) (metis snd_conv)+

lemma keeps_administration [keeping]:
  "keeps Q (createAPIKey r draws keyBody)" "keeps Q (listAPIKeys r)" "keeps Q (revokeAPIKey r idStr)" "keeps Q (listUsers r l off)"
  "keeps Q (SetUserRole r uid roleBody)" "keeps Q (GetManagedUser r uid)" "keeps Q (UpdateManagedUser r lib uid changeBody)"
  "keeps Q (DeleteManagedUser r uid)" "keeps Q (ResetUserMFA r uid)"
  unfolding createAPIKey_def listAPIKeys_def revokeAPIKey_def listUsers_def SetUserRole_def GetManagedUser_def UpdateManagedUser_def
    DeleteManagedUser_def ResetUserMFA_def
  by (assumption | rule keeping leaving)+

end

end
