(* ===== verification/Routes.thy ===== *)
theory Routes
  imports StoreSteps
begin

text \<open>
  The routes of a project as they are mounted (\<open>internal/handler\<close>: \<open>Routes\<close> of \<open>auth.go\<close>, \<open>IdentityRoutes\<close>, \<open>FactorRoutes\<close>,
  \<open>APIKeyRoutes\<close>, \<open>UserRoutes\<close>), with the middleware in front of each in the order it runs: the switch of the method, the
  bearer token, who may call, the limit. A handler whose definition asks for its caller again gets the same answer, since the
  request is the same. The states a project can be in are those some sequence of calls leaves behind.
\<close>

section \<open>Calls and answers\<close>

record TokenRequest =
  tr_GrantType :: string
  tr_Email :: string
  tr_Password :: string
  tr_APIKey :: string
  tr_RefreshToken :: string
  tr_AuthCode :: string
  tr_CodeVerifier :: string

datatype public_call =
    PostRegister "RegisterRequest option"
  | PostGuest "string option"
  | PostLogin "(string \<times> string) json_body"
  | PostValidate "string option"
  | PostRefresh "string json_body"
  | PostLogout string "string option"
  | GetVerifyEmail string
  | PostVerifyEmail string string
  | PostResendVerification "string option"
  | PostForgotPassword "string option"
  | PostResetPassword "(string \<times> string) option"
  | PostToken "TokenRequest json_body"
  | GetAuthorize authorizeQuery
  | GetCallback callbackQuery
  | PostOTP "otpRequest option"
  | PostVerify "verifyOTPRequest option"

datatype identity_call =
    GetIdentities
  | PostIdentityAuthorize "linkRequest option"
  | PostIdentityEmail "otpRequest option"
  | DeleteIdentity string

datatype user_call = GetOwnUser | PatchUser "updateUserRequest option" | PostEmailConfirm "string option"

datatype factor_call =
    GetFactors
  | PostFactors "enrollRequest option"
  | PostRecovery "(string \<times> string) option"
  | PostRecoveryCodes
  | PostChallenge string
  | PostFactorVerify string "verifyFactorRequest option"
  | DeleteFactorOf string

datatype key_call = PostAPIKeys "CreateAPIKeyRequest option" | GetAPIKeys | DeleteAPIKeys string

datatype admin_call =
    GetUsers string string
  | PutUserRole string "SetRoleRequest option"
  | GetUserDetail string
  | PatchUserDetail string "managedUserChange option"
  | DeleteUserDetail string
  | DeleteUserFactors string

datatype call =
    PublicCall public_call
  | IdentityCall identity_call
  | UserCall user_call
  | FactorCall factor_call
  | KeyCall key_call
  | AdminCall admin_call

datatype reply =
    Registered registered
  | Session AuthResponse
  | Validated validation
  | Done
  | EmailVerified bool
  | Sent string
  | Redirected target
  | Identities "identity_row list" bool
  | Ticket string
  | OwnUser account_profile
  | UserUpdated updateUserResponse
  | Factors FactorListing
  | Enrolled Factor string
  | Challenged string time
  | SteppedUp AuthResponse recoveryCodesOutcome
  | RecoveryCodes "string list"
  | KeyCreated CreateAPIKeyResponse
  | Keys "APIKeyListing list"
  | KeyRevoked bool
  | Users "ManagedUser list"
  | RoleSet ManagedUser
  | UserDetail ManagedUserDetail

text \<open>
  What comes from outside a call: the captcha service, the JSON library, the draws of a new key and the database's order of
  factor ids; the \<open>Authorization\<close> header; and the credentials the limits find in the body of a route that does not look for any.
\<close>

record surroundings =
  sr_captcha :: captcha_service
  sr_metadata :: metadata_lib
  sr_draws :: "nat option list"
  sr_uuid_rank :: "string \<Rightarrow> nat"
  sr_authorization :: string
  sr_credentials :: credentials

definition answering :: "('a \<Rightarrow> reply) \<Rightarrow> 'a action \<Rightarrow> reply action" where
  "answering f m s = (case m s of (Inl e, s1) \<Rightarrow> (Inl e, s1) | (Inr x, s1) \<Rightarrow> (Inr (f x), s1))"

text \<open>A redirect is no success to the middleware.\<close>

definition reply_status :: "reply answer \<Rightarrow> nat" where
  "reply_status x = (case x of Inr (Redirected _) \<Rightarrow> 302 | _ \<Rightarrow> status_of x)"

definition rateLimitToken :: "request \<Rightarrow> credentials \<Rightarrow> reply action \<Rightarrow> reply action" where
  "rateLimitToken r c = limitToken r reply_status (cr_GrantType c) (cr_Email c)"

definition bearer :: "AuthHandler \<Rightarrow> request \<Rightarrow> surroundings \<Rightarrow> request action" where
  "bearer h r w = attempt (RequireJWT h r (sr_authorization w))"

section \<open>The open routes\<close>

definition Refresh :: "AuthHandler \<Rightarrow> request \<Rightarrow> string json_body \<Rightarrow> reply action" where
  "Refresh h r body =
     rateLimitToken r (peekCredentials body) (answering Session (with_request body (\<lambda>refreshToken. on_db (exchangeRefreshToken h r refreshToken))))"

definition exchange :: "AuthHandler \<Rightarrow> request \<Rightarrow> TokenRequest \<Rightarrow> AuthResponse action" where
  "exchange h r req =
     (if tr_GrantType req = ''password'' then on_db (exchangePassword h r (tr_Email req) (tr_Password req))
      else if tr_GrantType req = ''api_key'' then on_db (exchangeAPIKey h r (tr_APIKey req))
      else if tr_GrantType req = ''refresh_token'' then on_db (exchangeRefreshToken h r (tr_RefreshToken req))
      else if tr_GrantType req = ''pkce'' then exchangePKCE h r (tr_AuthCode req) (tr_CodeVerifier req)
      else refuse (400, errUnsupportedGrant))"

definition Token :: "AuthHandler \<Rightarrow> request \<Rightarrow> TokenRequest json_body \<Rightarrow> reply action" where
  "Token h r body = rateLimitToken r (peekCredentials body) (answering Session (with_request body (exchange h r)))"

text \<open>The wider scopes of \<open>/logout\<close> need a bearer token, which the handler asks for itself.\<close>

definition logoutRoute :: "AuthHandler \<Rightarrow> request \<Rightarrow> surroundings \<Rightarrow> string \<Rightarrow> string option \<Rightarrow> unit action" where
  "logoutRoute h r w scope body =
     (case body of
        None \<Rightarrow> refuse (400, ''invalid request'')
      | Some refreshToken \<Rightarrow>
          if scope = ''others'' \<or> scope = ''global''
          then andThen (attempt (userAPISettings r)) (\<lambda>_. andThen (bearer h r w) (\<lambda>r1. on_db (Logout r1 scope refreshToken)))
          else on_db (Logout r scope refreshToken))"

definition publicRoutes :: "AuthHandler \<Rightarrow> request \<Rightarrow> surroundings \<Rightarrow> public_call \<Rightarrow> reply action" where
  "publicRoutes h r w call =
     (case call of
        PostRegister body \<Rightarrow> limitRegister r (answering Registered (Register h r body))
      | PostGuest body \<Rightarrow> limitGuest r (answering Session (SignInAsGuest h (sr_captcha w) r body))
      | PostLogin body \<Rightarrow> answering Session (Login h r body)
      | PostValidate body \<Rightarrow> (case body of None \<Rightarrow> refuse (400, ''invalid request'') | Some tok \<Rightarrow> pass (Validated (Validate h r tok)))
      | PostRefresh body \<Rightarrow> Refresh h r body
      | PostLogout scope body \<Rightarrow> answering (\<lambda>_. Done) (logoutRoute h r w scope body)
      | GetVerifyEmail query \<Rightarrow> answering EmailVerified (VerifyEmail h r query)
      | PostVerifyEmail query body \<Rightarrow> answering EmailVerified (VerifyEmail h r (if query = [] then body else query))
      | PostResendVerification body \<Rightarrow> answering Sent (ResendVerification h r body)
      | PostForgotPassword body \<Rightarrow> answering Sent (ForgotPassword h r body)
      | PostResetPassword body \<Rightarrow> answering Sent (on_db (ResetPassword r body))
      | PostToken body \<Rightarrow> Token h r body
      | GetAuthorize query \<Rightarrow> rateLimitToken r (sr_credentials w) (answering Redirected (Authorize h r query))
      | GetCallback query \<Rightarrow> rateLimitToken r (sr_credentials w) (answering Redirected (Callback h r query))
      | PostOTP body \<Rightarrow> limitOTP r (answering Sent (SendOTP h r body))
      | PostVerify body \<Rightarrow> rateLimitToken r (sr_credentials w) (answering Session (VerifyOTP h r body)))"

section \<open>The routes of a signed-in caller\<close>

text \<open>\<open>r\<close> carries the claims of the verified token.\<close>

definition IdentityRoutes :: "AuthHandler \<Rightarrow> request \<Rightarrow> surroundings \<Rightarrow> identity_call \<Rightarrow> reply action" where
  "IdentityRoutes h r w call =
     andThen (attempt (requireEndUser r)) (\<lambda>_.
       case call of
         GetIdentities \<Rightarrow> answering (\<lambda>(rows, password). Identities rows password) (ListIdentities r)
       | PostIdentityAuthorize body \<Rightarrow> rateLimitToken r (sr_credentials w) (answering Ticket (StartProviderLink h r body))
       | PostIdentityEmail body \<Rightarrow> limitOTP r (answering Sent (StartAddressLink h r body))
       | DeleteIdentity i \<Rightarrow> rateLimitToken r (sr_credentials w) (answering (\<lambda>_. Done) (unlinkIdentity r (ParseInt i))))"

definition ownUserRoutes :: "AuthHandler \<Rightarrow> request \<Rightarrow> surroundings \<Rightarrow> user_call \<Rightarrow> reply action" where
  "ownUserRoutes h r w call =
     andThen (attempt (requireEndUser r)) (\<lambda>_.
       case call of
         GetOwnUser \<Rightarrow> answering OwnUser (GetUser r)
       | PatchUser body \<Rightarrow> rateLimitToken r (sr_credentials w) (answering UserUpdated (UpdateUser h r (sr_metadata w) body))
       | PostEmailConfirm body \<Rightarrow> rateLimitToken r (sr_credentials w) (answering Sent (confirmEmailChange r body)))"

definition factorHolder :: "request \<Rightarrow> Claims action" where
  "factorHolder r =
     andThen (attempt (requireEndUser r)) (\<lambda>claims.
       case requireAccountHolder claims of Some f \<Rightarrow> refuse f | None \<Rightarrow> pass claims)"

definition FactorRoutes :: "AuthHandler \<Rightarrow> request \<Rightarrow> surroundings \<Rightarrow> factor_call \<Rightarrow> reply action" where
  "FactorRoutes h r w call =
     andThen (factorHolder r) (\<lambda>claims.
       case call of
         GetFactors \<Rightarrow> answering Factors (listFactors (sr_uuid_rank w) r claims)
       | PostFactors body \<Rightarrow> rateLimitToken r (sr_credentials w) (answering (\<lambda>(factor, secret). Enrolled factor secret) (on_db (EnrollFactor h r body claims)))
       | PostRecovery body \<Rightarrow> rateLimitToken r (sr_credentials w) (answering (\<lambda>(resp, codes). SteppedUp resp codes) (on_db (RecoverWithCode h r body claims)))
       | PostRecoveryCodes \<Rightarrow> rateLimitToken r (sr_credentials w) (answering RecoveryCodes (on_db (RegenerateRecoveryCodes r claims)))
       | PostChallenge i \<Rightarrow> rateLimitToken r (sr_credentials w) (answering (\<lambda>(c, expires). Challenged c expires) (on_db (ChallengeFactor r i claims)))
       | PostFactorVerify i body \<Rightarrow>
           rateLimitToken r (sr_credentials w) (answering (\<lambda>(resp, codes). SteppedUp resp codes) (on_db (verifyFactorCode h r i body claims)))
       | DeleteFactorOf i \<Rightarrow> rateLimitToken r (sr_credentials w) (answering (\<lambda>_. Done) (on_db (UnenrollFactor r i claims))))"

definition APIKeyRoutes :: "request \<Rightarrow> surroundings \<Rightarrow> key_call \<Rightarrow> reply action" where
  "APIKeyRoutes r w call =
     (case call of
        PostAPIKeys body \<Rightarrow> answering KeyCreated (createAPIKey r (sr_draws w) body)
      | GetAPIKeys \<Rightarrow> answering Keys (listAPIKeys r)
      | DeleteAPIKeys i \<Rightarrow> answering KeyRevoked (revokeAPIKey r i))"

definition UserRoutes :: "request \<Rightarrow> surroundings \<Rightarrow> admin_call \<Rightarrow> reply action" where
  "UserRoutes r w call =
     andThen (attempt (requireUserManager r)) (\<lambda>_.
       case call of
         GetUsers rawLimit rawOffset \<Rightarrow> answering Users (listUsers r rawLimit rawOffset)
       | PutUserRole i body \<Rightarrow> rateLimitToken r (sr_credentials w) (answering RoleSet (SetUserRole r i body))
       | GetUserDetail i \<Rightarrow> answering UserDetail (GetManagedUser r i)
       | PatchUserDetail i body \<Rightarrow> rateLimitToken r (sr_credentials w) (answering UserDetail (UpdateManagedUser r (sr_metadata w) i body))
       | DeleteUserDetail i \<Rightarrow> rateLimitToken r (sr_credentials w) (answering (\<lambda>_. Done) (DeleteManagedUser r i))
       | DeleteUserFactors i \<Rightarrow> rateLimitToken r (sr_credentials w) (answering (\<lambda>_. Done) (ResetUserMFA r i)))"

section \<open>The mounted service\<close>

definition Routes :: "AuthHandler \<Rightarrow> request \<Rightarrow> surroundings \<Rightarrow> call \<Rightarrow> reply action" where
  "Routes h r w call =
     (case call of
        PublicCall c \<Rightarrow> publicRoutes h r w c
      | IdentityCall c \<Rightarrow> andThen (bearer h r w) (\<lambda>r1. IdentityRoutes h r1 w c)
      | UserCall c \<Rightarrow> andThen (attempt (userAPISettings r)) (\<lambda>_. andThen (bearer h r w) (\<lambda>r1. ownUserRoutes h r1 w c))
      | FactorCall c \<Rightarrow> andThen (attempt (mfaSettings r)) (\<lambda>_. andThen (bearer h r w) (\<lambda>r1. FactorRoutes h r1 w c))
      | KeyCall c \<Rightarrow> andThen (bearer h r w) (\<lambda>r1. APIKeyRoutes r1 w c)
      | AdminCall c \<Rightarrow> andThen (bearer h r w) (\<lambda>r1. UserRoutes r1 w c))"

text \<open>The states of a project's service, from the freshly migrated database: calls, and rounds of the sweeper.\<close>

inductive reachable :: "service \<Rightarrow> bool" where
  started: "reachable \<lparr>sv_db = empty_db, sv_limits = limits, sv_resend = resend, sv_forgot = forgot, sv_mail = []\<rparr>"
| called: "reachable s \<Longrightarrow> Routes h r w call s = (answer, s') \<Longrightarrow> reachable s'"
| swept: "reachable s \<Longrightarrow> reachable (s\<lparr>sv_db := sweepProject h r (sv_db s)\<rparr>)"

section \<open>What the routes keep\<close>

lemma keeps_answering [keeping]: "keeps Q m \<Longrightarrow> keeps Q (answering f m)"
  by (auto simp: keeps_def answering_def split: prod.split sum.split)

lemma keeps_with_request [keeping]: "(\<And>req. keeps Q (f req)) \<Longrightarrow> keeps Q (with_request body f)"
  by (simp add: keeps_def with_request_def split: option.split)

lemma charge_db [simp]: "sv_db (charge r key status s) = sv_db s"
  by (simp add: charge_def split: option.split)

lemma keeps_identityGuard [keeping]: "keeps Q next \<Longrightarrow> keeps Q (identityGuard r sent identity next)"
  by (simp add: keeps_def identityGuard_def case_prod_beta Let_def split: option.split)

lemma keeps_limits [keeping]:
  assumes "keeps Q next"
  shows "keeps Q (limitRegister r next)" "keeps Q (limitGuest r next)" "keeps Q (limitOTP r next)" "keeps Q (limitLogin r email next)"
    "keeps Q (limitToken r sent grantType email next)"
  using assms keeps_identityGuard [OF assms]
  by (simp_all add: keeps_def limitRegister_def limitGuest_def limitOTP_def limitToken_def limitLogin_def case_prod_beta Let_def split: option.split)

lemma keeps_rateLimitToken [keeping]: "keeps Q next \<Longrightarrow> keeps Q (rateLimitToken r c next)"
  unfolding rateLimitToken_def by (rule keeps_limits)

context store_proof
begin

lemma keeps_on_db_leaves [keeping]: "(\<And>d. Q d \<Longrightarrow> leaves Q (f d)) \<Longrightarrow> keeps Q (on_db f)"
  by (rule keeps_on_db) (simp add: leaves_def)

lemma keeps_mail_routes [keeping]: "keeps Q (Register h r regBody)" "keeps Q (VerifyEmail h r plaintext)" "keeps Q (ResendVerification h r body)"
  "keeps Q (ForgotPassword h r body)"
  by (simp_all add: keeps_leaves leaving)

lemma keeps_bearer [keeping]: "keeps Q (bearer h r w)"
  unfolding bearer_def by (rule keeping)

lemma keeps_Login [keeping]: "keeps Q (Login h r body)"
  unfolding Login_def by (assumption | rule keeping leaving)+

lemma keeps_Refresh [keeping]: "keeps Q (Refresh h r body)"
  unfolding Refresh_def by (assumption | rule keeping leaving)+

lemma keeps_Token [keeping]: "keeps Q (Token h r body)"
  unfolding Token_def exchange_def by (assumption | rule keeping leaving)+

lemma keeps_logoutRoute [keeping]: "keeps Q (logoutRoute h r w scope body)"
  unfolding logoutRoute_def by (assumption | rule keeping leaving)+

lemma keeps_publicRoutes [keeping]: "keeps Q (publicRoutes h r w call)"
  by (cases call; simp only: publicRoutes_def public_call.case; (assumption | rule keeping leaving)+)

lemma keeps_IdentityRoutes [keeping]: "keeps Q (IdentityRoutes h r w call)"
  by (cases call; simp only: IdentityRoutes_def ListIdentities_def identity_call.case; (assumption | rule gates keeping)+)

lemma keeps_ownUserRoutes [keeping]: "keeps Q (ownUserRoutes h r w call)"
  by (cases call; simp only: ownUserRoutes_def GetUser_def user_call.case; (assumption | rule gates keeping)+)

lemma keeps_FactorRoutes [keeping]: "keeps Q (FactorRoutes h r w call)"
  by (cases call; simp only: FactorRoutes_def factorHolder_def listFactors_def factor_call.case; (assumption | rule keeping leaving)+)

lemma keeps_admin_routes [keeping]: "keeps Q (APIKeyRoutes r w keyCall)" "keeps Q (UserRoutes r w adminCall)"
  by (cases keyCall; simp only: APIKeyRoutes_def key_call.case; (assumption | rule keeping)+)
    (cases adminCall; simp only: UserRoutes_def admin_call.case; (assumption | rule keeping)+)

lemma keeps_Routes: "keeps Q (Routes h r w call)"
  by (cases call; simp only: Routes_def call.case; (assumption | rule keeping)+)

lemma kept_reachable: "reachable s \<Longrightarrow> Q empty_db \<Longrightarrow> Q (sv_db s)"
  by (induction rule: reachable.induct) (auto intro: keepsD [OF keeps_Routes] kept_sweepProject)

end

interpretation well_formed: store_proof wf_db
  by unfold_locales (rule wf_step)

interpretation trace: store_proof "db_step\<^sup>*\<^sup>* d0" for d0
  by unfold_locales (rule rtranclp.rtrancl_into_rtrancl)

section \<open>Who is let in\<close>

definition verified :: "AuthHandler \<Rightarrow> request \<Rightarrow> surroundings \<Rightarrow> Claims \<Rightarrow> bool" where
  "verified h r w claims \<longleftrightarrow>
     (\<exists>tok. sr_authorization w = ''Bearer '' @ tok \<and> Verify (rq_jwt r) (jwtService h) (rq_now r) tok = Some claims)"

text \<open>The caller a route is for, the switches of its method included.\<close>

definition let_in :: "AuthHandler \<Rightarrow> request \<Rightarrow> surroundings \<Rightarrow> call \<Rightarrow> bool" where
  "let_in h r w call \<longleftrightarrow>
     (case call of
        PublicCall _ \<Rightarrow> True
      | IdentityCall _ \<Rightarrow> (\<exists>claims. verified h r w claims \<and> own_end_user (r\<lparr>rq_claims := Some claims\<rparr>) claims)
      | UserCall _ \<Rightarrow> (\<exists>claims info. verified h r w claims \<and> own_end_user (r\<lparr>rq_claims := Some claims\<rparr>) claims \<and>
          rq_fresh r = Some info \<and> pi_UserAPIEnabled info)
      | FactorCall _ \<Rightarrow> (\<exists>claims info. verified h r w claims \<and> own_end_user (r\<lparr>rq_claims := Some claims\<rparr>) claims \<and>
          c_IsGuest claims \<noteq> Some True \<and> rq_fresh r = Some info \<and> pi_MFAEnabled info)
      | KeyCall _ \<Rightarrow> (\<exists>claims. verified h r w claims \<and> key_admin (r\<lparr>rq_claims := Some claims\<rparr>))
      | AdminCall _ \<Rightarrow> (\<exists>claims. verified h r w claims \<and> user_admin (r\<lparr>rq_claims := Some claims\<rparr>)))"

lemma RequireJWT_Inr:
  assumes "RequireJWT h r (sr_authorization w) = Inr r1"
  obtains claims where "verified h r w claims" "r1 = r\<lparr>rq_claims := Some claims\<rparr>"
proof -
  from assms obtain claims where v: "Verify (rq_jwt r) (jwtService h) (rq_now r) (TrimPrefix (sr_authorization w) ''Bearer '') = Some claims"
    and p: "HasPrefix (sr_authorization w) ''Bearer ''" and r1: "r1 = r\<lparr>rq_claims := Some claims\<rparr>"
    by (auto simp: RequireJWT_def split: if_splits option.splits)
  from p obtain tok where "sr_authorization w = ''Bearer '' @ tok" by (metis HasPrefix_def append_take_drop_id)
  with v have "verified h r w claims" by (auto simp: verified_def TrimPrefix_def HasPrefix_def)
  with r1 show thesis using that by blast
qed

lemma guarded_answering: "guarded P m s \<Longrightarrow> guarded P (answering f m) s"
  by (auto simp: guarded_def answering_def split: prod.splits sum.splits)

lemma guarded_bearer:
  assumes "\<And>claims. verified h r w claims \<Longrightarrow> guarded P (f (r\<lparr>rq_claims := Some claims\<rparr>)) s"
  shows "guarded P (andThen (bearer h r w) f) s"
  unfolding bearer_def
  by (rule guarded_andThen [OF still_steps(4)]) (auto simp: attempt_Inr elim!: RequireJWT_Inr intro: assms)

lemma guarded_given:
  assumes "\<And>y. x = Inr y \<Longrightarrow> guarded P (f y) s"
  shows "guarded P (andThen (attempt x) f) s"
  by (rule guarded_andThen [OF still_steps(4)]) (simp add: attempt_Inr assms)

lemma requireEndUser_Inr: "requireEndUser r = Inr claims \<Longrightarrow> own_end_user r claims"
  by (auto simp: requireEndUser_def own_end_user_def split: option.splits if_splits)

lemma own_end_user_self: "own_end_user (r\<lparr>rq_claims := Some c\<rparr>) claims \<Longrightarrow> claims = c"
  by (simp add: own_end_user_def)

lemma guarded_holder:
  assumes "\<And>claims. own_end_user r claims \<Longrightarrow> c_IsGuest claims \<noteq> Some True \<Longrightarrow> P"
  shows "guarded P (andThen (factorHolder r) f) s"
proof (rule guarded_andThen)
  show "still (factorHolder r)"
    unfolding factorHolder_def by (auto intro!: still_andThen still_steps split: option.split)
  show "guarded P (f y) s" if "factorHolder r s = (Inr y, s)" for y
    using that by (intro guarded_True) (auto simp: factorHolder_def granted requireAccountHolder_def split: if_splits dest!: requireEndUser_Inr intro: assms)
qed

text \<open>C15: Every route but the open ones refuses, and changes neither a table nor a limit, unless the caller is the one it is for: the
  bearer token verifies; for the identities, the account and the factors it is an access token of one of the project's own
  end users, with the method switched on and, for factors, no guest; for API keys and end users it is the project's
  administration.\<close>

theorem routes_admit_only: "guarded (let_in h r w call) (Routes h r w call) s"
proof (cases call)
  case (PublicCall c)
  then show ?thesis by (auto simp: let_in_def intro: guarded_True)
next
  case (IdentityCall c)
  then show ?thesis
    by (auto simp: Routes_def IdentityRoutes_def let_in_def intro!: guarded_bearer guarded_attempt dest: requireEndUser_Inr own_end_user_self)
next
  case (UserCall c)
  show ?thesis unfolding UserCall Routes_def call.case
    by (intro guarded_given guarded_bearer, unfold ownUserRoutes_def, intro guarded_attempt)
      (auto simp: let_in_def userAPISettings_def dest: requireEndUser_Inr own_end_user_self split: option.splits if_splits)
next
  case (FactorCall c)
  show ?thesis unfolding FactorCall Routes_def call.case
    by (intro guarded_given guarded_bearer, unfold FactorRoutes_def, intro guarded_holder)
      (auto simp: let_in_def mfaSettings_def dest: own_end_user_self split: option.splits if_splits)
next
  case (KeyCall c)
  then show ?thesis
    by (cases c) (auto simp: Routes_def APIKeyRoutes_def createAPIKey_def listAPIKeys_def revokeAPIKey_def let_in_def
        intro!: guarded_bearer guarded_answering guarded_attempt dest: keyManager_Inr)
next
  case (AdminCall c)
  then show ?thesis
    by (auto simp: Routes_def UserRoutes_def let_in_def intro!: guarded_bearer guarded_attempt dest: requireUserManager_Inr)
qed

section \<open>What calls leave behind\<close>



definition fresh_project :: service where
  "fresh_project = \<lparr>sv_db = empty_db, sv_limits = None, sv_resend = throttle_New 3 hour, sv_forgot = throttle_New 3 hour, sv_mail = []\<rparr>"

definition sample_surroundings :: surroundings where
  "sample_surroundings = \<lparr>sr_captcha = sample_captcha, sr_metadata = sample_metadata, sr_draws = [], sr_uuid_rank = length,
     sr_authorization = [], sr_credentials = \<lparr>cr_Email = [], cr_GrantType = []\<rparr>\<rparr>"

definition sign_up :: call where
  "sign_up = PublicCall (PostRegister (Some \<lparr>reg_Email = ''a@b.c'', reg_Password = ''correct horse'', reg_FullName = ''A''\<rparr>))"

lemma signed_up: "map u_email (users (sv_db (snd (Routes sample_handler sample_request sample_surroundings sign_up fresh_project)))) = [Some ''a@b.c'']"
  by code_simp


section \<open>A lock cleared by another's session\<close>

text \<open>
  \<open>/refresh\<close> is mounted behind the limit of \<open>/token\<close>, which takes the address to lock from the body while the handler looks at the
  refresh token alone. A body with a refresh token of the caller's own, the password grant's name and another's address is
  answered with a session, and clears the failed sign-ins counted against that address.
\<close>

theorem refresh_clears_other_lock:
  assumes "sv_limits s = Some rl" "\<not> Blocked (fst (Allow (rq_now r) (rq_ip r) (tokenIP rl)))"
    and "\<not> jb_trailing body" "jb_credentials body = \<lparr>cr_Email = victim, cr_GrantType = ''password''\<rparr>" "jb_request body = Some own"
    and "IdentityKey (rq_sha r) victim \<noteq> []" "\<not> Blocked (fst (Exhausted (rq_now r) (IdentityKey (rq_sha r) victim) (loginFailures rl)))"
    and "exchangeRefreshToken h r own (sv_db s) = (Inr resp, d')"
  shows "buckets (lock_of (snd (Refresh h r body s))) (IdentityKey (rq_sha r) victim) = None"
  using assms
  by (simp add: Refresh_def rateLimitToken_def limitToken_def identityGuard_def peekCredentials_def with_request_def answering_def on_db_def
      reply_status_def charge_def lock_of_def Reset_def case_prod_beta Let_def)

end
