(* ===== verification/PublicAddr.thy ===== *)
theory PublicAddr
  imports Prelude "HOL-Library.Word"
begin

text \<open>
  Which addresses the platform dials on a project's behalf (\<open>internal/publicaddr\<close>): the ranges it refuses, IPv4 carried inside
  IPv6 included, the names and literals it takes, and the dialer that checks what a name resolves to. An address is a
  word of 32 or 128 bits, the latter with its zone; the helpers of \<open>net/netip\<close> are those of the library.
\<close>

unbundle bit_operations_syntax

section \<open>Addresses\<close>

datatype Addr = V4 "32 word" | V6 "128 word" string

datatype publicaddr_error = ErrInternalAddress | ErrInvalidHost | errLookup | errDial

text \<open>\<open>Unmap\<close>: an IPv4-mapped address is its IPv4 address, and loses a zone.\<close>

fun Unmap :: "Addr \<Rightarrow> Addr" where
  "Unmap (V4 x) = V4 x"
| "Unmap (V6 x zone) = (if drop_bit 32 x = 0xffff then V4 (ucast x) else V6 x zone)"

definition v4 :: "32 word \<Rightarrow> nat \<Rightarrow> 8 word" where
  "v4 x i = ucast (drop_bit (8 * (3 - i)) x)"

definition v6u16 :: "128 word \<Rightarrow> 16 word" where
  "v6u16 x = ucast (drop_bit 112 x)"

definition IsLoopback :: "Addr \<Rightarrow> bool" where
  "IsLoopback a = (case Unmap a of V4 x \<Rightarrow> v4 x 0 = 127 | V6 x _ \<Rightarrow> x = 1)"

definition IsUnspecified :: "Addr \<Rightarrow> bool" where
  "IsUnspecified a = (a = V4 0 \<or> a = V6 0 [])"

definition IsPrivate :: "Addr \<Rightarrow> bool" where
  "IsPrivate a = (case Unmap a of
      V4 x \<Rightarrow> v4 x 0 = 10 \<or> v4 x 0 = 172 \<and> v4 x 1 AND 0xf0 = 16 \<or> v4 x 0 = 192 \<and> v4 x 1 = 168
    | V6 x _ \<Rightarrow> v6u16 x AND 0xfe00 = 0xfc00)"

definition IsMulticast :: "Addr \<Rightarrow> bool" where
  "IsMulticast a = (case Unmap a of V4 x \<Rightarrow> v4 x 0 AND 0xf0 = 0xe0 | V6 x _ \<Rightarrow> v6u16 x AND 0xff00 = 0xff00)"

definition IsLinkLocalUnicast :: "Addr \<Rightarrow> bool" where
  "IsLinkLocalUnicast a = (case Unmap a of V4 x \<Rightarrow> v4 x 0 = 169 \<and> v4 x 1 = 254 | V6 x _ \<Rightarrow> v6u16 x AND 0xffc0 = 0xfe80)"

definition IsLinkLocalMulticast :: "Addr \<Rightarrow> bool" where
  "IsLinkLocalMulticast a = (case Unmap a of V4 x \<Rightarrow> v4 x 0 = 224 \<and> v4 x 1 = 0 \<and> v4 x 2 = 0 | V6 x _ \<Rightarrow> v6u16 x AND 0xff0f = 0xff02)"

definition IsInterfaceLocalMulticast :: "Addr \<Rightarrow> bool" where
  "IsInterfaceLocalMulticast a = (case a of V4 _ \<Rightarrow> False | V6 x _ \<Rightarrow> v6u16 x AND 0xff0f = 0xff01)"

text \<open>A prefix holds no address of the other family and none with a zone.\<close>

datatype Prefix = Prefix4 "32 word" nat | Prefix6 "128 word" nat

fun Contains :: "Prefix \<Rightarrow> Addr \<Rightarrow> bool" where
  "Contains (Prefix4 network bits) (V4 x) = (drop_bit (32 - bits) (x XOR network) = 0)"
| "Contains (Prefix6 network bits) (V6 x zone) = (zone = [] \<and> drop_bit (128 - bits) (x XOR network) = 0)"
| "Contains _ _ = False"

section \<open>Classification\<close>

definition ip4 :: "nat \<Rightarrow> nat \<Rightarrow> nat \<Rightarrow> nat \<Rightarrow> 32 word" where
  "ip4 a b c d = word_of_nat (((a * 256 + b) * 256 + c) * 256 + d)"

definition blockedPrefixes :: "Prefix list" where
  "blockedPrefixes =
     [Prefix4 (ip4 0 0 0 0) 8, Prefix4 (ip4 100 64 0 0) 10, Prefix4 (ip4 192 0 0 0) 24, Prefix4 (ip4 198 18 0 0) 15, Prefix4 (ip4 240 0 0 0) 4,
      Prefix6 (push_bit 112 0xfec0) 10, Prefix6 (push_bit 112 0x2001) 32, Prefix6 (push_bit 112 0x100) 64,
      Prefix6 (push_bit 80 0x64ff9b0001) 48]"

definition prefixNAT64 :: Prefix where "prefixNAT64 = Prefix6 (push_bit 96 0x64ff9b) 96"
definition prefix6to4 :: Prefix where "prefix6to4 = Prefix6 (push_bit 112 0x2002) 16"
definition prefixV4Cmp :: Prefix where "prefixV4Cmp = Prefix6 0 96"

fun embeddedIPv4 :: "Addr \<Rightarrow> Addr option" where
  "embeddedIPv4 (V4 _) = None"
| "embeddedIPv4 (V6 x zone) =
     (if Contains prefixNAT64 (V6 x zone) \<or> Contains prefixV4Cmp (V6 x zone) then Some (V4 (ucast x))
      else if Contains prefix6to4 (V6 x zone) then Some (V4 (ucast (drop_bit 80 x)))
      else None)"

lemma embeddedIPv4_size: "embeddedIPv4 (Unmap a) = Some e \<Longrightarrow> \<exists>x zone y. a = V6 x zone \<and> e = V4 y"
  by (cases a) (auto split: if_splits)

function ClassifyAddr :: "Addr \<Rightarrow> publicaddr_error option" where
  "ClassifyAddr a =
     (let addr = Unmap a in
      if IsLoopback addr \<or> IsUnspecified addr \<or> IsPrivate addr \<or> IsMulticast addr \<or> IsLinkLocalUnicast addr \<or>
         IsLinkLocalMulticast addr \<or> IsInterfaceLocalMulticast addr
      then Some ErrInternalAddress
      else case embeddedIPv4 addr of
          Some embedded \<Rightarrow> ClassifyAddr embedded
        | None \<Rightarrow> if list_ex (\<lambda>prefix. Contains prefix addr) blockedPrefixes then Some ErrInternalAddress else None)"
  by pat_completeness auto
termination
  by (relation "measure (\<lambda>a. case a of V4 _ \<Rightarrow> 0 | V6 _ _ \<Rightarrow> 1)") (auto dest!: embeddedIPv4_size [OF sym] embeddedIPv4_size)

declare ClassifyAddr.simps [simp del]

section \<open>Names and literals\<close>

definition maxHostnameLen :: nat where "maxHostnameLen = 253"
definition maxLabelLen :: nat where "maxLabelLen = 63"

definition internalSuffixes :: "string list" where
  "internalSuffixes = [''.localhost'', ''.internal'', ''.local'', ''.localdomain'', ''.home.arpa'']"

definition looksLikeAddress :: "string \<Rightarrow> bool" where
  "looksLikeAddress host = list_ex (\<lambda>c. c = CHR '':'' \<or> c = CHR 0x25) host"

definition validLabel :: "string \<Rightarrow> bool" where
  "validLabel label =
     (label \<noteq> [] \<and> length label \<le> maxLabelLen \<and> hd label \<noteq> CHR ''-'' \<and> last label \<noteq> CHR ''-'' \<and>
      list_all (\<lambda>r. is_lower r \<or> is_digit r \<or> r = CHR ''-'') label)"

fun zoned :: "Addr \<Rightarrow> bool" where
  "zoned (V4 _) = False"
| "zoned (V6 _ zone) = (zone \<noteq> [])"

text \<open>\<open>parse\<close> is \<open>netip.ParseAddr\<close>.\<close>

definition parseLiteral :: "(string \<Rightarrow> Addr option) \<Rightarrow> string \<Rightarrow> Addr option" where
  "parseLiteral parse host =
     (let trimmed = TrimSuffix (TrimPrefix host ''['') '']'' in
      if HasPrefix host ''['' \<noteq> HasSuffix host '']'' then None
      else case parse trimmed of None \<Rightarrow> None | Some addr \<Rightarrow> if zoned addr then None else Some addr)"

definition canonicalName :: "string \<Rightarrow> string" where
  "canonicalName host = TrimSuffix (ToLower host) ''.''"

definition ValidateHostSyntax :: "(string \<Rightarrow> Addr option) \<Rightarrow> string \<Rightarrow> publicaddr_error option" where
  "ValidateHostSyntax parse host =
     (if parseLiteral parse host \<noteq> None then None
      else if HasPrefix host ''['' \<or> looksLikeAddress host then Some ErrInvalidHost
      else
        let name = canonicalName host in
        if name = [] \<or> length name > maxHostnameLen \<or> CHR ''.'' \<notin> set name then Some ErrInvalidHost
        else if list_ex (HasSuffix name) internalSuffixes then Some ErrInvalidHost
        else if \<not> list_all validLabel (split_on (CHR ''.'') name) then Some ErrInvalidHost
        else None)"

section \<open>The dialer\<close>

text \<open>The network: splitting host and port, parsing a literal, the resolver's answers, and whether a connect succeeds.\<close>

record network =
  nw_split :: "string \<Rightarrow> (string \<times> string) option"
  nw_parse :: "string \<Rightarrow> Addr option"
  nw_lookup :: "string \<Rightarrow> Addr list option"
  nw_connect :: "Addr \<Rightarrow> string \<Rightarrow> bool"

definition Check :: "Prefix list \<Rightarrow> Addr \<Rightarrow> publicaddr_error option" where
  "Check deny addr =
     (case ClassifyAddr addr of
        Some e \<Rightarrow> Some e
      | None \<Rightarrow>
          let candidates = Unmap addr # (case embeddedIPv4 (Unmap addr) of None \<Rightarrow> [] | Some embedded \<Rightarrow> [embedded]) in
          if list_ex (\<lambda>prefix. list_ex (Contains prefix) candidates) deny then Some ErrInternalAddress else None)"

definition resolve :: "Prefix list \<Rightarrow> network \<Rightarrow> string \<Rightarrow> publicaddr_error + Addr list" where
  "resolve deny nw host =
     (case nw_parse nw host of
        Some literal \<Rightarrow> (case Check deny literal of Some e \<Rightarrow> Inl e | None \<Rightarrow> Inr [literal])
      | None \<Rightarrow>
          (case nw_lookup nw host of
             None \<Rightarrow> Inl errLookup
           | Some found \<Rightarrow>
               if found = [] then Inl errLookup
               else (case List.find (\<lambda>addr. Check deny addr \<noteq> None) found of
                   Some addr \<Rightarrow> Inl (the (Check deny addr))
                 | None \<Rightarrow> Inr found)))"

text \<open>A connect to a checked address; the socket checks its peer once more (\<open>control\<close>).\<close>

definition dialAddress :: "Prefix list \<Rightarrow> network \<Rightarrow> Addr \<Rightarrow> string \<Rightarrow> bool" where
  "dialAddress deny nw target port = (Check deny target = None \<and> nw_connect nw target port)"

text \<open>The addresses dialled, in order, and the one connected to.\<close>

fun dial_each :: "Prefix list \<Rightarrow> network \<Rightarrow> string \<Rightarrow> Addr list \<Rightarrow> Addr list \<times> (publicaddr_error + Addr)" where
  "dial_each deny nw port [] = ([], Inl errDial)"
| "dial_each deny nw port (target # targets) =
     (if dialAddress deny nw target port then ([target], Inr target)
      else case dial_each deny nw port targets of (tried, x) \<Rightarrow> (target # tried, x))"

definition DialContext :: "Prefix list \<Rightarrow> network \<Rightarrow> string \<Rightarrow> Addr list \<times> (publicaddr_error + Addr)" where
  "DialContext deny nw address =
     (case nw_split nw address of
        None \<Rightarrow> ([], Inl ErrInvalidHost)
      | Some (host, port) \<Rightarrow> (case resolve deny nw host of Inl e \<Rightarrow> ([], Inl e) | Inr targets \<Rightarrow> dial_each deny nw port targets))"

section \<open>The ranges as intervals\<close>

text \<open>
  What must not be dialled, read off addresses as numbers: the ranges of IPv4 by their first and last address, those of IPv6
  by their leading groups, and the IPv4 address an IPv6 address carries (mapped, compatible, NAT64, 6to4).
\<close>

definition dotted :: "nat \<Rightarrow> nat \<Rightarrow> nat \<Rightarrow> nat \<Rightarrow> nat" where
  "dotted a b c d = ((a * 256 + b) * 256 + c) * 256 + d"

definition within :: "nat \<Rightarrow> nat \<times> nat \<Rightarrow> bool" where
  "within n r \<longleftrightarrow> fst r \<le> n \<and> n \<le> snd r"

definition internal4 :: "nat \<Rightarrow> bool" where
  "internal4 n \<longleftrightarrow> list_ex (within n)
     [(dotted 0 0 0 0, dotted 0 255 255 255), (dotted 10 0 0 0, dotted 10 255 255 255), (dotted 100 64 0 0, dotted 100 127 255 255),
      (dotted 127 0 0 0, dotted 127 255 255 255), (dotted 169 254 0 0, dotted 169 254 255 255), (dotted 172 16 0 0, dotted 172 31 255 255),
      (dotted 192 0 0 0, dotted 192 0 0 255), (dotted 192 168 0 0, dotted 192 168 255 255), (dotted 198 18 0 0, dotted 198 19 255 255),
      (dotted 224 0 0 0, dotted 255 255 255 255)]"

definition carried :: "nat \<Rightarrow> nat option" where
  "carried n =
     (if n div 2 ^ 32 \<in> {0xffff, 0, 0x64ff9b * 2 ^ 64} then Some (n mod 2 ^ 32)
      else if n div 2 ^ 112 = 0x2002 then Some (n div 2 ^ 80 mod 2 ^ 32)
      else None)"

definition internal6 :: "nat \<Rightarrow> bool" where
  "internal6 n \<longleftrightarrow>
     0xfc00 \<le> n div 2 ^ 112 \<and> n div 2 ^ 112 \<le> 0xfdff \<or> 0xfe80 \<le> n div 2 ^ 112 \<or>
     n div 2 ^ 96 = 0x20010000 \<or> n div 2 ^ 64 = 0x100 * 2 ^ 48 \<or> n div 2 ^ 80 = 0x64ff9b0001"

fun public_addr :: "Addr \<Rightarrow> bool" where
  "public_addr (V4 x) \<longleftrightarrow> \<not> internal4 (unat x)"
| "public_addr (V6 x _) \<longleftrightarrow> (case carried (unat x) of Some y \<Rightarrow> \<not> internal4 y | None \<Rightarrow> \<not> internal6 (unat x))"

section \<open>Words and numbers\<close>

definition flagged :: "Addr \<Rightarrow> bool" where
  "flagged addr \<longleftrightarrow> IsLoopback addr \<or> IsUnspecified addr \<or> IsPrivate addr \<or> IsMulticast addr \<or> IsLinkLocalUnicast addr \<or>
     IsLinkLocalMulticast addr \<or> IsInterfaceLocalMulticast addr"

lemma unat_drop: "unat (drop_bit n x) = unat x div 2 ^ n" for x :: "'a::len word"
proof -
  have "unat (drop_bit n x) = drop_bit n (take_bit LENGTH('a) (unat x))"
    by (rule unsigned_drop_bit_eq)
  then show ?thesis by (simp add: drop_bit_eq_div unsigned_take_bit_eq take_bit_nat_eq_self)
qed

lemma drop_eq: "drop_bit n x = drop_bit n y \<longleftrightarrow> unat x div 2 ^ n = unat y div 2 ^ n" for x :: "'a::len word"
  by (simp only: word_unat_eq_iff unat_drop)

lemma drop_xor: "drop_bit n (x XOR y) = 0 \<longleftrightarrow> unat x div 2 ^ n = unat y div 2 ^ n" for x :: "'a::len word"
proof -
  have "drop_bit n (x XOR y) = 0 \<longleftrightarrow> drop_bit n x = drop_bit n y"
    by (auto simp: bit_eq_iff bit_simps)
  then show ?thesis by (simp only: drop_eq)
qed

lemma unat_v4: "unat (v4 x i) = unat x div 2 ^ (8 * (3 - i)) mod 256"
  by (simp only: v4_def unsigned_ucast_eq unat_drop take_bit_eq_mod) simp

lemma unat_v6u16: "unat (v6u16 x) = unat x div 2 ^ 112"
proof -
  have "unat x < 2 ^ 128" using unsigned_less [of x, where 'a = nat] by simp
  then have "unat x div 2 ^ 112 < 2 ^ 16" by (simp add: less_mult_imp_div_less)
  then show ?thesis by (simp only: v6u16_def unsigned_ucast_eq unat_drop) (simp add: take_bit_nat_eq_self)
qed

lemma high_bits: "w AND NOT (mask k) = push_bit k v \<longleftrightarrow> drop_bit k w = drop_bit k (push_bit k v)" for w :: "'a::len word"
proof
  assume "w AND NOT (mask k) = push_bit k v"
  then have "drop_bit k (w AND NOT (mask k)) = drop_bit k (push_bit k v)" by simp
  moreover have "drop_bit k (w AND NOT (mask k)) = drop_bit k w"
    by (auto intro!: bit_word_eqI simp: bit_simps dest: bit_imp_le_length)
  ultimately show "drop_bit k w = drop_bit k (push_bit k v)" by simp
next
  assume a: "drop_bit k w = drop_bit k (push_bit k v)"
  show "w AND NOT (mask k) = push_bit k v"
  proof (rule bit_word_eqI)
    fix n assume n: "n < LENGTH('a)"
    show "bit (w AND NOT (mask k)) n = bit (push_bit k v) n"
      using arg_cong [OF a, of "\<lambda>u. bit u (n - k)"] n by (auto simp: bit_simps)
  qed
qed

lemma masks8: "(0xf0 :: 8 word) = NOT (mask 4)" "(0xfe00 :: 16 word) = NOT (mask 9)" "(0xff00 :: 16 word) = NOT (mask 8)" "(0xffc0 :: 16 word) = NOT (mask 6)"
  by (simp_all add: mask_numeral)

lemma bits8: "(w :: 8 word) AND 0xf0 = 16 \<longleftrightarrow> unat w div 16 = 1" "(w :: 8 word) AND 0xf0 = 0xe0 \<longleftrightarrow> unat w div 16 = 14"
  using high_bits [where w = w and k = 4 and v = 1] high_bits [where w = w and k = 4 and v = 14] by (simp_all add: word_unat_eq_iff unat_drop masks8)

lemma bits16:
  "(w :: 16 word) AND 0xfe00 = 0xfc00 \<longleftrightarrow> unat w div 512 = 0x7e" "w AND 0xff00 = 0xff00 \<longleftrightarrow> unat w div 256 = 0xff"
  "w AND 0xffc0 = 0xfe80 \<longleftrightarrow> unat w div 64 = 0x3fa"
proof -
  have u: "unat (NOT (mask 8) :: 16 word) = 65280" by (simp flip: masks8(3))
  show "w AND 0xfe00 = 0xfc00 \<longleftrightarrow> unat w div 512 = 0x7e" "w AND 0xff00 = 0xff00 \<longleftrightarrow> unat w div 256 = 0xff"
    "w AND 0xffc0 = 0xfe80 \<longleftrightarrow> unat w div 64 = 0x3fa"
  using high_bits [where w = w and k = 9 and v = 126] high_bits [where w = w and k = 8 and v = 255] high_bits [where w = w and k = 6 and v = 1018] u by (simp_all add: word_unat_eq_iff unat_drop masks8)
qed

lemma octets:
  fixes x :: "32 word"
  obtains a b c d where "unat x = dotted a b c d" "a < 256" "b < 256" "c < 256" "d < 256"
proof -
  let ?n = "unat x"
  have n: "?n < 2 ^ 32" using unsigned_less [of x, where 'a = nat] by simp
  let ?a = "?n div 16777216" and ?b = "?n div 65536 mod 256" and ?c = "?n div 256 mod 256" and ?d = "?n mod 256"
  have "?n = dotted ?a ?b ?c ?d" unfolding dotted_def
    using div_mult_mod_eq [of ?n 256] div_mult_mod_eq [of "?n div 256" 256] div_mult_mod_eq [of "?n div 65536" 256]
    by (simp add: div_mult2_eq [symmetric])
  moreover have "?a < 256" using n by (simp add: less_mult_imp_div_less)
  ultimately show thesis using that by simp
qed

text \<open>Digits in a base determine the number, and the number its digits.\<close>

lemma digits_eq:
  assumes "y < m" "y' < (m :: nat)"
  shows "x * m + y = x' * m + y' \<longleftrightarrow> x = x' \<and> y = y'"
proof
  assume e: "x * m + y = x' * m + y'"
  have "(x * m + y) div m = x" "(x * m + y) mod m = y" "(x' * m + y') div m = x'" "(x' * m + y') mod m = y'"
    using assms by (simp_all add: div_mult_self3)
  with e show "x = x' \<and> y = y'" by metis
qed simp

lemma digits_le:
  assumes "y < m" "z < (m :: nat)"
  shows "p * m + q \<le> a * m + y \<and> a * m + y \<le> p * m + z \<longleftrightarrow> a = p \<and> q \<le> y \<and> y \<le> z"
proof
  assume *: "p * m + q \<le> a * m + y \<and> a * m + y \<le> p * m + z"
  have "\<not> a < p"
  proof
    assume "a < p"
    then have "Suc a * m \<le> p * m" by (intro mult_le_mono1) simp
    with * assms(1) show False by simp
  qed
  moreover have "\<not> p < a"
  proof
    assume "p < a"
    then have "Suc p * m \<le> a * m" by (intro mult_le_mono1) simp
    with * assms(2) show False by simp
  qed
  ultimately show "a = p \<and> q \<le> y \<and> y \<le> z" using * by simp
qed simp

lemma div_div: "n div (m * k) = n div m div (k :: nat)"
  by (rule div_mult2_eq)

lemma dotted_div:
  assumes "b < 256" "c < 256" "d < 256"
  shows "dotted a b c d div 16777216 = a" "dotted a b c d div 65536 = a * 256 + b" "dotted a b c d div 256 = (a * 256 + b) * 256 + c"
    "dotted a b c d div 1048576 = a * 16 + b div 16" "dotted a b c d div 4194304 = a * 4 + b div 64" "dotted a b c d div 131072 = a * 128 + b div 2"
    "dotted a b c d div 268435456 = a div 16"
proof -
  let ?n = "dotted a b c d"
  show 1: "?n div 16777216 = a" and 2: "?n div 65536 = a * 256 + b" and "?n div 256 = (a * 256 + b) * 256 + c"
    using assms by (simp_all add: dotted_def)
  show "?n div 268435456 = a div 16" using div_div [of ?n 16777216 16] 1 by simp
  show "?n div 1048576 = a * 16 + b div 16" using div_div [of ?n 65536 16] 2 div_mult_self3 [of 16 "a * 16" b] by simp
  show "?n div 4194304 = a * 4 + b div 64" using div_div [of ?n 65536 64] 2 div_mult_self3 [of 64 "a * 4" b] by simp
  show "?n div 131072 = a * 128 + b div 2" using div_div [of ?n 65536 2] 2 div_mult_self3 [of 2 "a * 128" b] by simp
qed

lemma between_multiples:
  assumes "0 < m"
  shows "P * m \<le> n \<and> n \<le> P' * m + (m - 1) \<longleftrightarrow> P \<le> n div m \<and> n div m \<le> (P' :: nat)"
proof -
  have "n \<le> P' * m + (m - 1) \<longleftrightarrow> n < Suc P' * m" using assms by auto
  also have "\<dots> \<longleftrightarrow> n div m < Suc P'" using assms by (simp only: less_mult_imp_div_less div_less_iff_less_mult)
  finally show ?thesis using assms by (simp add: less_eq_div_iff_mult_less_eq less_Suc_eq_le)
qed

lemma div_is: "0 < m \<Longrightarrow> n div m = c \<longleftrightarrow> c * m \<le> n \<and> n \<le> c * m + (m - 1)" for n :: nat
  by (simp only: between_multiples) auto

lemma within_dotted:
  assumes "b < 256" "c < 256" "d < 256"
  shows "within (dotted a b c d) (dotted p 0 0 0, dotted p' 255 255 255) \<longleftrightarrow> p \<le> a \<and> a \<le> p'"
    and "q' < 256 \<Longrightarrow> within (dotted a b c d) (dotted p q 0 0, dotted p q' 255 255) \<longleftrightarrow> a = p \<and> q \<le> b \<and> b \<le> q'"
    and "q < 256 \<Longrightarrow> r < 256 \<Longrightarrow> within (dotted a b c d) (dotted p q r 0, dotted p q r 255) \<longleftrightarrow> a = p \<and> b = q \<and> c = r"
proof -
  have lo: "dotted p 0 0 0 = p * 16777216" "dotted p' 255 255 255 = p' * 16777216 + (16777216 - 1)"
    "dotted p q 0 0 = (p * 256 + q) * 65536" "dotted p q' 255 255 = (p * 256 + q') * 65536 + (65536 - 1)"
    "dotted p q r 0 = ((p * 256 + q) * 256 + r) * 256" "dotted p q r 255 = ((p * 256 + q) * 256 + r) * 256 + (256 - 1)"
    by (simp_all add: dotted_def)
  show "within (dotted a b c d) (dotted p 0 0 0, dotted p' 255 255 255) \<longleftrightarrow> p \<le> a \<and> a \<le> p'"
    unfolding within_def fst_conv snd_conv lo by (simp only: between_multiples zero_less_numeral dotted_div(1) [OF assms])
  show "within (dotted a b c d) (dotted p q 0 0, dotted p q' 255 255) \<longleftrightarrow> a = p \<and> q \<le> b \<and> b \<le> q'" if "q' < 256"
    unfolding within_def fst_conv snd_conv lo by (simp only: between_multiples zero_less_numeral dotted_div(2) [OF assms] digits_le [OF assms(1) that])
  show "within (dotted a b c d) (dotted p q r 0, dotted p q r 255) \<longleftrightarrow> a = p \<and> b = q \<and> c = r" if "q < 256" "r < 256"
  proof -
    have "(a * 256 + b) * 256 + c = (p * 256 + q) * 256 + r \<longleftrightarrow> a * 256 + b = p * 256 + q \<and> c = r" by (rule digits_eq [OF assms(2) that(2)])
    moreover have "a * 256 + b = p * 256 + q \<longleftrightarrow> a = p \<and> b = q" by (rule digits_eq [OF assms(1) that(1)])
    ultimately have "(p * 256 + q) * 256 + r = (a * 256 + b) * 256 + c \<longleftrightarrow> a = p \<and> b = q \<and> c = r" by metis
    then show ?thesis
      unfolding within_def fst_conv snd_conv lo by (simp only: between_multiples zero_less_numeral dotted_div(3) [OF assms] order_eq_iff [symmetric])
  qed
qed

lemma internal4_octets:
  assumes "a < 256" "b < 256" "c < 256" "d < 256"
  shows "internal4 (dotted a b c d) \<longleftrightarrow> a = 0 \<or> a = 10 \<or> a = 100 \<and> 64 \<le> b \<and> b \<le> 127 \<or> a = 127 \<or> a = 169 \<and> b = 254 \<or>
    a = 172 \<and> 16 \<le> b \<and> b \<le> 31 \<or> a = 192 \<and> b = 0 \<and> c = 0 \<or> a = 192 \<and> b = 168 \<or> a = 198 \<and> 18 \<le> b \<and> b \<le> 19 \<or> 224 \<le> a"
  using assms by (auto simp: internal4_def within_dotted)

lemma classify_unfold:
  "ClassifyAddr a =
     (if flagged (Unmap a) then Some ErrInternalAddress
      else case embeddedIPv4 (Unmap a) of
          Some embedded \<Rightarrow> ClassifyAddr embedded
        | None \<Rightarrow> if list_ex (\<lambda>prefix. Contains prefix (Unmap a)) blockedPrefixes then Some ErrInternalAddress else None)"
  by (subst ClassifyAddr.simps) (simp only: flagged_def Let_def)

lemma flagged4:
  assumes "unat x = dotted a b c d" "a < 256" "b < 256" "c < 256" "d < 256"
  shows "flagged (V4 x) \<longleftrightarrow> a = 127 \<or> dotted a b c d = 0 \<or> a = 10 \<or> a = 172 \<and> b div 16 = 1 \<or> a = 192 \<and> b = 168 \<or> a div 16 = 14 \<or>
     a = 169 \<and> b = 254 \<or> a = 224 \<and> b = 0 \<and> c = 0"
proof -
  have "((a * 256 + b) * 256 + c) mod 256 = c" using assms(4) by (simp only: mod_mult_self3 mod_less)
  then have "unat (v4 x 2) = c" using assms(2-) by (simp add: unat_v4 assms(1) dotted_div(3) del: mult_numeral_left)
  moreover have "unat (v4 x 0) = a" "unat (v4 x 1) = b"
    using assms(2-) by (simp_all add: unat_v4 assms(1) dotted_div)
  ultimately  show ?thesis
    by (simp only: flagged_def IsLoopback_def IsUnspecified_def IsPrivate_def IsMulticast_def IsLinkLocalUnicast_def IsLinkLocalMulticast_def
        IsInterfaceLocalMulticast_def Unmap.simps Addr.case Addr.inject Addr.distinct simp_thms bits8) (simp add: word_unat_eq_iff assms(1) disj_assoc)
qed

lemma Contains_unat:
  "Contains (Prefix4 network bits) (V4 x) \<longleftrightarrow> unat x div 2 ^ (32 - bits) = unat network div 2 ^ (32 - bits)"
  "Contains (Prefix6 network6 bits) (V6 y zone) \<longleftrightarrow> zone = [] \<and> unat y div 2 ^ (128 - bits) = unat network6 div 2 ^ (128 - bits)"
  "\<not> Contains (Prefix4 network bits) (V6 y zone)" "\<not> Contains (Prefix6 network6 bits) (V4 x)"
  by (simp_all only: Contains.simps drop_xor simp_thms)

lemma blocked4:
  assumes "unat x = dotted a b c d" "a < 256" "b < 256" "c < 256" "d < 256"
  shows "list_ex (\<lambda>prefix. Contains prefix (V4 x)) blockedPrefixes \<longleftrightarrow>
    a = 0 \<or> a * 4 + b div 64 = 401 \<or> (a * 256 + b) * 256 + c = 12582912 \<or> a * 128 + b div 2 = 25353 \<or> a div 16 = 15"
  using assms by (simp add: blockedPrefixes_def Contains_unat ip4_def dotted_div del: Contains.simps)

lemma octet_tests:
  assumes "a < (256 :: nat)" "b < 256" "c < 256"
  shows "a * 4 + b div 64 = 401 \<longleftrightarrow> a = 100 \<and> 64 \<le> b \<and> b \<le> 127" "a * 128 + b div 2 = 25353 \<longleftrightarrow> a = 198 \<and> 18 \<le> b \<and> b \<le> 19"
    "(a * 256 + b) * 256 + c = 12582912 \<longleftrightarrow> a = 192 \<and> b = 0 \<and> c = 0" "b div 16 = 1 \<longleftrightarrow> 16 \<le> b \<and> b \<le> 31"
    "a div 16 = 14 \<longleftrightarrow> 224 \<le> a \<and> a \<le> 239" "a div 16 = 15 \<longleftrightarrow> 240 \<le> a"
proof -
  have b: "b div 64 < 4" "b div 2 < 128" and s: "1 < (4 :: nat)" "9 < (128 :: nat)" "0 < (256 :: nat)" using assms(2) by (simp_all add: less_mult_imp_div_less)
  have n: "100 * 4 + 1 = (401 :: nat)" "198 * 128 + 9 = (25353 :: nat)" "49152 * 256 + 0 = (12582912 :: nat)" "192 * 256 + 0 = (49152 :: nat)" by simp_all
  have v: "b div 64 = 1 \<longleftrightarrow> 64 \<le> b \<and> b \<le> 127" "b div 2 = 9 \<longleftrightarrow> 18 \<le> b \<and> b \<le> 19" by (simp_all add: div_is)
  show "a * 4 + b div 64 = 401 \<longleftrightarrow> a = 100 \<and> 64 \<le> b \<and> b \<le> 127" "a * 128 + b div 2 = 25353 \<longleftrightarrow> a = 198 \<and> 18 \<le> b \<and> b \<le> 19"
    using digits_eq [OF b(1) s(1), of a 100] digits_eq [OF b(2) s(2), of a 198] by (simp_all only: n v)
  show "(a * 256 + b) * 256 + c = 12582912 \<longleftrightarrow> a = 192 \<and> b = 0 \<and> c = 0"
    using digits_eq [OF assms(3) s(3), of "a * 256 + b" 49152] digits_eq [OF assms(2) s(3), of a 192] by (simp only: n conj_assoc)
  show "b div 16 = 1 \<longleftrightarrow> 16 \<le> b \<and> b \<le> 31" by (simp add: div_is)
  show "a div 16 = 14 \<longleftrightarrow> 224 \<le> a \<and> a \<le> 239" by (simp add: div_is)
  show "a div 16 = 15 \<longleftrightarrow> 240 \<le> a" using assms(1) by (auto simp: div_is)
qed

lemma classify4: "ClassifyAddr (V4 x) = (if internal4 (unat x) then Some ErrInternalAddress else None)"
proof -
  obtain a b c d where o: "unat x = dotted a b c d" "a < 256" "b < 256" "c < 256" "d < 256" by (rule octets)
  have z: "dotted a b c d = 0 \<longleftrightarrow> a = 0 \<and> b = 0 \<and> c = 0 \<and> d = 0" by (auto simp: dotted_def)
  have hi: "224 \<le> a \<longrightarrow> a \<le> 239 \<or> 240 \<le> a" "240 \<le> a \<longrightarrow> 224 \<le> a" "a = 224 \<longrightarrow> 224 \<le> a \<and> a \<le> 239" by linarith+
  have "flagged (V4 x) \<or> list_ex (\<lambda>prefix. Contains prefix (V4 x)) blockedPrefixes \<longleftrightarrow> internal4 (unat x)"
    unfolding flagged4 [OF o] blocked4 [OF o] o(1) internal4_octets [OF o(2-)] octet_tests [OF o(2-4)] z using hi by satx
  then show ?thesis by (subst classify_unfold) auto
qed

lemma mask_ff0f: "w AND 0xff0f = 0xff02 \<or> w AND 0xff0f = 0xff01 \<Longrightarrow> w AND 0xff00 = 0xff00" for w :: "16 word"
proof -
  assume "w AND 0xff0f = 0xff02 \<or> w AND 0xff0f = 0xff01"
  then have "(w AND 0xff0f) AND 0xff00 = 0xff00" by auto
  then show ?thesis by (simp add: and.assoc)
qed

lemma unat_ucast_low: "unat (ucast x :: 32 word) = unat x mod 2 ^ 32" for x :: "128 word"
  by (simp only: unsigned_ucast_eq take_bit_eq_mod) simp

lemma flagged6:
  assumes "drop_bit 32 x \<noteq> 0xffff"
  shows "flagged (V6 x zone) \<longleftrightarrow> unat x = 1 \<or> unat x = 0 \<and> zone = [] \<or>
    unat x div 2 ^ 112 div 512 = 0x7e \<or> unat x div 2 ^ 112 div 256 = 0xff \<or> unat x div 2 ^ 112 div 64 = 0x3fa"
proof -
  have "flagged (V6 x zone) \<longleftrightarrow> x = 1 \<or> x = 0 \<and> zone = [] \<or> v6u16 x AND 0xfe00 = 0xfc00 \<or> v6u16 x AND 0xff00 = 0xff00 \<or> v6u16 x AND 0xffc0 = 0xfe80"
    using mask_ff0f [of "v6u16 x"] assms
    by (auto simp: flagged_def IsLoopback_def IsUnspecified_def IsPrivate_def IsMulticast_def IsLinkLocalUnicast_def IsLinkLocalMulticast_def
      IsInterfaceLocalMulticast_def)
  moreover have "x = 1 \<longleftrightarrow> unat x = 1" "x = 0 \<longleftrightarrow> unat x = 0" by (simp_all add: word_unat_eq_iff)
  ultimately show ?thesis by (simp only: bits16 unat_v6u16)
qed

lemma blocked6:
  "list_ex (\<lambda>prefix. Contains prefix (V6 x [])) blockedPrefixes \<longleftrightarrow>
     unat x div 2 ^ 118 = 0x3fb \<or> unat x div 2 ^ 96 = 0x20010000 \<or> unat x div 2 ^ 64 = 0x100 * 2 ^ 48 \<or> unat x div 2 ^ 80 = 0x64ff9b0001"
  by (simp add: blockedPrefixes_def Contains_unat del: Contains.simps)

lemma embedded6:
  "embeddedIPv4 (V6 x []) =
     (if unat x div 2 ^ 32 = 0x64ff9b * 2 ^ 64 \<or> unat x div 2 ^ 32 = 0 then Some (V4 (ucast x))
      else if unat x div 2 ^ 112 = 0x2002 then Some (V4 (ucast (drop_bit 80 x))) else None)"
  by (simp add: prefixNAT64_def prefix6to4_def prefixV4Cmp_def Contains_unat del: Contains.simps)

lemma classify_mapped: "drop_bit 32 x = 0xffff \<Longrightarrow> ClassifyAddr (V6 x zone) = ClassifyAddr (V4 (ucast x))"
  by (subst (1 2) classify_unfold) simp

lemma group_tests:
  "g div 512 = 0x7e \<longleftrightarrow> 0xfc00 \<le> g \<and> g \<le> (0xfdff :: nat)" "g div 256 = 0xff \<longleftrightarrow> 0xff00 \<le> g \<and> g \<le> (0xffff :: nat)"
  "g div 64 = 0x3fa \<longleftrightarrow> 0xfe80 \<le> g \<and> g \<le> (0xfebf :: nat)" "g div 64 = 0x3fb \<longleftrightarrow> 0xfec0 \<le> g \<and> g \<le> (0xfeff :: nat)"
  by (simp_all add: div_is)

lemma div_118: "n div 2 ^ 118 = n div 2 ^ 112 div (64 :: nat)"
proof -
  have "(2 :: nat) ^ 118 = 2 ^ 112 * 64" by simp
  then show ?thesis by (simp only: div_div)
qed

lemma top_group:
  assumes "0xfc00 \<le> n div 2 ^ 112"
  shows "carried n = None"
proof -
  have "0xfc00 * 2 ^ 112 \<le> (n :: nat)" using assms by (simp only: less_eq_div_iff_mult_less_eq zero_less_power zero_less_numeral)
  moreover have "(n div 2 ^ 32) * 2 ^ 32 + n mod 2 ^ 32 = n" "n mod 2 ^ 32 < 2 ^ 32" by (rule div_mult_mod_eq, simp)
  ultimately have "n div 2 ^ 32 \<noteq> 0xffff" "n div 2 ^ 32 \<noteq> 0" "n div 2 ^ 32 \<noteq> 0x64ff9b * 2 ^ 64" by auto
  moreover have "n div 2 ^ 112 \<noteq> 0x2002" using assms by linarith
  ultimately show ?thesis by (simp only: carried_def insert_iff empty_iff simp_thms if_False)
qed

lemma unat_6to4: "unat (ucast (drop_bit 80 x) :: 32 word) = unat x div 2 ^ 80 mod 2 ^ 32" for x :: "128 word"
  by (simp only: unsigned_ucast_eq unat_drop take_bit_eq_mod) simp

lemma internal4_low: "n < 2 \<Longrightarrow> internal4 n"
  by (simp add: internal4_def within_def dotted_def)

lemma classify6: "ClassifyAddr (V6 x []) = (if public_addr (V6 x []) then None else Some ErrInternalAddress)"
proof (cases "drop_bit 32 x = 0xffff")
  case True
  then have "unat x div 2 ^ 32 = 0xffff" using unat_drop [of 32 x] by (simp add: True)
  then have "carried (unat x) = Some (unat x mod 2 ^ 32)" by (simp add: carried_def)
  then show ?thesis by (simp add: classify_mapped [OF True] classify4 unat_ucast_low)
next
  case False
  let ?n = "unat x"
  have not_mapped: "?n div 2 ^ 32 \<noteq> 0xffff" using False by (simp add: word_unat_eq_iff unat_drop)
  have unmap: "Unmap (V6 x []) = V6 x []" using False by simp
  consider (low) "?n < 2" | (top) "2 \<le> ?n" "flagged (V6 x [])" | (plain) "\<not> flagged (V6 x [])" by linarith
  then show ?thesis
  proof cases
    case low
    then have "carried ?n = Some ?n" "internal4 ?n" by (simp_all add: carried_def internal4_low)
    moreover have "flagged (V6 x [])" unfolding flagged6 [OF False] using low by auto
    ultimately show ?thesis unfolding classify_unfold [of "V6 x []"] unmap by simp
  next
    case top
    then have g: "0xfc00 \<le> ?n div 2 ^ 112 \<and> ?n div 2 ^ 112 \<le> 0xfdff \<or> 0xfe80 \<le> ?n div 2 ^ 112"
      unfolding flagged6 [OF False] group_tests by auto
    then have "carried ?n = None" by (intro top_group) linarith
    moreover have "internal6 ?n" using g unfolding internal6_def by blast
    ultimately show ?thesis using top(2) unfolding classify_unfold [of "V6 x []"] unmap by simp
  next
    case plain
    show ?thesis
    proof (cases "embeddedIPv4 (V6 x [])")
      case (Some e)
      then have "e = V4 (ucast x) \<and> carried ?n = Some (?n mod 2 ^ 32) \<or>
          e = V4 (ucast (drop_bit 80 x)) \<and> carried ?n = Some (?n div 2 ^ 80 mod 2 ^ 32)"
        unfolding embedded6 carried_def using not_mapped by (simp only: insert_iff empty_iff simp_thms split: if_splits) auto
      then show ?thesis using plain Some unfolding classify_unfold [of "V6 x []"] unmap
        by (auto simp: classify4 unat_ucast_low unat_6to4 unat_drop)
    next
      case None
      then have c: "carried ?n = None" unfolding embedded6 carried_def using not_mapped by (simp only: insert_iff empty_iff simp_thms split: if_splits) auto
      have top: "?n div 2 ^ 112 \<le> 0xffff" using unsigned_less [of "v6u16 x", where 'a = nat] by (simp only: unat_v6u16) simp
      have "internal6 ?n \<longleftrightarrow> list_ex (\<lambda>prefix. Contains prefix (V6 x [])) blockedPrefixes"
        using plain unfolding blocked6 internal6_def flagged6 [OF False] div_118 group_tests using top by linarith
      then show ?thesis using plain None c unfolding classify_unfold [of "V6 x []"] unmap by simp
    qed
  qed
qed

section \<open>Properties\<close>

lemma classify_exact:
  assumes "\<not> zoned a"
  shows "ClassifyAddr a = (if public_addr a then None else Some ErrInternalAddress)"
proof (cases a)
  case (V4 x)
  then show ?thesis by (simp add: classify4)
next
  case (V6 x zone)
  then have "zone = []" using assms by simp
  then show ?thesis using V6 by (simp add: classify6)
qed

text \<open>The address itself and, where it carries one, the IPv4 address inside, which the denied ranges are compared with.\<close>

definition denied :: "Prefix list \<Rightarrow> Addr \<Rightarrow> bool" where
  "denied deny a \<longleftrightarrow> (\<exists>prefix \<in> set deny. Contains prefix (Unmap a) \<or> (\<exists>e. embeddedIPv4 (Unmap a) = Some e \<and> Contains prefix e))"

lemma Check_None: "Check deny a = None \<longleftrightarrow> ClassifyAddr a = None \<and> \<not> denied deny a"
  by (cases "embeddedIPv4 (Unmap a)") (auto simp: Check_def denied_def list_ex_iff split: option.splits)

lemma dial_each_tried: "set (fst (dial_each deny nw port targets)) \<subseteq> set targets"
  by (induction targets) (auto split: prod.splits)

lemma dial_each_connected: "dial_each deny nw port targets = (tried, Inr a) \<Longrightarrow> a \<in> set tried \<and> nw_connect nw a port"
  by (induction targets arbitrary: tried) (auto simp: dialAddress_def split: if_splits prod.splits)

lemma resolve_checked:
  assumes "resolve deny nw host = Inr targets"
  shows "\<forall>a \<in> set targets. Check deny a = None" "nw_parse nw host = None \<longrightarrow> nw_lookup nw host = Some targets"
  using assms by (auto simp: resolve_def find_None_iff split: option.splits if_splits)

lemma DialContext_tried:
  assumes "DialContext deny nw address = (tried, x)" "tried \<noteq> []"
  obtains host port targets where "nw_split nw address = Some (host, port)" "resolve deny nw host = Inr targets" "set tried \<subseteq> set targets"
    "dial_each deny nw port targets = (tried, x)"
  using assms dial_each_tried [of deny nw] by (auto simp: DialContext_def split: option.splits sum.splits) (metis fst_conv)


definition sample_network :: network where
  "sample_network = \<lparr>nw_split = (\<lambda>a. Some (a, ''443'')), nw_parse = (\<lambda>_. None),
     nw_lookup = (\<lambda>host. if host = ''rebound.example'' then Some [V4 (ip4 93 184 216 34), V6 (push_bit 96 0x64ff9b OR 0x7f000001) []] else Some [V4 (ip4 93 184 216 34)]),
     nw_connect = (\<lambda>_ _. True)\<rparr>"


lemma zoned_unblocked:
  assumes "zone \<noteq> []" "drop_bit 32 x \<noteq> 0xffff" "\<not> flagged (V6 x zone)"
  shows "ClassifyAddr (V6 x zone) = None"
  using assms by (subst classify_unfold) (simp add: prefixNAT64_def prefixV4Cmp_def prefix6to4_def blockedPrefixes_def)

text \<open>An address with a zone is compared with no prefix, so its carried IPv4 address is not looked at; \<open>ValidateHostSyntax\<close> refuses such
  literals before they get here.\<close>

theorem zone_hides_embedded:
  "Check [] (V6 (push_bit 96 0x64ff9b OR 0x7f000001) ''eth0'') = None \<and> Check [] (V6 (push_bit 96 0x64ff9b OR 0x7f000001) []) = Some ErrInternalAddress"
proof -
  let ?x = "push_bit 96 0x64ff9b OR 0x7f000001 :: 128 word"
  have u: "drop_bit 32 ?x \<noteq> 0xffff" by simp
  have "ClassifyAddr (V6 ?x ''eth0'') = None" by (rule zoned_unblocked) (simp, rule u, unfold flagged6 [OF u], simp)
  moreover have "ClassifyAddr (V6 ?x []) = Some ErrInternalAddress" unfolding classify6 by (simp add: carried_def internal4_def within_def dotted_def)
  ultimately show ?thesis by (simp add: Check_def)
qed

lemma literal_not_zoned: "parseLiteral parse host = Some a \<Longrightarrow> \<not> zoned a"
  by (auto simp: parseLiteral_def Let_def split: option.splits if_splits)

end
