(* ===== verification/Hooks.thy ===== *)
theory Hooks
  imports PublicAddr HandlerCore
begin

text \<open>
  How a project's hook is called (\<open>internal/hooks\<close>: \<open>client.go\<close>, \<open>sign.go\<close>): the URLs it may have, the signed message, and what
  of its answer is taken. URL parsing, base64, HMAC, JSON and the HTTP exchange are parameters; the exchange reaches the
  network through the dialer of \<open>PublicAddr\<close>, without a proxy, and follows no redirect.
\<close>

section \<open>The target\<close>

definition MaxTargetLength :: nat where "MaxTargetLength = 2048"
definition MaxAnswerBytes :: nat where "MaxAnswerBytes = 65536"
definition secretPrefix :: string where "secretPrefix = ''whsec_''"
definition minSecretBytes :: nat where "minSecretBytes = 24"

definition parseTarget :: "(string \<Rightarrow> url option) \<Rightarrow> string \<Rightarrow> url option" where
  "parseTarget parse_url raw =
     (if raw = [] \<or> length raw > MaxTargetLength \<or> CHR ''#'' \<in> set raw then None
      else case parse_url raw of
          None \<Rightarrow> None
        | Some parsed \<Rightarrow>
            if url_Scheme parsed \<noteq> ''https'' \<or> url_User parsed \<or> url_Opaque parsed \<noteq> [] \<or> url_Hostname parsed = [] then None
            else Some parsed)"

definition validatePort :: "url \<Rightarrow> bool" where
  "validatePort parsed = (url_Port parsed = [] \<or> url_Port parsed = ''443'')"

definition numericTopLabel :: "string \<Rightarrow> bool" where
  "numericTopLabel host =
     (let top = ToLower (last (split_on (CHR ''.'') (TrimSuffix host ''.'')))
      in HasPrefix top ''0x'' \<or> list_all is_digit top)"

definition ValidateTarget :: "(string \<Rightarrow> url option) \<Rightarrow> (string \<Rightarrow> Addr option) \<Rightarrow> string \<Rightarrow> bool" where
  "ValidateTarget parse_url parse_addr raw =
     (case parseTarget parse_url raw of
        None \<Rightarrow> False
      | Some parsed \<Rightarrow>
          if \<not> validatePort parsed then False
          else
            let host = url_Hostname parsed in
            if ValidateHostSyntax parse_addr host \<noteq> None then False
            else case parse_addr host of
                Some addr \<Rightarrow> ClassifyAddr addr = None
              | None \<Rightarrow> \<not> numericTopLabel host)"

section \<open>The message\<close>

record hook_lib =
  hl_url :: "string \<Rightarrow> url option"
  hl_addr :: "string \<Rightarrow> Addr option"
  hl_base64 :: "string \<Rightarrow> string"
  hl_unbase64 :: "string \<Rightarrow> string option"
  hl_hmac :: "string \<Rightarrow> string \<Rightarrow> string"

definition secretKey :: "hook_lib \<Rightarrow> string \<Rightarrow> string option" where
  "secretKey lib secret =
     (if \<not> HasPrefix secret secretPrefix then None
      else case hl_unbase64 lib (TrimPrefix secret secretPrefix) of
          None \<Rightarrow> None
        | Some key \<Rightarrow> if length key < minSecretBytes then None else Some key)"

text \<open>The time is in seconds.\<close>

definition signature :: "hook_lib \<Rightarrow> string \<Rightarrow> string \<Rightarrow> string \<Rightarrow> string \<Rightarrow> string option" where
  "signature lib secret i unix body =
     (case secretKey lib secret of
        None \<Rightarrow> None
      | Some key \<Rightarrow> Some (''v1,'' @ hl_base64 lib (hl_hmac lib key (i @ ''.'' @ unix @ ''.'' @ body))))"

record hook_request =
  hr_URL :: string
  hr_Body :: string
  hr_ID :: string
  hr_Timestamp :: string
  hr_Signature :: string

text \<open>\<open>signedRequest\<close>, with the drawn message id, or \<open>None\<close> where there is none, and the clock in seconds.\<close>

definition signedRequest :: "hook_lib \<Rightarrow> string option \<Rightarrow> string \<Rightarrow> string \<Rightarrow> string \<Rightarrow> string \<Rightarrow> hook_request option" where
  "signedRequest lib drawn unix target secret body =
     (case drawn of
        None \<Rightarrow> None
      | Some i \<Rightarrow>
          (case signature lib secret i unix body of
             None \<Rightarrow> None
           | Some sig \<Rightarrow> Some \<lparr>hr_URL = target, hr_Body = body, hr_ID = i, hr_Timestamp = unix, hr_Signature = sig\<rparr>))"

text \<open>An answer: its status, and its body as far as it could be read.\<close>

record hook_response =
  hp_Status :: nat
  hp_Body :: "string option"

definition readAnswer :: "(string \<Rightarrow> 'a option) option \<Rightarrow> hook_response \<Rightarrow> 'a option option" where
  "readAnswer out resp =
     (if hp_Status resp < 200 \<or> hp_Status resp > 299 then None
      else case hp_Body resp of
          None \<Rightarrow> None
        | Some answer \<Rightarrow>
            if length answer > MaxAnswerBytes then None
            else case out of
                None \<Rightarrow> Some None
              | Some decode \<Rightarrow> (case decode answer of None \<Rightarrow> None | Some x \<Rightarrow> Some (Some x)))"

text \<open>
  \<open>Call\<close>: what was sent, and the decoded answer, or \<open>None\<close> for every failure. \<open>payload\<close> is the encoded payload, \<open>do\<close> the exchange
  within its deadline; \<open>out\<close> is absent where any answer will do.
\<close>

definition Call :: "hook_lib \<Rightarrow> string option \<Rightarrow> string \<Rightarrow> (hook_request \<Rightarrow> hook_response option) \<Rightarrow> string \<Rightarrow> string \<Rightarrow> string option
    \<Rightarrow> (string \<Rightarrow> 'a option) option \<Rightarrow> hook_request option \<times> 'a option option" where
  "Call lib drawn unix exchange_with target secret payload out =
     (if \<not> ValidateTarget (hl_url lib) (hl_addr lib) target then (None, None)
      else case payload of
          None \<Rightarrow> (None, None)
        | Some body \<Rightarrow>
            (case signedRequest lib drawn unix target secret body of
               None \<Rightarrow> (None, None)
             | Some req \<Rightarrow>
                 (case exchange_with req of
                    None \<Rightarrow> (Some req, None)
                  | Some resp \<Rightarrow> (Some req, readAnswer out resp))))"

section \<open>Properties\<close>

lemma parseTarget_Some:
  "parseTarget parse_url raw = Some u \<Longrightarrow> parse_url raw = Some u \<and> url_Scheme u = ''https'' \<and> \<not> url_User u \<and> url_Opaque u = [] \<and> url_Hostname u \<noteq> [] \<and>
    length raw \<le> 2048 \<and> CHR ''#'' \<notin> set raw"
  by (auto simp: parseTarget_def MaxTargetLength_def split: if_splits option.splits)

text \<open>A host that is no literal is a name of several labels, none of the platform's own.\<close>

definition public_name :: "string \<Rightarrow> bool" where
  "public_name host \<longleftrightarrow> (let name = canonicalName host in
     CHR ''.'' \<in> set name \<and> length name \<le> 253 \<and> (\<forall>suffix \<in> set internalSuffixes. \<not> HasSuffix name suffix) \<and>
     CHR '':'' \<notin> set host \<and> CHR 0x25 \<notin> set host \<and> \<not> numericTopLabel host)"

lemma host_syntax:
  assumes "ValidateHostSyntax parse host = None" "parse host = None" "\<not> numericTopLabel host" "\<not> HasPrefix host ''[''"
  shows "public_name host"
proof -
  have "parseLiteral parse host = None"
    using assms(2,4) by (simp add: parseLiteral_def TrimPrefix_def TrimSuffix_def)
  then show ?thesis
    using assms by (auto simp: ValidateHostSyntax_def public_name_def looksLikeAddress_def maxHostnameLen_def list_ex_iff Let_def split: if_splits)
qed

lemma literal_syntax:
  assumes "ValidateHostSyntax parse host = None" "parse host = Some a" "\<not> HasPrefix host ''[''" "zoned a \<longrightarrow> CHR 0x25 \<in> set host"
  shows "\<not> zoned a"
proof
  assume z: "zoned a"
  then have "parseLiteral parse host = None" using assms(2,3) by (simp add: parseLiteral_def TrimPrefix_def TrimSuffix_def)
  moreover have "looksLikeAddress host" using z assms(4) by (auto simp: looksLikeAddress_def list_ex_iff)
  ultimately show False using assms(1) by (simp add: ValidateHostSyntax_def)
qed

text \<open>What the URL and address parsers promise: a host name comes without brackets, and a zone is written after a percent sign.\<close>

definition parsers_ok :: "hook_lib \<Rightarrow> bool" where
  "parsers_ok lib \<longleftrightarrow> (\<forall>raw u. hl_url lib raw = Some u \<longrightarrow> \<not> HasPrefix (url_Hostname u) ''['') \<and>
     (\<forall>host a. hl_addr lib host = Some a \<and> zoned a \<longrightarrow> CHR 0x25 \<in> set host)"

definition public_target :: "hook_lib \<Rightarrow> string \<Rightarrow> bool" where
  "public_target lib target \<longleftrightarrow> (\<exists>u. hl_url lib target = Some u \<and> url_Scheme u = ''https'' \<and> \<not> url_User u \<and> url_Port u \<in> {[], ''443''} \<and>
     (case hl_addr lib (url_Hostname u) of Some a \<Rightarrow> \<not> zoned a \<and> public_addr a | None \<Rightarrow> public_name (url_Hostname u)))"

lemma ValidateTarget_public:
  assumes "parsers_ok lib" "ValidateTarget (hl_url lib) (hl_addr lib) target"
  shows "public_target lib target"
proof -
  from assms(2) obtain u where u: "parseTarget (hl_url lib) target = Some u" and port: "validatePort u"
    and syn: "ValidateHostSyntax (hl_addr lib) (url_Hostname u) = None"
    and host: "case hl_addr lib (url_Hostname u) of Some addr \<Rightarrow> ClassifyAddr addr = None | None \<Rightarrow> \<not> numericTopLabel (url_Hostname u)"
    by (auto simp: ValidateTarget_def Let_def split: option.splits if_splits)
  note p = parseTarget_Some [OF u]
  have br: "\<not> HasPrefix (url_Hostname u) ''[''" using assms(1) p by (auto simp: parsers_ok_def)
  have "case hl_addr lib (url_Hostname u) of Some a \<Rightarrow> \<not> zoned a \<and> public_addr a | None \<Rightarrow> public_name (url_Hostname u)"
  proof (cases "hl_addr lib (url_Hostname u)")
    case None
    then show ?thesis using host host_syntax [OF syn None _ br] by simp
  next
    case (Some a)
    then have "\<not> zoned a" using assms(1) by (intro literal_syntax [OF syn Some br]) (auto simp: parsers_ok_def)
    then show ?thesis using Some host classify_exact [of a] by (auto split: if_splits)
  qed
  then show ?thesis using p port by (auto simp: public_target_def validatePort_def)
qed

lemma readAnswer_Some:
  "readAnswer out resp = Some x \<Longrightarrow> 200 \<le> hp_Status resp \<and> hp_Status resp \<le> 299 \<and> (\<exists>answer. hp_Body resp = Some answer \<and> length answer \<le> 65536 \<and>
     (case out of None \<Rightarrow> x = None | Some decode \<Rightarrow> x = decode answer \<and> x \<noteq> None))"
  by (auto simp: readAnswer_def MaxAnswerBytes_def split: if_splits option.splits dest: sym)

text \<open>C20: Nothing is sent to a hook but one signed message to a public host over https. Its URL names no user and no port but 443, and its
  host is a public address or a name of several labels that is none of the platform's own and no disguised number; it carries
  the payload, signed in the project's key of at least twenty-four bytes together with the id and the time it is sent with. An
  answer counts only from a success of at most 64 KB that decodes; everything else is a failure, with which the caller
  refuses.\<close>

theorem hook_call_guarded:
  assumes "parsers_ok lib" "Call lib drawn unix exchange_with target secret payload out = (sent, answer)"
  shows "(\<forall>req. sent = Some req \<longrightarrow> public_target lib target \<and> hr_URL req = target \<and> payload = Some (hr_Body req) \<and> drawn = Some (hr_ID req) \<and>
      (\<exists>encoded key. secret = ''whsec_'' @ encoded \<and> hl_unbase64 lib encoded = Some key \<and> 24 \<le> length key \<and>
         hr_Signature req = ''v1,'' @ hl_base64 lib (hl_hmac lib key (hr_ID req @ ''.'' @ hr_Timestamp req @ ''.'' @ hr_Body req)))) \<and>
    (\<forall>x. answer = Some x \<longrightarrow> (\<exists>req resp body. sent = Some req \<and> exchange_with req = Some resp \<and> 200 \<le> hp_Status resp \<and> hp_Status resp \<le> 299 \<and>
       hp_Body resp = Some body \<and> length body \<le> 65536 \<and> (case out of None \<Rightarrow> x = None | Some decode \<Rightarrow> x = decode body \<and> x \<noteq> None)))"
proof (cases sent)
  case None
  then show ?thesis using assms(2) by (auto simp: Call_def split: if_splits option.splits)
next
  case (Some req)
  from assms(2) Some obtain body where v: "ValidateTarget (hl_url lib) (hl_addr lib) target" and b: "payload = Some body"
    and sr: "signedRequest lib drawn unix target secret body = Some req"
    and ans: "answer = (case exchange_with req of None \<Rightarrow> None | Some resp \<Rightarrow> readAnswer out resp)"
    by (auto simp: Call_def split: if_splits option.splits)
  from sr obtain key where d: "drawn = Some (hr_ID req)" and key: "secretKey lib secret = Some key" and t: "hr_URL req = target" "hr_Body req = body"
    and sig: "hr_Signature req = ''v1,'' @ hl_base64 lib (hl_hmac lib key (hr_ID req @ ''.'' @ hr_Timestamp req @ ''.'' @ hr_Body req))"
    by (auto simp: signedRequest_def signature_def split: option.splits)
  from key have p: "HasPrefix secret secretPrefix" and k: "hl_unbase64 lib (TrimPrefix secret secretPrefix) = Some key" "24 \<le> length key"
    by (auto simp: secretKey_def minSecretBytes_def split: if_splits option.splits)
  obtain encoded where e: "secret = ''whsec_'' @ encoded" using p by (metis HasPrefix_def secretPrefix_def append_take_drop_id)
  have "hl_unbase64 lib encoded = Some key" using k(1) by (simp add: e TrimPrefix_def HasPrefix_def secretPrefix_def)
  moreover have "public_target lib target" by (rule ValidateTarget_public [OF assms(1) v])
  moreover have "\<exists>resp body. exchange_with req = Some resp \<and> 200 \<le> hp_Status resp \<and> hp_Status resp \<le> 299 \<and>
       hp_Body resp = Some body \<and> length body \<le> 65536 \<and> (case out of None \<Rightarrow> x = None | Some decode \<Rightarrow> x = decode body \<and> x \<noteq> None)" if got: "answer = Some x" for x
  proof -
    obtain resp where resp: "exchange_with req = Some resp" "readAnswer out resp = Some x" using ans got by (cases "exchange_with req") auto
    then show ?thesis using readAnswer_Some [OF resp(2)] by blast
  qed
  ultimately show ?thesis using Some b d t sig k(2) e by blast
qed

definition sample_hook_url :: url where
  "sample_hook_url = \<lparr>url_Scheme = ''https'', url_Opaque = [], url_User = False, url_Host = ''hook.example'', url_Hostname = ''hook.example'', url_Port = [],
     url_Path = ''/'', url_EscapedPath = ''/'', url_RawQuery = [], url_Fragment = [], url_String = ''https://hook.example/'', url_with_query = (\<lambda>q. q)\<rparr>"

definition sample_hook_lib :: hook_lib where
  "sample_hook_lib = \<lparr>hl_url = (\<lambda>raw. if raw = ''https://hook.example/'' then Some sample_hook_url else None), hl_addr = (\<lambda>_. None),
     hl_base64 = (\<lambda>x. x), hl_unbase64 = Some, hl_hmac = (\<lambda>key text. key @ text)\<rparr>"

definition sample_hook_call :: "hook_request option \<times> string option option" where
  "sample_hook_call = Call sample_hook_lib (Some ''msg_1'') ''100'' (\<lambda>_. Some \<lparr>hp_Status = 200, hp_Body = Some ''{}''\<rparr>) ''https://hook.example/''
     ''whsec_0123456789abcdef01234567'' (Some ''body'') (Some Some)"

lemma sample_target: "ValidateTarget (hl_url sample_hook_lib) (hl_addr sample_hook_lib) ''https://hook.example/''"
  by (simp add: ValidateTarget_def parseTarget_def validatePort_def ValidateHostSyntax_def parseLiteral_def numericTopLabel_def looksLikeAddress_def canonicalName_def
      validLabel_def internalSuffixes_def maxHostnameLen_def maxLabelLen_def MaxTargetLength_def sample_hook_lib_def sample_hook_url_def HasPrefix_def HasSuffix_def
      TrimPrefix_def TrimSuffix_def ToLower_def lower_char_def is_upper_def is_lower_def is_digit_def Let_def)

lemma sample_hook_sent: "\<exists>req. sample_hook_call = (Some req, Some (Some ''{}''))"
  by (simp add: sample_hook_call_def Call_def sample_target)
    (simp add: signedRequest_def signature_def secretKey_def secretPrefix_def minSecretBytes_def sample_hook_lib_def HasPrefix_def TrimPrefix_def readAnswer_def
      MaxAnswerBytes_def)

theorem hook_call_guarded_witness:
  "(\<exists>req. sample_hook_call = (Some req, Some (Some ''{}''))) \<and> public_target sample_hook_lib ''https://hook.example/''"
proof -
  have ok: "parsers_ok sample_hook_lib" by (simp add: parsers_ok_def sample_hook_lib_def sample_hook_url_def HasPrefix_def)
  obtain req where req: "sample_hook_call = (Some req, Some (Some ''{}''))" using sample_hook_sent by blast
  have "public_target sample_hook_lib ''https://hook.example/''"
    using conjunct1 [OF hook_call_guarded [OF ok req [unfolded sample_hook_call_def]]] by blast
  then show ?thesis using req by blast
qed

end
