(* ===== verification/Cors.thy ===== *)
theory Cors
  imports Prelude
begin

text \<open>
  Which origins a browser may call from (\<open>internal/middleware\<close>: \<open>cors.go\<close>, \<open>project_cors.go\<close>; \<open>internal/cors\<close>: \<open>provider.go\<close>):
  the grant of a project's routes and of the platform's, and the cache of the projects' allowlists. What provisioning
  answers to a fetch is a parameter.
\<close>

section \<open>Grants\<close>

definition corsWildcard :: string where "corsWildcard = ''*''"

text \<open>The headers set on the answer, and whether the handler behind is called or the middleware answers.\<close>

record grant =
  gr_Vary :: bool
  gr_AllowOrigin :: "string option"
  gr_Credentials :: bool
  gr_Preflight :: bool

datatype passage = CallNext | AnswerNow nat

definition no_grant :: grant where
  "no_grant = \<lparr>gr_Vary = False, gr_AllowOrigin = None, gr_Credentials = False, gr_Preflight = False\<rparr>"

text \<open>\<open>resolve\<close> is the project's allowlist, \<open>None\<close> where it cannot be read; there is none at all where no resolver is configured.\<close>

definition projectGrant :: "(string \<Rightarrow> string list option) option \<Rightarrow> string \<Rightarrow> string \<Rightarrow> string" where
  "projectGrant origins projectID origin =
     (case origins of
        None \<Rightarrow> []
      | Some resolve \<Rightarrow>
          if projectID = [] then []
          else case resolve projectID of
              None \<Rightarrow> []
            | Some listed \<Rightarrow>
                if listed = [corsWildcard] then corsWildcard
                else if list_ex (\<lambda>entry. entry = origin) listed then origin else [])"

definition grantProjectCORS :: "string list \<Rightarrow> (string \<Rightarrow> string list option) option \<Rightarrow> string \<Rightarrow> string \<Rightarrow> bool \<times> grant" where
  "grantProjectCORS platform origins projectID origin =
     (let g = no_grant\<lparr>gr_Vary := True\<rparr> in
      if origin \<in> set platform then (True, g\<lparr>gr_AllowOrigin := Some origin, gr_Credentials := True\<rparr>)
      else
        let allowOrigin = projectGrant origins projectID origin in
        if allowOrigin = [] then (False, g) else (True, g\<lparr>gr_AllowOrigin := Some allowOrigin\<rparr>))"

definition ProjectCORS :: "string list \<Rightarrow> (string \<Rightarrow> string list option) option \<Rightarrow> string \<Rightarrow> string \<Rightarrow> string \<Rightarrow> passage \<times> grant" where
  "ProjectCORS platformOrigins origins projectID verb origin =
     (let platform = filter (\<lambda>o'. o' \<noteq> corsWildcard) platformOrigins in
      if origin = [] then (CallNext, no_grant)
      else
        let (granted, g) = grantProjectCORS platform origins projectID origin in
        if verb \<noteq> ''OPTIONS'' then (CallNext, g)
        else if \<not> granted then (AnswerNow 403, g)
        else (AnswerNow 204, g\<lparr>gr_Preflight := True\<rparr>))"

text \<open>The platform's own routes.\<close>

definition CORS :: "string list \<Rightarrow> string \<Rightarrow> string \<Rightarrow> passage \<times> grant" where
  "CORS allowedOrigins verb origin =
     (let wildcard = (allowedOrigins = [corsWildcard]);
          allowed = (origin \<noteq> [] \<and> (wildcard \<or> origin \<in> set allowedOrigins));
          g0 = no_grant\<lparr>gr_Vary := origin \<noteq> []\<rparr>;
          g = (if allowed then g0\<lparr>gr_AllowOrigin := Some origin, gr_Credentials := True\<rparr> else g0)
      in if verb \<noteq> ''OPTIONS'' then (CallNext, g)
         else if origin \<noteq> [] \<and> \<not> allowed then (AnswerNow 403, g)
         else (AnswerNow 204, if allowed then g\<lparr>gr_Preflight := True\<rparr> else g))"

section \<open>Allowlists\<close>

record cachedOrigins =
  co_origins :: "string list"
  co_fetchedAt :: time

type_synonym origin_cache = "string \<rightharpoonup> cachedOrigins"

text \<open>\<open>Resolve\<close>, with what a fetch would answer now.\<close>

definition Resolve :: "duration \<Rightarrow> time \<Rightarrow> (string \<Rightarrow> string list option) \<Rightarrow> string \<Rightarrow> origin_cache \<Rightarrow> string list option \<times> origin_cache" where
  "Resolve ttl now fetch projectID cache =
     (case cache projectID of
        Some cached \<Rightarrow>
          if now - co_fetchedAt cached < ttl then (Some (co_origins cached), cache)
          else (case fetch projectID of
              None \<Rightarrow> (Some (co_origins cached), cache)
            | Some fresh \<Rightarrow> (Some fresh, cache(projectID \<mapsto> \<lparr>co_origins = fresh, co_fetchedAt = now\<rparr>)))
      | None \<Rightarrow>
          (case fetch projectID of
             None \<Rightarrow> (None, cache)
           | Some fresh \<Rightarrow> (Some fresh, cache(projectID \<mapsto> \<lparr>co_origins = fresh, co_fetchedAt = now\<rparr>))))"

text \<open>A run of the provider: each request asks for a project at a time, with what provisioning would answer then.\<close>

type_synonym origin_query = "time \<times> string \<times> (string \<Rightarrow> string list option)"

fun resolve_run :: "duration \<Rightarrow> origin_query list \<Rightarrow> origin_cache \<Rightarrow> origin_cache" where
  "resolve_run ttl [] cache = cache"
| "resolve_run ttl ((now, projectID, fetch) # qs) cache = resolve_run ttl qs (snd (Resolve ttl now fetch projectID cache))"

section \<open>Properties\<close>

text \<open>Every cached list is one provisioning gave for that very project when it was asked at the cached time.\<close>

definition sourced :: "origin_query set \<Rightarrow> origin_cache \<Rightarrow> bool" where
  "sourced asked cache \<longleftrightarrow> (\<forall>p c. cache p = Some c \<longrightarrow> (\<exists>fetch. (co_fetchedAt c, p, fetch) \<in> asked \<and> fetch p = Some (co_origins c)))"

lemma sourced_Resolve:
  "sourced asked cache \<Longrightarrow> sourced (insert (now, p, fetch) asked) (snd (Resolve ttl now fetch p cache))"
  by (auto simp: sourced_def Resolve_def split: option.splits)

lemma sourced_run: "sourced asked cache \<Longrightarrow> sourced (asked \<union> set qs) (resolve_run ttl qs cache)"
proof (induction qs arbitrary: asked cache)
  case (Cons q qs)
  obtain now p fetch where q: "q = (now, p, fetch)" by (cases q)
  from Cons.IH [OF sourced_Resolve [OF Cons.prems, of now p fetch ttl]] show ?case by (simp add: q)
qed simp

lemma projectGrant_listed:
  "projectGrant origins projectID origin \<noteq> [] \<Longrightarrow> \<exists>resolve listed. origins = Some resolve \<and> resolve projectID = Some listed \<and>
     (listed = [''*''] \<and> projectGrant origins projectID origin = ''*'' \<or> origin \<in> set listed \<and> projectGrant origins projectID origin = origin)"
  by (auto simp: projectGrant_def corsWildcard_def list_ex_iff split: option.splits if_splits)

text \<open>C38: A project's routes grant an origin only what the project or the platform listed. Credentials go to an origin the platform lists by
  name and to no other, whatever the project allows; another origin is granted only by the project's own allowlist, read for
  this project, that names it or is the wildcard alone. With no list, an unreadable one or no project nothing is granted and
  a preflight is refused; a request that is no preflight always reaches its handler.\<close>

theorem project_cors_grants:
  assumes "ProjectCORS platformOrigins origins projectID verb origin = (passage, g)"
  shows "(gr_Credentials g \<longrightarrow> origin \<in> set platformOrigins \<and> origin \<noteq> ''*'' \<and> gr_AllowOrigin g = Some origin) \<and>
    (\<forall>a. gr_AllowOrigin g = Some a \<longrightarrow> origin \<in> set platformOrigins \<and> a = origin \<or>
       (\<exists>resolve listed. origins = Some resolve \<and> resolve projectID = Some listed \<and> (listed = [''*''] \<and> a = ''*'' \<or> origin \<in> set listed \<and> a = origin))) \<and>
    (gr_AllowOrigin g = None \<and> origin \<noteq> [] \<and> verb = ''OPTIONS'' \<longrightarrow> passage = AnswerNow 403) \<and> (verb \<noteq> ''OPTIONS'' \<longrightarrow> passage = CallNext)"
proof -
  have "origin \<noteq> ''*''" if "origin \<in> set (filter (\<lambda>o'. o' \<noteq> corsWildcard) platformOrigins)" using that by (simp add: corsWildcard_def)
  then show ?thesis using assms projectGrant_listed [of origins projectID origin]
    by (auto simp: ProjectCORS_def grantProjectCORS_def no_grant_def Let_def split: if_splits)
qed

theorem project_cors_grants_witness:
  "\<not> gr_Credentials (snd (ProjectCORS [''https://studio.example''] (Some (\<lambda>_. Some [''*''])) ''p'' ''GET'' ''https://evil.example''))"
  using project_cors_grants [of "[''https://studio.example'']" "Some (\<lambda>_. Some [''*''])" "''p''" "''GET''" "''https://evil.example''",
      OF prod.collapse [symmetric]] by auto

text \<open>An allowlist that is served was given by provisioning for that project, when it was asked or, where it is younger than the time to live
  or provisioning does not answer, at the time it was last given.\<close>

theorem allowlists_sourced:
  assumes "Resolve ttl now fetch p (resolve_run ttl qs (\<lambda>_. None)) = (Some origins, cache)"
  shows "fetch p = Some origins \<or> (\<exists>t fetch'. (t, p, fetch') \<in> set qs \<and> fetch' p = Some origins \<and> (now - t < ttl \<or> fetch p = None))"
proof -
  have "sourced (set qs) (resolve_run ttl qs (\<lambda>_. None))" using sourced_run [of "{}" "\<lambda>_. None" qs ttl] by (simp add: sourced_def)
  then show ?thesis using assms by (auto simp: Resolve_def sourced_def split: option.splits if_splits) blast+
qed

end
