(* ===== verification/Spec2Isabelle.thy ===== *)
theory Spec2Isabelle
  imports RateLimit PgEmail Routes Hooks Cors
begin

text \<open>
  A verification of the multi-tenant authentication service (\<open>src/internal\<close>, Go).

  \<^bold>\<open>The program.\<close> Every project has its own database. A request names its project; the handlers (\<open>internal/handler\<close>) read
  the project's settings, run behind per-route limits (\<open>internal/middleware/rate_limit.go\<close>) and, where a route asks for it,
  behind a verified bearer token (\<open>require_jwt.go\<close>), and work on the database through the store interface
  (\<open>internal/store\<close>), each operation of which is one transaction. They issue access tokens (\<open>internal/auth/jwt.go\<close>) and
  rotating refresh tokens, mailed links and codes, authorization codes for provider sign-in, second factors, API keys and
  guest accounts.

  \<^bold>\<open>The theories.\<close>
  \<^item> \<open>Prelude\<close>, \<open>Text\<close>: tables as lists of rows with \<open>update_where\<close>, \<open>delete_where\<close> and uniqueness; the strings, UTF-8 and
    escaping functions of Go's library the code uses. A string is its bytes. \<open>Interfaces\<close>: contracts used by several stores
    (a secret that is spent once, a run of requests, a counted budget).
  \<^item> \<open>RateLimit\<close> (\<open>internal/ratelimit\<close>, \<open>internal/throttle\<close>): token buckets over rationals where the code has floats, the
    client address behind proxies, identity keys and the fixed-window counter.
  \<^item> \<open>Store\<close>: one record per table after every migration, and \<open>wf_db\<close>, the constraints of the schema. \<open>PgSessions\<close>,
    \<open>PgAccounts\<close>, \<open>PgTokens\<close>, \<open>PgIdentities\<close>, \<open>PgEmail\<close>, \<open>PgMfa\<close>, \<open>PgGuests\<close> (\<open>internal/store/pgstore\<close>): each store
    operation as a function from the database to its result and the database it leaves; a failed transaction leaves it
    as it was.
  \<^item> \<open>Roles\<close>, \<open>Secrets\<close>, \<open>Jwt\<close>, \<open>Redirect\<close> (\<open>internal/auth\<close>, \<open>internal/mfa\<close>, \<open>internal/emailotp\<close>, \<open>internal/oauth\<close>,
    \<open>internal/hooks/claims.go\<close>): role names, TOTP codes, sealed secrets, recovery codes, claims, what a hook may change of
    them, and the URLs a browser may be sent to.
  \<^item> \<open>PublicAddr\<close> (\<open>internal/publicaddr\<close>): addresses as words of 32 and 128 bits, the ranges that are refused, checked against their
    intervals, and the dialer; \<open>Hooks\<close> (\<open>internal/hooks/client.go\<close>, \<open>sign.go\<close>): a hook's URL, the signed call and its answer;
    \<open>Cors\<close> (\<open>internal/middleware/cors.go\<close>, \<open>project_cors.go\<close>, \<open>internal/cors\<close>): which origins a browser may call from.
  \<^item> \<open>HandlerCore\<close>, \<open>HandlerSessions\<close>, \<open>Service\<close>, \<open>HandlerLinks\<close>, \<open>HandlerMfa\<close>, \<open>Actions\<close>, \<open>HandlerSignIn\<close>, \<open>HandlerAccount\<close>,
    \<open>HandlerAdmin\<close> (\<open>internal/handler\<close>, \<open>internal/middleware\<close>, \<open>internal/service\<close>): the handlers with their guards in the
    order of the code, every early answer a value. The state of the service is the database, the limits, the throttles and
    the mail handed over. \<open>Actions\<close> has the sequencing of steps that may answer early and the laws that read a granted run
    off its steps.
  \<^item> \<open>StoreSteps\<close>: the step relation of the store (\<open>internal/store/store.go\<close>), one rule per operation, and the locale of an
    invariant of the steps, in which every handler is shown to keep it. \<open>Routes\<close>: all routes of a project as they are
    mounted, the middleware of each in the order it runs, and the states reachable by calls and sweeps.

  \<^bold>\<open>What is shown.\<close> Of every grant what it requires, stores and signs, and that its secret is spent; that refused requests
  change nothing they should not; that sessions end where they must (reuse of a refresh token, reset and change of a
  password, change of roles); that guesses and sends are bounded; that only the account's own, freshly signed-in end user
  changes how it signs in, and only the project administers it; that every route lets in only the caller it is for, acts on
  the database only through the store's operations and so keeps the schema's constraints in every reachable state; that hooks
  are called only at public addresses, signed, and browsers granted only what is listed; and round trips of tokens, sealed
  secrets, redirects and API keys.

  \<^bold>\<open>Parameters.\<close> Everything a handler learns from outside is a field of \<open>request\<close>: the clock, the project's settings
  (fresh, cached or unreadable), random tokens, hashing and signing, URL and address parsing, what a hook, the provider, the
  captcha or the mail service answers. JSON bodies come decoded. The hypotheses on them are the documented ones (a
  signature verifies what was signed, sealing is injective in its additional data). Loops end by their own structure; the
  guest sweep terminates because every page moves its cursor.

  \<^bold>\<open>Not modelled.\<close> The MySQL store, a second implementation of the same interface; connection pools, TLS, HTTP clients
  and servers, mail delivery and metrics, which are input and output; Argon2, AES-GCM, SHA-256 and the JWT library,
  which are third-party and enter as parameters; migrations, configuration and start-up; the tests.
\<close>

end
